theory Spec2Isabelle
  imports Complex_Main "HOL-Library.AList"
begin

section \<open>Data model of the persistent store (storage.js)\<close>

text \<open>
  The schema of the header comment of storage.js:
  \<^verbatim>\<open>
  Project: { id, name, icon, color, parentId: null|string, children: string[],
             chatIds: string[], collapsed: bool }
  gpm_chatMap: { [chatId]: { projectId, alias, pinned } }
  \<close>
  Identifiers are JavaScript strings.  A nullable string (\<open>parentId\<close>) is a
  \<open>string option\<close> with \<open>None\<close> for \<open>null\<close>.  The field \<open>order\<close> is only ever
  written by the root reorder of the drop handler, so it may be missing (\<open>None\<close>).
  The field \<open>id\<close> of the source is called \<open>id'\<close> here, since \<open>id\<close> is the identity
  function of HOL, and \<open>alias\<close> is called \<open>alias'\<close>, since \<open>alias\<close> is a
  keyword of Isabelle.
\<close>

record project =
  id' :: string
  name :: string
  icon :: string
  color :: string
  parentId :: "string option"
  children :: "string list"
  chatIds :: "string list"
  collapsed :: bool
  order :: "int option"

record chatMapping =
  projectId :: string
  alias' :: string
  pinned :: bool

text \<open>
  \<open>gpm_chatMap\<close> is a JavaScript object, used as a dictionary.  The association list
  holds its own properties, which are what \<open>chrome.storage.local\<close> stores and what
  \<open>Object.entries\<close> enumerates; a key occurs once in a JavaScript object.  A new key goes
  to the end of the list; JavaScript enumerates it there unless it is an array index
  (a decimal numeral below \<open>2^32 - 1\<close>), which comes before the other keys.  The loops
  over \<open>Object.entries\<close> below do the same in any order of the entries.  What a read
  \<open>chatMap[chatId]\<close> finds for a key that is no own property is the subject of the
  record \<open>realm\<close> below.

  The store holds the two collections that the operations below read and write as
  a whole (\<open>getProjects\<close>, \<open>getChatMap\<close>, \<open>saveProjects\<close>, \<open>saveChatMap\<close>).  A key
  that was never written reads as the empty collection (\<open>|| []\<close>, \<open>|| {}\<close>), which is
  what the fields hold then.  \<open>sent\<close> counts the \<open>GPM_STORAGE_UPDATED\<close> messages
  handed to \<open>chrome.runtime.sendMessage\<close>.
\<close>

record store =
  gpm_projects :: "project list"
  gpm_chatMap :: "(string \<times> chatMapping) list"
  sent :: nat

text \<open>JavaScript truthiness of a nullable string: \<open>null\<close> and \<open>''\<close> are falsy.\<close>

fun truthyStr :: "string option \<Rightarrow> bool" where
  "truthyStr None = False"
| "truthyStr (Some s) = (s \<noteq> [])"

text \<open>
  \<^verbatim>\<open>
  async function _set(key, value) {
    await chrome.storage.local.set({ [key]: value });
    try { chrome.runtime.sendMessage({ type: 'GPM_STORAGE_UPDATED' }); } catch (_) {}
  }
  async function saveProjects(projects) { await _set('gpm_projects', projects); }
  async function saveChatMap(map) { await _set('gpm_chatMap', map); }
  \<close>
\<close>

definition saveProjects :: "project list \<Rightarrow> 'a store_scheme \<Rightarrow> 'a store_scheme" where
  "saveProjects projects s = s\<lparr>gpm_projects := projects, sent := Suc (sent s)\<rparr>"

definition saveChatMap ::
  "(string \<times> chatMapping) list \<Rightarrow> 'a store_scheme \<Rightarrow> 'a store_scheme" where
  "saveChatMap cm s = s\<lparr>gpm_chatMap := cm, sent := Suc (sent s)\<rparr>"

text \<open>
  The idiom \<^verbatim>\<open>const o = arr.find(pred); if (o) o.field = ...\<close> changes, in place,
  the first element that satisfies the predicate.
\<close>

fun mutateFound :: "('a \<Rightarrow> bool) \<Rightarrow> ('a \<Rightarrow> 'a) \<Rightarrow> 'a list \<Rightarrow> 'a list" where
  "mutateFound P f [] = []"
| "mutateFound P f (x # xs) = (if P x then f x # xs else x # mutateFound P f xs)"

definition removeChat :: "string \<Rightarrow> project \<Rightarrow> project" where
  "removeChat chatId p = p\<lparr>chatIds := filter (\<lambda>c. c \<noteq> chatId) (chatIds p)\<rparr>"

definition pushChat :: "string \<Rightarrow> project \<Rightarrow> project" where
  "pushChat chatId p =
     (if chatId \<in> set (chatIds p) then p else p\<lparr>chatIds := chatIds p @ [chatId]\<rparr>)"

text \<open>
  The object that \<open>getChatMap\<close> returns is a plain object, whose prototype is
  \<open>Object.prototype\<close>.  A read \<open>chatMap[chatId]\<close> gives the own property \<open>chatId\<close> when
  there is one, and otherwise what the object inherits under that name:
  \<open>Object.prototype\<close> itself for \<open>__proto__\<close>, a built-in function for \<open>constructor\<close>,
  \<open>toString\<close>, \<open>valueOf\<close> and the like, and \<open>undefined\<close> for a name that the prototype
  chain does not have.  All of these names are chat ids for the regular expression of
  the sidebar links and for the drop of a text.

  What is inherited belongs to the page and not to the store.  For a key \<open>k\<close> that is
  no own property of a plain object \<open>o\<close>, the record \<open>realm\<close> gives what the operations
  read of it:
  \<^item> \<open>inheritedTruthy k\<close>: whether \<open>o[k]\<close> is truthy;
  \<^item> \<open>inheritedAlias k\<close>: the value of \<open>o[k]?.alias || ''\<close>;
  \<^item> \<open>inheritedPinned k\<close>: the value of \<open>o[k]?.pinned || false\<close>;
  \<^item> \<open>inheritedToggled k\<close>: the value of \<open>o[k].pinned\<close> after the statement
    \<open>o[k].pinned = !o[k].pinned\<close>, for a truthy \<open>o[k]\<close> (\<open>None\<close> is \<open>undefined\<close>).

  The property \<open>projectId\<close> of an inherited value is \<open>undefined\<close> in every page, since
  no statement of the extension assigns it to a value that it has looked up; so
  \<open>projects.find(p => p.id === o[k].projectId)\<close> finds no project.  The statements
  \<open>chatMap[chatId].alias = ...\<close> and \<open>chatMap[chatId].pinned = ...\<close> on an inherited
  value change the page (what a later call reads through its \<open>realm\<close>), never the own
  properties of the chatMap.
\<close>

record realm =
  inheritedTruthy :: "string \<Rightarrow> bool"
  inheritedAlias :: "string \<Rightarrow> string"
  inheritedPinned :: "string \<Rightarrow> bool"
  inheritedToggled :: "string \<Rightarrow> bool option"

text \<open>
  The assignment \<open>chatMap[chatId] = entry\<close>.  It overwrites the own property
  \<open>chatId\<close>, or creates it: every property that a plain object inherits is a writable
  data property, except \<open>__proto__\<close>, which is an accessor.  For the key \<open>__proto__\<close>
  that is no own property the assignment runs the setter of the accessor: \<open>entry\<close>
  becomes the prototype of the chatMap and no property is created, so the chatMap
  that \<open>saveChatMap\<close> then stores has no entry for the chat.
\<close>

definition assignKey ::
  "string \<Rightarrow> chatMapping \<Rightarrow> (string \<times> chatMapping) list \<Rightarrow> (string \<times> chatMapping) list" where
  "assignKey chatId entry chatMap =
     (if chatId = ''__proto__'' \<and> map_of chatMap chatId = None then chatMap
      else AList.update chatId entry chatMap)"

text \<open>
  \<^verbatim>\<open>
  async function assignChat(chatId, projectId) {
    const chatMap = await getChatMap();
    const projects = await getProjects();
    if (chatMap[chatId]) {
      const oldProj = projects.find(p => p.id === chatMap[chatId].projectId);
      if (oldProj) oldProj.chatIds = oldProj.chatIds.filter(c => c !== chatId);
    }
    chatMap[chatId] = { projectId, alias: chatMap[chatId]?.alias || '',
                        pinned: chatMap[chatId]?.pinned || false };
    const newProj = projects.find(p => p.id === projectId);
    if (newProj && !newProj.chatIds.includes(chatId)) {
      newProj.chatIds.push(chatId);
    }
    await saveProjects(projects);
    await saveChatMap(chatMap);
  }
  \<close>
  When \<open>chatId\<close> is no own property, \<open>chatMap[chatId]\<close> is \<open>undefined\<close> or an inherited
  value without a \<open>projectId\<close>: no project is found and none loses the chat.
\<close>

definition assignChat :: "realm \<Rightarrow> string \<Rightarrow> string \<Rightarrow> 'a store_scheme \<Rightarrow> 'a store_scheme" where
  "assignChat page chatId pid s =
     (let chatMap = gpm_chatMap s;
          projects = gpm_projects s;
          projects1 = (case map_of chatMap chatId of
                         None \<Rightarrow> projects
                       | Some m \<Rightarrow> mutateFound (\<lambda>p. id' p = projectId m) (removeChat chatId) projects);
          entry = \<lparr>projectId = pid,
                   alias' = (case map_of chatMap chatId of
                               None \<Rightarrow> inheritedAlias page chatId | Some m \<Rightarrow> alias' m),
                   pinned = (case map_of chatMap chatId of
                               None \<Rightarrow> inheritedPinned page chatId | Some m \<Rightarrow> pinned m)\<rparr>;
          chatMap1 = assignKey chatId entry chatMap;
          projects2 = mutateFound (\<lambda>p. id' p = pid) (pushChat chatId) projects1
      in saveChatMap chatMap1 (saveProjects projects2 s))"

text \<open>
  \<^verbatim>\<open>
  async function unassignChat(chatId) {
    const chatMap = await getChatMap();
    const projects = await getProjects();
    if (chatMap[chatId]) {
      const proj = projects.find(p => p.id === chatMap[chatId].projectId);
      if (proj) proj.chatIds = proj.chatIds.filter(c => c !== chatId);
      delete chatMap[chatId];
    }
    await saveProjects(projects);
    await saveChatMap(chatMap);
  }
  \<close>
  For a \<open>chatId\<close> that is no own property, both branches of the conditional leave
  \<open>projects\<close> and \<open>chatMap\<close> as they were read: there is no project to find for an
  inherited value, and \<open>delete\<close> removes own properties only.
\<close>

definition unassignChat :: "string \<Rightarrow> 'a store_scheme \<Rightarrow> 'a store_scheme" where
  "unassignChat chatId s =
     (let chatMap = gpm_chatMap s;
          projects = gpm_projects s
      in case map_of chatMap chatId of
           None \<Rightarrow> saveChatMap chatMap (saveProjects projects s)
         | Some m \<Rightarrow>
             saveChatMap (AList.delete chatId chatMap)
               (saveProjects
                  (mutateFound (\<lambda>p. id' p = projectId m) (removeChat chatId) projects) s))"

text \<open>
  \<^verbatim>\<open>
  async function setChatAlias(chatId, alias) {
    const chatMap = await getChatMap();
    if (chatMap[chatId]) {
      chatMap[chatId].alias = alias;
      await saveChatMap(chatMap);
    }
  }
  async function togglePinChat(chatId) {
    const chatMap = await getChatMap();
    if (chatMap[chatId]) {
      chatMap[chatId].pinned = !chatMap[chatId].pinned;
      await saveChatMap(chatMap);
      return chatMap[chatId].pinned;
    }
    return false;
  }
  \<close>
  For a \<open>chatId\<close> that is no own property and reads as a truthy inherited value, the
  assignment goes to that value and the chatMap is saved with the own properties
  that it had.  The result of \<open>togglePinChat\<close> is \<open>None\<close> where the function returns
  \<open>undefined\<close>.
\<close>

definition setChatAlias :: "realm \<Rightarrow> string \<Rightarrow> string \<Rightarrow> 'a store_scheme \<Rightarrow> 'a store_scheme" where
  "setChatAlias page chatId a s =
     (case map_of (gpm_chatMap s) chatId of
        None \<Rightarrow> if inheritedTruthy page chatId then saveChatMap (gpm_chatMap s) s else s
      | Some m \<Rightarrow> saveChatMap (AList.update chatId (m\<lparr>alias' := a\<rparr>) (gpm_chatMap s)) s)"

definition togglePinChat ::
  "realm \<Rightarrow> string \<Rightarrow> 'a store_scheme \<Rightarrow> bool option \<times> 'a store_scheme" where
  "togglePinChat page chatId s =
     (case map_of (gpm_chatMap s) chatId of
        None \<Rightarrow>
          if inheritedTruthy page chatId
          then (inheritedToggled page chatId, saveChatMap (gpm_chatMap s) s)
          else (Some False, s)
      | Some m \<Rightarrow>
          (Some (\<not> pinned m),
           saveChatMap (AList.update chatId (m\<lparr>pinned := \<not> pinned m\<rparr>) (gpm_chatMap s)) s))"

text \<open>
  \<open>uid()\<close> reads the clock and the random number generator; the identifier it
  returns is the argument \<open>newId\<close>.  An omitted \<open>icon\<close> or \<open>color\<close> is \<open>None\<close> and takes
  the default of the parameter list (the folder emoji, as its UTF-8 bytes).
  \<^verbatim>\<open>
  async function createProject({ name, icon = <folder>, color = '#8ab4f8', parentId = null }) {
    const projects = await getProjects();
    const id = uid();
    const project = { id, name, icon, color, parentId, children: [], chatIds: [], collapsed: false };
    projects.push(project);
    if (parentId) {
      const parent = projects.find(p => p.id === parentId);
      if (parent) parent.children.push(id);
    }
    await saveProjects(projects);
    return project;
  }
  \<close>
  The object \<open>project\<close> that is returned is the one pushed to the end of the array.
\<close>

definition defaultIcon :: string where
  "defaultIcon = [CHR 0xF0, CHR 0x9F, CHR 0x93, CHR 0x81]"

definition newProject :: "string \<Rightarrow> string \<Rightarrow> string option \<Rightarrow> string option \<Rightarrow> string option \<Rightarrow> project" where
  "newProject newId nm ic col par =
     \<lparr>id' = newId, name = nm,
      icon = (case ic of None \<Rightarrow> defaultIcon | Some i \<Rightarrow> i),
      color = (case col of None \<Rightarrow> ''#8ab4f8'' | Some c \<Rightarrow> c),
      parentId = par, children = [], chatIds = [], collapsed = False, order = None\<rparr>"

definition pushChild :: "string \<Rightarrow> project \<Rightarrow> project" where
  "pushChild cid p = p\<lparr>children := children p @ [cid]\<rparr>"

definition createProject ::
  "string \<Rightarrow> string \<Rightarrow> string option \<Rightarrow> string option \<Rightarrow> string option \<Rightarrow> 'a store_scheme \<Rightarrow>
     project \<times> 'a store_scheme" where
  "createProject newId nm ic col par s =
     (let projects = gpm_projects s @ [newProject newId nm ic col par];
          projects1 = (if truthyStr par
                       then mutateFound (\<lambda>p. id' p = the par) (pushChild newId) projects
                       else projects)
      in (last projects1, saveProjects projects1 s))"

text \<open>
  \<^verbatim>\<open>
  function getRootProjects(projects) { return projects.filter(p => !p.parentId); }
  function getChildren(projects, parentId) { return projects.filter(p => p.parentId === parentId); }
  \<close>
\<close>

definition getRootProjects :: "project list \<Rightarrow> project list" where
  "getRootProjects projects = filter (\<lambda>p. \<not> truthyStr (parentId p)) projects"

definition getChildren :: "project list \<Rightarrow> string option \<Rightarrow> project list" where
  "getChildren projects par = filter (\<lambda>p. parentId p = par) projects"

text \<open>
  \<^verbatim>\<open>
  function collectDescendants(pid) {
    const node = projects.find(p => p.id === pid);
    if (!node) return [pid];
    let ids = [pid];
    for (const childId of node.children) {
      ids = ids.concat(collectDescendants(childId));
    }
    return ids;
  }
  \<close>
  The recursion follows the \<open>children\<close> lists and does not end when they form a
  cycle: the call stack overflows (a \<open>RangeError\<close>).  The first argument is the
  number of stack frames that are left; \<open>None\<close> is the overflow.
\<close>

fun collectDescendants :: "nat \<Rightarrow> project list \<Rightarrow> string \<Rightarrow> string list option"
  and collectChildren :: "nat \<Rightarrow> project list \<Rightarrow> string list \<Rightarrow> string list \<Rightarrow> string list option"
where
  "collectDescendants 0 projects pid = None"
| "collectDescendants (Suc n) projects pid =
     (case find (\<lambda>p. id' p = pid) projects of
        None \<Rightarrow> Some [pid]
      | Some node \<Rightarrow> collectChildren n projects (children node) [pid])"
| "collectChildren n projects [] ids = Some ids"
| "collectChildren n projects (childId # rest) ids =
     (case collectDescendants n projects childId of
        None \<Rightarrow> None
      | Some ds \<Rightarrow> collectChildren n projects rest (ids @ ds))"

text \<open>
  \<^verbatim>\<open>
  async function deleteProject(id) {
    let projects = await getProjects();
    const chatMap = await getChatMap();
    ...
    const toDelete = new Set(collectDescendants(id));
    for (const [chatId, mapping] of Object.entries(chatMap)) {
      if (toDelete.has(mapping.projectId)) {
        delete chatMap[chatId];
      }
    }
    const target = projects.find(p => p.id === id);
    if (target?.parentId) {
      const parent = projects.find(p => p.id === target.parentId);
      if (parent) parent.children = parent.children.filter(c => c !== id);
    }
    projects = projects.filter(p => !toDelete.has(p.id));
    await saveProjects(projects);
    await saveChatMap(chatMap);
  }
  \<close>
  \<open>Object.entries\<close> is evaluated once, before the loop deletes anything.
\<close>

definition dropMappings :: "string list \<Rightarrow> (string \<times> chatMapping) list \<Rightarrow> (string \<times> chatMapping) list" where
  "dropMappings toDelete chatMap =
     fold (\<lambda>(chatId, mapping) cm.
             if projectId mapping \<in> set toDelete then AList.delete chatId cm else cm)
          chatMap chatMap"

definition removeChild :: "string \<Rightarrow> project \<Rightarrow> project" where
  "removeChild cid p = p\<lparr>children := filter (\<lambda>c. c \<noteq> cid) (children p)\<rparr>"

definition detachFromParent :: "string \<Rightarrow> project list \<Rightarrow> project list" where
  "detachFromParent pid projects =
     (case find (\<lambda>p. id' p = pid) projects of
        None \<Rightarrow> projects
      | Some target \<Rightarrow>
          if truthyStr (parentId target)
          then mutateFound (\<lambda>p. id' p = the (parentId target)) (removeChild pid) projects
          else projects)"

definition deleteProject :: "nat \<Rightarrow> string \<Rightarrow> 'a store_scheme \<Rightarrow> 'a store_scheme option" where
  "deleteProject stack pid s =
     (case collectDescendants stack (gpm_projects s) pid of
        None \<Rightarrow> None
      | Some toDelete \<Rightarrow>
          Some (saveChatMap (dropMappings toDelete (gpm_chatMap s))
                  (saveProjects
                     (filter (\<lambda>p. id' p \<notin> set toDelete) (detachFromParent pid (gpm_projects s)))
                     s)))"

text \<open>
  \<^verbatim>\<open>
  async function updateProject(id, updates) {
    const projects = await getProjects();
    const idx = projects.findIndex(p => p.id === id);
    if (idx === -1) return null;
    Object.assign(projects[idx], updates);
    await saveProjects(projects);
    return projects[idx];
  }
  \<close>
  \<open>updates\<close> is an object with some of the properties of a project: a property that
  is absent is \<open>None\<close>, a property that is present carries the new value of the field
  (the callers pass \<open>{ collapsed }\<close> and \<open>{ name, icon, color }\<close>).  \<open>Object.assign\<close> copies
  every property that is present.
\<close>

record projectUpdates =
  set_id :: "string option"
  set_name :: "string option"
  set_icon :: "string option"
  set_color :: "string option"
  set_parentId :: "string option option"
  set_children :: "string list option"
  set_chatIds :: "string list option"
  set_collapsed :: "bool option"
  set_order :: "int option option"

definition objectAssign :: "projectUpdates \<Rightarrow> project \<Rightarrow> project" where
  "objectAssign updates p =
     \<lparr>id' = (case set_id updates of None \<Rightarrow> id' p | Some v \<Rightarrow> v),
      name = (case set_name updates of None \<Rightarrow> name p | Some v \<Rightarrow> v),
      icon = (case set_icon updates of None \<Rightarrow> icon p | Some v \<Rightarrow> v),
      color = (case set_color updates of None \<Rightarrow> color p | Some v \<Rightarrow> v),
      parentId = (case set_parentId updates of None \<Rightarrow> parentId p | Some v \<Rightarrow> v),
      children = (case set_children updates of None \<Rightarrow> children p | Some v \<Rightarrow> v),
      chatIds = (case set_chatIds updates of None \<Rightarrow> chatIds p | Some v \<Rightarrow> v),
      collapsed = (case set_collapsed updates of None \<Rightarrow> collapsed p | Some v \<Rightarrow> v),
      order = (case set_order updates of None \<Rightarrow> order p | Some v \<Rightarrow> v)\<rparr>"

definition updateProject ::
  "string \<Rightarrow> projectUpdates \<Rightarrow> 'a store_scheme \<Rightarrow> project option \<times> 'a store_scheme" where
  "updateProject pid updates s =
     (case find (\<lambda>p. id' p = pid) (gpm_projects s) of
        None \<Rightarrow> (None, s)
      | Some target \<Rightarrow>
          (Some (objectAssign updates target),
           saveProjects (mutateFound (\<lambda>p. id' p = pid) (objectAssign updates) (gpm_projects s)) s))"

section \<open>Quick prompts, settings, import and reset (storage.js)\<close>

text \<open>
  The other two collections of the schema:
  \<^verbatim>\<open>
  gpm_quickPrompts: Array<{ id, title, content, category }>
  gpm_settings: { lang, theme }
  \<close>
  The field \<open>id\<close> of a quick prompt is called \<open>promptId\<close>.  A store with all four
  collections extends the record \<open>store\<close>; a key that was never written reads as
  \<open>[]\<close> or as \<open>{ lang: 'en', theme: 'auto' }\<close> (\<open>getQuickPrompts\<close>, \<open>getSettings\<close>).
\<close>

record quickPrompt =
  promptId :: string
  title :: string
  content :: string
  category :: string

record settings =
  lang :: string
  theme :: string

record fullStore = store +
  gpm_quickPrompts :: "quickPrompt list"
  gpm_settings :: settings

text \<open>
  \<^verbatim>\<open>
  async function saveQuickPrompt({ title, content, category = 'General' }) {
    const prompts = await getQuickPrompts();
    prompts.push({ id: uid(), title, content, category });
    await _set('gpm_quickPrompts', prompts);
  }
  async function deleteQuickPrompt(id) {
    let prompts = await getQuickPrompts();
    prompts = prompts.filter(p => p.id !== id);
    await _set('gpm_quickPrompts', prompts);
  }
  async function updateQuickPrompt(id, updates) {
    const prompts = await getQuickPrompts();
    const idx = prompts.findIndex(p => p.id === id);
    if (idx !== -1) Object.assign(prompts[idx], updates);
    await _set('gpm_quickPrompts', prompts);
  }
  async function saveSettings(settings) { await _set('gpm_settings', settings); }
  \<close>
  As in \<open>createProject\<close>, the result of \<open>uid()\<close> is the argument \<open>newId\<close>, and an omitted
  \<open>category\<close> is \<open>None\<close>.  \<open>setQuickPrompts\<close> is \<open>_set('gpm_quickPrompts', prompts)\<close>.
\<close>

definition setQuickPrompts :: "quickPrompt list \<Rightarrow> 'a fullStore_scheme \<Rightarrow> 'a fullStore_scheme" where
  "setQuickPrompts prompts s = s\<lparr>gpm_quickPrompts := prompts, sent := Suc (sent s)\<rparr>"

definition saveQuickPrompt ::
  "string \<Rightarrow> string \<Rightarrow> string \<Rightarrow> string option \<Rightarrow> 'a fullStore_scheme \<Rightarrow> 'a fullStore_scheme" where
  "saveQuickPrompt newId ttl cnt cat s =
     setQuickPrompts
       (gpm_quickPrompts s @
          [\<lparr>promptId = newId, title = ttl, content = cnt,
            category = (case cat of None \<Rightarrow> ''General'' | Some c \<Rightarrow> c)\<rparr>]) s"

definition deleteQuickPrompt :: "string \<Rightarrow> 'a fullStore_scheme \<Rightarrow> 'a fullStore_scheme" where
  "deleteQuickPrompt pid s =
     setQuickPrompts (filter (\<lambda>p. promptId p \<noteq> pid) (gpm_quickPrompts s)) s"

record promptUpdates =
  set_promptId :: "string option"
  set_title :: "string option"
  set_content :: "string option"
  set_category :: "string option"

definition promptAssign :: "promptUpdates \<Rightarrow> quickPrompt \<Rightarrow> quickPrompt" where
  "promptAssign updates p =
     \<lparr>promptId = (case set_promptId updates of None \<Rightarrow> promptId p | Some v \<Rightarrow> v),
      title = (case set_title updates of None \<Rightarrow> title p | Some v \<Rightarrow> v),
      content = (case set_content updates of None \<Rightarrow> content p | Some v \<Rightarrow> v),
      category = (case set_category updates of None \<Rightarrow> category p | Some v \<Rightarrow> v)\<rparr>"

definition updateQuickPrompt ::
  "string \<Rightarrow> promptUpdates \<Rightarrow> 'a fullStore_scheme \<Rightarrow> 'a fullStore_scheme" where
  "updateQuickPrompt pid updates s =
     setQuickPrompts
       (mutateFound (\<lambda>p. promptId p = pid) (promptAssign updates) (gpm_quickPrompts s)) s"

definition saveSettings :: "settings \<Rightarrow> 'a fullStore_scheme \<Rightarrow> 'a fullStore_scheme" where
  "saveSettings v s = s\<lparr>gpm_settings := v, sent := Suc (sent s)\<rparr>"

text \<open>
  \<open>importAll\<close> and \<open>clearAll\<close> on this store, for a document whose four values have
  the shape of the schema where they are truthy.  A key of the document is \<open>None\<close>
  when it is absent or bound to a falsy value; arrays and objects are truthy, the
  empty ones too.  (The section on \<open>chrome.storage.local\<close> below has the two
  functions for values of any shape.)
  \<^verbatim>\<open>
  async function importAll(jsonString) {
    const data = JSON.parse(jsonString);
    if (data.gpm_projects) await _set('gpm_projects', data.gpm_projects);
    if (data.gpm_chatMap) await _set('gpm_chatMap', data.gpm_chatMap);
    if (data.gpm_quickPrompts) await _set('gpm_quickPrompts', data.gpm_quickPrompts);
    if (data.gpm_settings) await _set('gpm_settings', data.gpm_settings);
  }
  async function clearAll() {
    await chrome.storage.local.set({
      gpm_projects: [], gpm_chatMap: {}, gpm_quickPrompts: [],
      gpm_settings: { lang: 'en', theme: 'auto' }, gpm_pinnedChats: {} });
  }
  \<close>
  \<open>clearAll\<close> does not go through \<open>_set\<close>: \<open>sent\<close> stays as it is.  The key
  \<open>gpm_pinnedChats\<close> is read by nothing and is no field of the store.
\<close>

record importDocument =
  doc_projects :: "project list option"
  doc_chatMap :: "(string \<times> chatMapping) list option"
  doc_quickPrompts :: "quickPrompt list option"
  doc_settings :: "settings option"

definition importAllTyped :: "importDocument \<Rightarrow> 'a fullStore_scheme \<Rightarrow> 'a fullStore_scheme" where
  "importAllTyped data s =
     (let s1 = (case doc_projects data of None \<Rightarrow> s | Some v \<Rightarrow> saveProjects v s);
          s2 = (case doc_chatMap data of None \<Rightarrow> s1 | Some v \<Rightarrow> saveChatMap v s1);
          s3 = (case doc_quickPrompts data of None \<Rightarrow> s2 | Some v \<Rightarrow> setQuickPrompts v s2)
      in case doc_settings data of None \<Rightarrow> s3 | Some v \<Rightarrow> saveSettings v s3)"

definition clearAllTyped :: "'a fullStore_scheme \<Rightarrow> 'a fullStore_scheme" where
  "clearAllTyped s =
     s\<lparr>gpm_projects := [], gpm_chatMap := [], gpm_quickPrompts := [],
       gpm_settings := \<lparr>lang = ''en'', theme = ''auto''\<rparr>\<rparr>"

section \<open>The rendered tree\<close>

text \<open>
  \<open>gpmRenderTree\<close> makes a row for every root project, and \<open>gpmCreateProjectRow\<close>
  makes, below the row of a project, a row for every project whose \<open>parentId\<close> is its
  id:
  \<^verbatim>\<open>
  const rootProjects = GPMStorage.getRootProjects(projects);
  ...
  sortedRootProjects.forEach(project => {
    const row = gpmCreateProjectRow(project, projects, chatMap); ... });

  function gpmCreateProjectRow(project, allProjects, chatMap) {
    const children = allProjects.filter(p => p.parentId === project.id);
    ...
    children.forEach(child => {
      const childRow = gpmCreateProjectRow(child, allProjects, chatMap); ... });
  \<close>
  The projects that get a row are those reachable in this way.
\<close>

inductive_set rendered :: "project list \<Rightarrow> project set" for projects :: "project list" where
  root: "p \<in> set (getRootProjects projects) \<Longrightarrow> p \<in> rendered projects"
| child: "q \<in> rendered projects \<Longrightarrow> p \<in> set (getChildren projects (Some (id' q))) \<Longrightarrow>
            p \<in> rendered projects"

section \<open>Dropping a project on a project row (content.js)\<close>

text \<open>
  The \<open>drop\<close> listener that \<open>gpmCreateProjectRow(project, allProjects, chatMap)\<close>
  installs on its row.  \<open>project\<close> and \<open>allProjects\<close> are the objects that
  \<open>gpmRenderTree\<close> read from the store when it built the row; \<open>droppedProjectId\<close> is
  the payload \<open>text/gpm-project-id\<close> of the drag.
  \<^verbatim>\<open>
  const isDescendant = (parentId, childId) => {
    const p = allProjects.find(pr => pr.id === childId);
    if (!p) return false;
    if (p.parentId === parentId) return true;
    if (p.parentId) return isDescendant(parentId, p.parentId);
    return false;
  };
  \<close>
  The walk goes up the \<open>parentId\<close> links and does not end on a cycle of them; as for
  \<open>collectDescendants\<close>, the first argument bounds the call stack.
\<close>

fun isDescendant :: "nat \<Rightarrow> project list \<Rightarrow> string \<Rightarrow> string \<Rightarrow> bool option" where
  "isDescendant 0 allProjects par childId = None"
| "isDescendant (Suc n) allProjects par childId =
     (case find (\<lambda>pr. id' pr = childId) allProjects of
        None \<Rightarrow> Some False
      | Some p \<Rightarrow>
          if parentId p = Some par then Some True
          else if truthyStr (parentId p) then isDescendant n allProjects par (the (parentId p))
          else Some False)"

text \<open>
  The branch of the listener for a project payload and the drop zone \<open>center\<close>:
  \<^verbatim>\<open>
  const droppedProjectId = e.dataTransfer.getData('text/gpm-project-id');
  if (droppedProjectId && droppedProjectId !== project.id) {
    ...
    if (isDescendant(droppedProjectId, project.id)) {
      console.warn('[GPM] Cannot move project into its own descendant');
      return;
    }
    const projects = await GPMStorage.getProjects();
    const droppedProject = projects.find(p => p.id === droppedProjectId);
    if (!droppedProject) return;
    if (zone === 'center') {
      if (droppedProject.parentId) {
        const oldParent = projects.find(p => p.id === droppedProject.parentId);
        if (oldParent) oldParent.children = oldParent.children.filter(c => c !== droppedProjectId);
      }
      droppedProject.parentId = project.id;
      if (!project.children) project.children = [];
      if (!project.children.includes(droppedProjectId)) project.children.push(droppedProjectId);
      await GPMStorage.saveProjects(projects);
    } else { ... }
    gpmRenderTree();
    return;
  }
  \<close>
  \<open>GPMStorage.getProjects()\<close> returns what \<open>chrome.storage.local.get\<close> deserialises for
  this call, so the elements of \<open>projects\<close> are objects of their own: \<open>project\<close>, the
  object of the row, is none of them.  The outcome \<open>Nested\<close> carries the store after
  \<open>saveProjects(projects)\<close> and the object \<open>project\<close> after the push.
\<close>

datatype dropOutcome =
    NoProjectDrop
  | StackOverflow
  | Rejected
  | DroppedMissing
  | Nested store project

definition dropProjectCenter ::
  "nat \<Rightarrow> project \<Rightarrow> project list \<Rightarrow> string \<Rightarrow> store \<Rightarrow> dropOutcome" where
  "dropProjectCenter stack project allProjects droppedProjectId s =
     (if droppedProjectId \<noteq> [] \<and> droppedProjectId \<noteq> id' project then
        (case isDescendant stack allProjects droppedProjectId (id' project) of
           None \<Rightarrow> StackOverflow
         | Some True \<Rightarrow> Rejected
         | Some False \<Rightarrow>
             (let projects = gpm_projects s in
              case find (\<lambda>p. id' p = droppedProjectId) projects of
                None \<Rightarrow> DroppedMissing
              | Some droppedProject \<Rightarrow>
                  (let projects1 =
                         (if truthyStr (parentId droppedProject)
                          then mutateFound (\<lambda>p. id' p = the (parentId droppedProject))
                                 (removeChild droppedProjectId) projects
                          else projects);
                       projects2 = mutateFound (\<lambda>p. id' p = droppedProjectId)
                                     (\<lambda>p. p\<lparr>parentId := Some (id' project)\<rparr>) projects1;
                       project1 = (if droppedProjectId \<in> set (children project) then project
                                   else pushChild droppedProjectId project)
                   in Nested (saveProjects projects2 s) project1)))
      else NoProjectDrop)"

section \<open>Reconciliation in gpmRenderTree (content.js)\<close>

text \<open>
  A link of the host sidebar, as \<open>document.querySelectorAll('a[href^="/app/"]')\<close>
  returns it: \<open>href\<close> is \<open>link.getAttribute('href') || ''\<close> and \<open>linkText\<close> is
  \<open>(link.textContent || '').trim()\<close>.
\<close>

record sidebarLink =
  href :: string
  linkText :: string

text \<open>The regular expression \<^verbatim>\<open>/^\/app\/([a-zA-Z0-9_-]+)/\<close>, and its first group.\<close>

definition isIdChar :: "char \<Rightarrow> bool" where
  "isIdChar c =
     (let n = (of_char c :: nat)
      in (97 \<le> n \<and> n \<le> 122) \<or> (65 \<le> n \<and> n \<le> 90) \<or> (48 \<le> n \<and> n \<le> 57)
         \<or> c = CHR ''_'' \<or> c = CHR ''-'')"

definition matchAppId :: "string \<Rightarrow> string option" where
  "matchAppId h =
     (if take 5 h = ''/app/'' \<and> takeWhile isIdChar (drop 5 h) \<noteq> []
      then Some (takeWhile isIdChar (drop 5 h)) else None)"

text \<open>
  \<^verbatim>\<open>
  let aliasUpdated = false;
  const sidebarLinks = document.querySelectorAll('a[href^="/app/"]');
  const activeChatIds = new Set();
  for (const link of sidebarLinks) {
    const href = link.getAttribute('href') || '';
    const m = href.match(/^\/app\/([a-zA-Z0-9_-]+)/);
    if (!m) continue;
    const cid = m[1];
    activeChatIds.add(cid);
    if (chatMap[cid] && !chatMap[cid].alias) {
      const title = (link.textContent || '').trim();
      if (title && title !== cid) {
        chatMap[cid].alias = title;
        aliasUpdated = true;
      }
    }
  }
  \<close>
  The state of the loop is \<open>(chatMap, activeChatIds, aliasUpdated)\<close>; the set
  \<open>activeChatIds\<close> is the list of its elements.
\<close>

type_synonym backfillState = "(string \<times> chatMapping) list \<times> string list \<times> bool"

definition backfillLink :: "sidebarLink \<Rightarrow> backfillState \<Rightarrow> backfillState" where
  "backfillLink link st =
     (case st of (chatMap, activeChatIds, aliasUpdated) \<Rightarrow>
        (case matchAppId (href link) of
           None \<Rightarrow> st
         | Some cid \<Rightarrow>
             (let active1 = List.insert cid activeChatIds in
              case map_of chatMap cid of
                None \<Rightarrow> (chatMap, active1, aliasUpdated)
              | Some m \<Rightarrow>
                  if alias' m = [] \<and> linkText link \<noteq> [] \<and> linkText link \<noteq> cid
                  then (AList.update cid (m\<lparr>alias' := linkText link\<rparr>) chatMap, active1, True)
                  else (chatMap, active1, aliasUpdated))))"

definition aliasBackfill :: "sidebarLink list \<Rightarrow> (string \<times> chatMapping) list \<Rightarrow> backfillState" where
  "aliasBackfill sidebarLinks chatMap = fold backfillLink sidebarLinks (chatMap, [], False)"

text \<open>
  \<^verbatim>\<open>
  if (activeChatIds.size > 0) {
    let cleanupNeeded = false;
    for (const [cid, mapping] of Object.entries(chatMap)) {
      if (!activeChatIds.has(cid)) {
        console.log('[GPM] Auto-removing deleted chat:', cid, mapping.alias);
        const proj = projects.find(p => p.id === mapping.projectId);
        if (proj) {
          proj.chatIds = (proj.chatIds || []).filter(id => id !== cid);
        }
        delete chatMap[cid];
        cleanupNeeded = true;
      }
    }
    if (cleanupNeeded) {
      await GPMStorage.saveProjects(projects);
      await GPMStorage.saveChatMap(chatMap);
      aliasUpdated = false; // already saved
    }
  }
  if (aliasUpdated) {
    await GPMStorage.saveChatMap(chatMap);
  }
  \<close>
  The state of the cleanup loop is \<open>(projects, chatMap, cleanupNeeded)\<close>.
\<close>

type_synonym cleanupState = "project list \<times> (string \<times> chatMapping) list \<times> bool"

definition cleanupEntry :: "string list \<Rightarrow> string \<times> chatMapping \<Rightarrow> cleanupState \<Rightarrow> cleanupState" where
  "cleanupEntry activeChatIds entry st =
     (case st of (projects, chatMap, cleanupNeeded) \<Rightarrow>
        (case entry of (cid, mapping) \<Rightarrow>
           if cid \<notin> set activeChatIds
           then (mutateFound (\<lambda>p. id' p = projectId mapping) (removeChat cid) projects,
                 AList.delete cid chatMap, True)
           else st))"

definition orphanCleanup ::
  "string list \<Rightarrow> project list \<Rightarrow> (string \<times> chatMapping) list \<Rightarrow> cleanupState" where
  "orphanCleanup activeChatIds projects chatMap =
     fold (cleanupEntry activeChatIds) chatMap (projects, chatMap, False)"

text \<open>
  What a render pass does to the store.  \<open>container\<close> tells whether \<open>gpmContainer\<close>
  is set (\<open>if (!gpmContainer) return;\<close>).
\<close>

definition activeChatIdsOf :: "sidebarLink list \<Rightarrow> store \<Rightarrow> string list" where
  "activeChatIdsOf sidebarLinks s = fst (snd (aliasBackfill sidebarLinks (gpm_chatMap s)))"

definition gpmRenderTree :: "bool \<Rightarrow> sidebarLink list \<Rightarrow> store \<Rightarrow> store" where
  "gpmRenderTree container sidebarLinks s =
     (if \<not> container then s
      else
        (case aliasBackfill sidebarLinks (gpm_chatMap s) of
           (chatMap, activeChatIds, aliasUpdated) \<Rightarrow>
             if activeChatIds \<noteq> [] then
               (case orphanCleanup activeChatIds (gpm_projects s) chatMap of
                  (projects1, chatMap1, cleanupNeeded) \<Rightarrow>
                    if cleanupNeeded then saveChatMap chatMap1 (saveProjects projects1 s)
                    else if aliasUpdated then saveChatMap chatMap1 s
                    else s)
             else if aliasUpdated then saveChatMap chatMap s
             else s))"

section \<open>The pending assignment and the new chat observer (content.js)\<close>

text \<open>
  The module state that \<open>gpmObserveNewChats\<close> works on: its local \<open>lastChatId\<close> and
  the global \<open>gpmPendingChatAssignment\<close>, which is \<open>null\<close> or
  \<open>{ projectId, _ts }\<close>.  Times are the milliseconds of \<open>Date.now()\<close>.
\<close>

record observer =
  lastChatId :: "string option"
  gpmPendingChatAssignment :: "(string \<times> int) option"

text \<open>
  What a tick asks for: \<open>GPMStorage.assignChat(id, projectId)\<close> followed by a render,
  or a render alone.
\<close>

datatype effect = AssignChat string string | Render

text \<open>
  The context menu entry "new chat in project":
  \<^verbatim>\<open>
  gpmPendingChatAssignment = { projectId: project.id, _ts: Date.now() };
  \<close>
\<close>

definition newChatInProject :: "string \<Rightarrow> int \<Rightarrow> observer \<Rightarrow> observer" where
  "newChatInProject pid now obs = obs\<lparr>gpmPendingChatAssignment := Some (pid, now)\<rparr>"

text \<open>
  The callback of the 500 ms interval; \<open>cid\<close> is \<open>gpmGetCurrentChatId()\<close>.
  \<^verbatim>\<open>
  if (id && id !== lastChatId) {
    lastChatId = id;
    if (gpmPendingChatAssignment) {
      const { projectId } = gpmPendingChatAssignment;
      gpmPendingChatAssignment = null;
      GPMStorage.assignChat(id, projectId).then(() => { gpmRenderTree(); });
    } else {
      gpmRenderTree();
    }
  }
  if (!id && lastChatId) {
    lastChatId = null;
  }
  \<close>
  The two conditionals exclude each other: after the first, \<open>lastChatId\<close> is the
  truthy \<open>id\<close>.
\<close>

definition pollTick :: "string option \<Rightarrow> observer \<Rightarrow> observer \<times> effect list" where
  "pollTick cid obs =
     (if truthyStr cid \<and> cid \<noteq> lastChatId obs then
        (case gpmPendingChatAssignment obs of
           Some (pid, ts) \<Rightarrow>
             (obs\<lparr>lastChatId := cid, gpmPendingChatAssignment := None\<rparr>, [AssignChat (the cid) pid])
         | None \<Rightarrow> (obs\<lparr>lastChatId := cid\<rparr>, [Render]))
      else if \<not> truthyStr cid \<and> truthyStr (lastChatId obs) then (obs\<lparr>lastChatId := None\<rparr>, [])
      else (obs, []))"

text \<open>
  The callback of the 5000 ms interval; \<open>now\<close> is \<open>Date.now()\<close>.
  \<^verbatim>\<open>
  if (gpmPendingChatAssignment && gpmPendingChatAssignment._ts) {
    if (Date.now() - gpmPendingChatAssignment._ts > 120000) {
      console.warn('[GPM] Pending assignment timed out');
      gpmPendingChatAssignment = null;
    }
  }
  \<close>
\<close>

definition sweepTick :: "int \<Rightarrow> observer \<Rightarrow> observer" where
  "sweepTick now obs =
     (case gpmPendingChatAssignment obs of
        None \<Rightarrow> obs
      | Some (pid, ts) \<Rightarrow>
          if ts \<noteq> 0 \<and> now - ts > 120000 then obs\<lparr>gpmPendingChatAssignment := None\<rparr> else obs)"

text \<open>
  The events of a session, each with the time at which it happens, and the effects
  that a sequence of events asks for, in order.
\<close>

datatype event =
    NewChatInProject string int
  | Poll int "string option"
  | Sweep int

fun isNewChatInProject :: "event \<Rightarrow> bool" where
  "isNewChatInProject (NewChatInProject pid now) = True"
| "isNewChatInProject (Poll now cid) = False"
| "isNewChatInProject (Sweep now) = False"

fun handle :: "event \<Rightarrow> observer \<Rightarrow> observer \<times> effect list" where
  "handle (NewChatInProject pid now) obs = (newChatInProject pid now obs, [])"
| "handle (Poll now cid) obs = pollTick cid obs"
| "handle (Sweep now) obs = (sweepTick now obs, [])"

fun run :: "event list \<Rightarrow> observer \<Rightarrow> observer \<times> effect list" where
  "run [] obs = (obs, [])"
| "run (e # es) obs =
     (case handle e obs of (obs1, effs) \<Rightarrow>
        (case run es obs1 of (obs2, effs2) \<Rightarrow> (obs2, effs @ effs2)))"

fun isAssignChat :: "effect \<Rightarrow> bool" where
  "isAssignChat (AssignChat cid pid) = True"
| "isAssignChat Render = False"

text \<open>The observer when the page has loaded on the home page.\<close>

definition initialObserver :: observer where
  "initialObserver = \<lparr>lastChatId = None, gpmPendingChatAssignment = None\<rparr>"

section \<open>chrome.storage.local, export and import (storage.js)\<close>

text \<open>
  \<open>exportAll\<close>, \<open>importAll\<close> and \<open>clearAll\<close> move whole values between the storage
  and a JSON document, whatever their shape, so here the storage holds JavaScript
  values as JSON knows them.  A number is its value.  An object is the list of its
  properties, each key once.
\<close>

datatype jsval =
    JNull
  | JBool bool
  | JNum rat
  | JStr string
  | JArr "jsval list"
  | JObj "(string \<times> jsval) list"

text \<open>
  \<open>local\<close> is \<open>chrome.storage.local\<close>, \<open>sentMessages\<close> counts the
  \<open>GPM_STORAGE_UPDATED\<close> messages handed to \<open>chrome.runtime.sendMessage\<close>.
\<close>

record chromeStorage =
  local :: "string \<rightharpoonup> jsval"
  sentMessages :: nat

text \<open>
  JavaScript truthiness; \<open>None\<close> is \<open>undefined\<close>.  Falsy are \<open>undefined\<close>, \<open>null\<close>,
  \<open>false\<close>, \<open>0\<close> and \<open>''\<close>; every array and every object is truthy.
\<close>

fun truthy :: "jsval option \<Rightarrow> bool" where
  "truthy None = False"
| "truthy (Some JNull) = False"
| "truthy (Some (JBool b)) = b"
| "truthy (Some (JNum n)) = (n \<noteq> 0)"
| "truthy (Some (JStr s)) = (s \<noteq> [])"
| "truthy (Some (JArr xs)) = True"
| "truthy (Some (JObj kvs)) = True"

text \<open>
  \<open>_get\<close> and \<open>_set\<close> of the source (an Isabelle name cannot start with an
  underscore):
  \<^verbatim>\<open>
  async function _get(key) {
    const result = await chrome.storage.local.get(key);
    return result[key];
  }
  async function _set(key, value) {
    await chrome.storage.local.set({ [key]: value });
    try { chrome.runtime.sendMessage({ type: 'GPM_STORAGE_UPDATED' }); } catch (_) {}
  }
  \<close>
\<close>

definition storageGet :: "string \<Rightarrow> chromeStorage \<Rightarrow> jsval option" where
  "storageGet key st = local st key"

definition storageSet :: "string \<Rightarrow> jsval \<Rightarrow> chromeStorage \<Rightarrow> chromeStorage" where
  "storageSet key v st = st\<lparr>local := (local st)(key \<mapsto> v), sentMessages := Suc (sentMessages st)\<rparr>"

text \<open>The operator \<open>a || b\<close> with a defined right operand.\<close>

definition orElse :: "jsval option \<Rightarrow> jsval \<Rightarrow> jsval" where
  "orElse a b = (if truthy a then the a else b)"

text \<open>
  \<^verbatim>\<open>
  async function getProjects() { return (await _get('gpm_projects')) || []; }
  async function getChatMap() { return (await _get('gpm_chatMap')) || {}; }
  async function getQuickPrompts() { return (await _get('gpm_quickPrompts')) || []; }
  async function getSettings() {
    return (await _get('gpm_settings')) || { lang: 'en', theme: 'auto' };
  }
  \<close>
\<close>

definition defaultSettings :: jsval where
  "defaultSettings = JObj [(''lang'', JStr ''en''), (''theme'', JStr ''auto'')]"

definition getProjects :: "chromeStorage \<Rightarrow> jsval" where
  "getProjects st = orElse (storageGet ''gpm_projects'' st) (JArr [])"

definition getChatMap :: "chromeStorage \<Rightarrow> jsval" where
  "getChatMap st = orElse (storageGet ''gpm_chatMap'' st) (JObj [])"

definition getQuickPrompts :: "chromeStorage \<Rightarrow> jsval" where
  "getQuickPrompts st = orElse (storageGet ''gpm_quickPrompts'' st) (JArr [])"

definition getSettings :: "chromeStorage \<Rightarrow> jsval" where
  "getSettings st = orElse (storageGet ''gpm_settings'' st) defaultSettings"

text \<open>
  \<^verbatim>\<open>
  async function exportAll() {
    const [projects, chatMap, quickPrompts, settings] = await Promise.all([
      getProjects(), getChatMap(), getQuickPrompts(), getSettings()
    ]);
    return JSON.stringify({ gpm_projects: projects, gpm_chatMap: chatMap,
      gpm_quickPrompts: quickPrompts, gpm_settings: settings }, null, 2);
  }
  \<close>
  \<open>JSON.stringify\<close> and \<open>JSON.parse\<close> belong to the platform; they are the arguments
  \<open>stringify\<close> and \<open>parse\<close>.  \<open>parse\<close> returns \<open>None\<close> where \<open>JSON.parse\<close> throws.
\<close>

definition exportObject :: "chromeStorage \<Rightarrow> jsval" where
  "exportObject st =
     JObj [(''gpm_projects'', getProjects st), (''gpm_chatMap'', getChatMap st),
           (''gpm_quickPrompts'', getQuickPrompts st), (''gpm_settings'', getSettings st)]"

definition exportAll :: "(jsval \<Rightarrow> string) \<Rightarrow> chromeStorage \<Rightarrow> string" where
  "exportAll stringify st = stringify (exportObject st)"

text \<open>
  \<^verbatim>\<open>
  async function importAll(jsonString) {
    const data = JSON.parse(jsonString);
    if (data.gpm_projects) await _set('gpm_projects', data.gpm_projects);
    if (data.gpm_chatMap) await _set('gpm_chatMap', data.gpm_chatMap);
    if (data.gpm_quickPrompts) await _set('gpm_quickPrompts', data.gpm_quickPrompts);
    if (data.gpm_settings) await _set('gpm_settings', data.gpm_settings);
  }
  \<close>
  Reading a property of \<open>null\<close> throws a \<open>TypeError\<close>.  None of the four names is a
  property of an array, a string, a number or a boolean, so there the read gives
  \<open>undefined\<close>.
\<close>

datatype importError = SyntaxError | TypeError

fun getProp :: "jsval \<Rightarrow> string \<Rightarrow> jsval option" where
  "getProp (JObj kvs) key = map_of kvs key"
| "getProp v key = None"

definition importKey :: "jsval \<Rightarrow> string \<Rightarrow> chromeStorage \<Rightarrow> chromeStorage" where
  "importKey data key st =
     (if truthy (getProp data key) then storageSet key (the (getProp data key)) st else st)"

definition importAll ::
  "(string \<Rightarrow> jsval option) \<Rightarrow> string \<Rightarrow> chromeStorage \<Rightarrow> importError + chromeStorage" where
  "importAll parse jsonString st =
     (case parse jsonString of
        None \<Rightarrow> Inl SyntaxError
      | Some JNull \<Rightarrow> Inl TypeError
      | Some data \<Rightarrow>
          Inr (importKey data ''gpm_settings''
                (importKey data ''gpm_quickPrompts''
                  (importKey data ''gpm_chatMap''
                    (importKey data ''gpm_projects'' st)))))"

definition importKeys :: "string list" where
  "importKeys = [''gpm_projects'', ''gpm_chatMap'', ''gpm_quickPrompts'', ''gpm_settings'']"

text \<open>
  \<^verbatim>\<open>
  async function clearAll() {
    await chrome.storage.local.set({
      gpm_projects: [],
      gpm_chatMap: {},
      gpm_quickPrompts: [],
      gpm_settings: { lang: 'en', theme: 'auto' },
      gpm_pinnedChats: {}
    });
  }
  \<close>
\<close>

definition clearAll :: "chromeStorage \<Rightarrow> chromeStorage" where
  "clearAll st =
     st\<lparr>local := (local st)
           (''gpm_projects'' \<mapsto> JArr [],
            ''gpm_chatMap'' \<mapsto> JObj [],
            ''gpm_quickPrompts'' \<mapsto> JArr [],
            ''gpm_settings'' \<mapsto> defaultSettings,
            ''gpm_pinnedChats'' \<mapsto> JObj [])\<rparr>"

text \<open>The storage of a profile in which nothing was ever written.\<close>

definition emptyStorage :: chromeStorage where
  "emptyStorage = \<lparr>local = Map.empty, sentMessages = 0\<rparr>"

text \<open>
  How \<open>chrome.storage.local\<close> holds the typed store of the four collections: a
  project is the object that \<open>createProject\<close> makes (with the property \<open>order\<close> once the
  root reorder has set it), a mapping the object that \<open>assignChat\<close> makes, a quick
  prompt the object that \<open>saveQuickPrompt\<close> makes; a key that was never written holds
  the empty collection or the default settings.  A document encodes the values that
  it binds.
\<close>

definition encProject :: "project \<Rightarrow> jsval" where
  "encProject p =
     JObj ([(''id'', JStr (id' p)), (''name'', JStr (name p)), (''icon'', JStr (icon p)),
            (''color'', JStr (color p)),
            (''parentId'', (case parentId p of None \<Rightarrow> JNull | Some x \<Rightarrow> JStr x)),
            (''children'', JArr (map JStr (children p))),
            (''chatIds'', JArr (map JStr (chatIds p))),
            (''collapsed'', JBool (collapsed p))]
           @ (case order p of None \<Rightarrow> [] | Some n \<Rightarrow> [(''order'', JNum (of_int n))]))"

definition encMapping :: "chatMapping \<Rightarrow> jsval" where
  "encMapping m =
     JObj [(''projectId'', JStr (projectId m)), (''alias'', JStr (alias' m)),
           (''pinned'', JBool (pinned m))]"

definition encPrompt :: "quickPrompt \<Rightarrow> jsval" where
  "encPrompt q =
     JObj [(''id'', JStr (promptId q)), (''title'', JStr (title q)),
           (''content'', JStr (content q)), (''category'', JStr (category q))]"

definition encSettings :: "settings \<Rightarrow> jsval" where
  "encSettings v = JObj [(''lang'', JStr (lang v)), (''theme'', JStr (theme v))]"

definition encProjects :: "project list \<Rightarrow> jsval" where
  "encProjects ps = JArr (map encProject ps)"

definition encChatMap :: "(string \<times> chatMapping) list \<Rightarrow> jsval" where
  "encChatMap cm = JObj (map (\<lambda>(c, m). (c, encMapping m)) cm)"

definition encPrompts :: "quickPrompt list \<Rightarrow> jsval" where
  "encPrompts qs = JArr (map encPrompt qs)"

definition encDocument :: "importDocument \<Rightarrow> jsval" where
  "encDocument data =
     JObj ((case doc_projects data of None \<Rightarrow> [] | Some v \<Rightarrow> [(''gpm_projects'', encProjects v)])
         @ (case doc_chatMap data of None \<Rightarrow> [] | Some v \<Rightarrow> [(''gpm_chatMap'', encChatMap v)])
         @ (case doc_quickPrompts data of
              None \<Rightarrow> [] | Some v \<Rightarrow> [(''gpm_quickPrompts'', encPrompts v)])
         @ (case doc_settings data of None \<Rightarrow> [] | Some v \<Rightarrow> [(''gpm_settings'', encSettings v)]))"

definition holds :: "chromeStorage \<Rightarrow> 'a fullStore_scheme \<Rightarrow> bool" where
  "holds st s \<longleftrightarrow>
     getProjects st = encProjects (gpm_projects s)
   \<and> getChatMap st = encChatMap (gpm_chatMap s)
   \<and> getQuickPrompts st = encPrompts (gpm_quickPrompts s)
   \<and> getSettings st = encSettings (gpm_settings s)
   \<and> sentMessages st = sent s"

text \<open>
  The parent relation of the \<open>parentId\<close> links that the code follows (the truthy
  ones): the pairs of a project id and the id of its parent.
\<close>

definition parentRel :: "project list \<Rightarrow> (string \<times> string) set" where
  "parentRel projects =
     {(id' q, x) | q x. q \<in> set projects \<and> parentId q = Some x \<and> x \<noteq> []}"

section \<open>The chat assignment invariant\<close>

text \<open>
  The invariant of the data model, for every entry \<open>c \<mapsto> m\<close> of the chatMap: some
  project of the array has the id \<open>projectId m\<close>, its \<open>chatIds\<close> contain \<open>c\<close> exactly
  once, and no other project of the array lists \<open>c\<close>.  Projects are told apart by
  their position in the array.
\<close>

definition chatInvariant :: "'a store_scheme \<Rightarrow> bool" where
  "chatInvariant s \<longleftrightarrow>
     (\<forall>(c, m) \<in> set (gpm_chatMap s). map_of (gpm_chatMap s) c = Some m \<longrightarrow>
        (\<exists>i < length (gpm_projects s).
            id' (gpm_projects s ! i) = projectId m
          \<and> count_list (chatIds (gpm_projects s ! i)) c = 1
          \<and> (\<forall>j < length (gpm_projects s). j \<noteq> i \<longrightarrow> c \<notin> set (chatIds (gpm_projects s ! j)))))"

text \<open>
  What the operations maintain besides: project ids and chatMap keys are unique,
  every mapping names a project that lists the chat, and every chat that a project
  lists is listed once and is mapped to that project.  The last part cannot hold for
  the chat id \<open>__proto__\<close>, for which \<open>assignChat\<close> stores no mapping: a project may list
  it without a mapping.
\<close>

definition listingInvariant :: "'a store_scheme \<Rightarrow> bool" where
  "listingInvariant s \<longleftrightarrow>
     distinct (map id' (gpm_projects s))
   \<and> distinct (map fst (gpm_chatMap s))
   \<and> (\<forall>(c, m) \<in> set (gpm_chatMap s).
         \<exists>P \<in> set (gpm_projects s). id' P = projectId m \<and> c \<in> set (chatIds P))
   \<and> (\<forall>P \<in> set (gpm_projects s).
         distinct (chatIds P)
       \<and> (\<forall>c \<in> set (chatIds P).
             (c = ''__proto__'' \<and> map_of (gpm_chatMap s) c = None)
           \<or> (\<exists>m. map_of (gpm_chatMap s) c = Some m \<and> projectId m = id' P)))"

text \<open>The invariant of the store: that of the data model, and the one above.\<close>

definition storeInvariant :: "'a store_scheme \<Rightarrow> bool" where
  "storeInvariant s \<longleftrightarrow> chatInvariant s \<and> listingInvariant s"

section \<open>Project trees\<close>

text \<open>
  The child relation of the \<open>children\<close> lists, and the descendant closure of a project
  id: the id itself and everything below it.
\<close>

definition childRel :: "project list \<Rightarrow> (string \<times> string) set" where
  "childRel projects = {(c, id' p) | c p. p \<in> set projects \<and> c \<in> set (children p)}"

definition descendants :: "project list \<Rightarrow> string \<Rightarrow> string set" where
  "descendants projects pid = {d. (d, pid) \<in> (childRel projects)\<^sup>*}"

text \<open>
  A project collection that forms a tree: ids are unique and not empty (as those of
  \<open>uid()\<close>), \<open>children\<close> and \<open>parentId\<close> describe the same edges, and there is no
  cycle: \<open>height\<close> decreases from every project to its children.
\<close>

definition treeShaped :: "(string \<Rightarrow> nat) \<Rightarrow> project list \<Rightarrow> bool" where
  "treeShaped height projects \<longleftrightarrow>
     distinct (map id' projects)
   \<and> (\<forall>p \<in> set projects. id' p \<noteq> [])
   \<and> (\<forall>p \<in> set projects. \<forall>c \<in> set (children p).
         \<exists>q \<in> set projects. id' q = c \<and> parentId q = Some (id' p))
   \<and> (\<forall>q \<in> set projects. \<forall>x. parentId q = Some x \<longrightarrow>
         (\<exists>p \<in> set projects. id' p = x \<and> id' q \<in> set (children p)))
   \<and> (\<forall>p \<in> set projects. \<forall>c \<in> set (children p). height c < height (id' p))"

section \<open>Example stores\<close>

text \<open>
  The page as the browser creates it, before anything was assigned to a built-in
  object: the properties that a plain object inherits are those of \<open>Object.prototype\<close>,
  each a function or (\<open>__proto__\<close>) \<open>Object.prototype\<close> itself, so truthy, without
  \<open>alias\<close> and without \<open>pinned\<close>; the toggle makes \<open>pinned\<close> the value \<open>!undefined\<close>.
\<close>

definition objectPrototypeNames :: "string list" where
  "objectPrototypeNames =
     [''constructor'', ''__defineGetter__'', ''__defineSetter__'', ''hasOwnProperty'',
      ''__lookupGetter__'', ''__lookupSetter__'', ''isPrototypeOf'', ''propertyIsEnumerable'',
      ''toString'', ''valueOf'', ''__proto__'', ''toLocaleString'']"

definition pageRealm :: realm where
  "pageRealm =
     \<lparr>inheritedTruthy = (\<lambda>k. k \<in> set objectPrototypeNames),
      inheritedAlias = (\<lambda>k. []),
      inheritedPinned = (\<lambda>k. False),
      inheritedToggled = (\<lambda>k. Some True)\<rparr>"

text \<open>A project record with the given id, parent, children and chats.\<close>

definition mkProject :: "string \<Rightarrow> string option \<Rightarrow> string list \<Rightarrow> string list \<Rightarrow> project" where
  "mkProject i par cs chats =
     \<lparr>id' = i, name = ''Research'', icon = defaultIcon, color = ''#8ab4f8'',
      parentId = par, children = cs, chatIds = chats, collapsed = False, order = None\<rparr>"

definition mkMapping :: "string \<Rightarrow> chatMapping" where
  "mkMapping p = \<lparr>projectId = p, alias' = ''Notes'', pinned = True\<rparr>"

text \<open>
  A store in which chat \<open>c1\<close> is listed first in the \<open>chatIds\<close> of project \<open>p1\<close> and
  has no mapping.
\<close>

definition listedUnmapped :: store where
  "listedUnmapped =
     \<lparr>gpm_projects = [mkProject ''p1'' None [] [''c1'', ''c2'']], gpm_chatMap = [], sent = 0\<rparr>"

text \<open>A store in which \<open>c1\<close> and \<open>c2\<close> are assigned to \<open>p1\<close>, and \<open>p2\<close> is empty.\<close>

definition twoProjects :: store where
  "twoProjects =
     \<lparr>gpm_projects = [mkProject ''p1'' None [] [''c1'', ''c2''], mkProject ''p2'' None [] []],
      gpm_chatMap = [(''c1'', mkMapping ''p1''), (''c2'', mkMapping ''p1'')], sent = 0\<rparr>"

text \<open>The store before anything is written.\<close>

definition emptyStore :: store where
  "emptyStore = \<lparr>gpm_projects = [], gpm_chatMap = [], sent = 0\<rparr>"

text \<open>
  The same two stores with the other two collections: one quick prompt and the
  default settings; nothing.
\<close>

definition library :: fullStore where
  "library =
     \<lparr>gpm_projects = [mkProject ''p1'' None [] [''c1'', ''c2''], mkProject ''p2'' None [] []],
      gpm_chatMap = [(''c1'', mkMapping ''p1''), (''c2'', mkMapping ''p1'')], sent = 0,
      gpm_quickPrompts =
        [\<lparr>promptId = ''q1'', title = ''Summary'', content = ''Summarise this chat.'',
          category = ''General''\<rparr>],
      gpm_settings = \<lparr>lang = ''en'', theme = ''auto''\<rparr>\<rparr>"

definition emptyFullStore :: fullStore where
  "emptyFullStore =
     \<lparr>gpm_projects = [], gpm_chatMap = [], sent = 0, gpm_quickPrompts = [],
      gpm_settings = \<lparr>lang = ''en'', theme = ''auto''\<rparr>\<rparr>"

text \<open>
  A store in which \<open>p1\<close> lists the unmapped chat \<open>c1\<close> and \<open>p2\<close> is empty.
\<close>

definition listedUnmappedTwo :: store where
  "listedUnmappedTwo =
     \<lparr>gpm_projects = [mkProject ''p1'' None [] [''c1'', ''c2''], mkProject ''p2'' None [] []],
      gpm_chatMap = [], sent = 0\<rparr>"

text \<open>
  Import documents: one that binds only \<open>gpm_chatMap\<close>, to a mapping of \<open>c1\<close> to a
  project \<open>ghost\<close>; one that binds \<open>gpm_projects\<close> and \<open>gpm_chatMap\<close> to a project with
  its chat; one that binds only \<open>gpm_settings\<close>.  And the updates \<open>{ chatIds: [] }\<close>.
\<close>

definition danglingDocument :: importDocument where
  "danglingDocument =
     \<lparr>doc_projects = None, doc_chatMap = Some [(''c1'', mkMapping ''ghost'')],
      doc_quickPrompts = None, doc_settings = None\<rparr>"

definition restoreDocument :: importDocument where
  "restoreDocument =
     \<lparr>doc_projects = Some [mkProject ''p5'' None [] [''c5'']],
      doc_chatMap = Some [(''c5'', mkMapping ''p5'')],
      doc_quickPrompts = None, doc_settings = None\<rparr>"

definition settingsDocument :: importDocument where
  "settingsDocument =
     \<lparr>doc_projects = None, doc_chatMap = None, doc_quickPrompts = None,
      doc_settings = Some \<lparr>lang = ''tr'', theme = ''dark''\<rparr>\<rparr>"

definition clearChatIds :: projectUpdates where
  "clearChatIds =
     \<lparr>set_id = None, set_name = None, set_icon = None, set_color = None, set_parentId = None,
      set_children = None, set_chatIds = Some [], set_collapsed = None, set_order = None\<rparr>"

text \<open>The updates \<open>{ collapsed: true }\<close> and \<open>{ id: 'p9' }\<close>.\<close>

definition collapse :: projectUpdates where
  "collapse =
     \<lparr>set_id = None, set_name = None, set_icon = None, set_color = None, set_parentId = None,
      set_children = None, set_chatIds = None, set_collapsed = Some True, set_order = None\<rparr>"

definition renameProject :: projectUpdates where
  "renameProject =
     \<lparr>set_id = Some ''p9'', set_name = None, set_icon = None, set_color = None,
      set_parentId = None, set_children = None, set_chatIds = None, set_collapsed = None,
      set_order = None\<rparr>"

text \<open>
  A store with two projects of the same id \<open>p1\<close>; the second lists the chat \<open>c1\<close>, which
  is mapped to \<open>p1\<close>.
\<close>

definition sameIdTwice :: store where
  "sameIdTwice =
     \<lparr>gpm_projects = [mkProject ''p1'' None [] [], mkProject ''p1'' None [] [''c1'']],
      gpm_chatMap = [(''c1'', mkMapping ''p1'')], sent = 0\<rparr>"

text \<open>
  Three nested projects (root, child, grandchild), a second child of the root
  (sibling) and a second root project (other), each with a chat.
\<close>

definition nested :: store where
  "nested =
     \<lparr>gpm_projects =
        [mkProject ''root'' None [''child'', ''sibling''] [''a''],
         mkProject ''child'' (Some ''root'') [''grandchild''] [''b''],
         mkProject ''sibling'' (Some ''root'') [] [''s''],
         mkProject ''other'' None [] [''d''],
         mkProject ''grandchild'' (Some ''child'') [] [''c'']],
      gpm_chatMap =
        [(''a'', mkMapping ''root''), (''b'', mkMapping ''child''),
         (''c'', mkMapping ''grandchild''), (''d'', mkMapping ''other''),
         (''s'', mkMapping ''sibling'')],
      sent = 0\<rparr>"

definition nestedHeight :: "string \<Rightarrow> nat" where
  "nestedHeight i = (if i = ''root'' then 2 else if i = ''child'' then 1 else 0)"

text \<open>
  The store and the sidebar of the scenario of the specification: mappings for
  \<open>a\<close>, \<open>b\<close> and \<open>x\<close>; the sidebar shows \<open>a\<close>, \<open>b\<close> and \<open>c\<close>.
\<close>

definition abx :: store where
  "abx =
     \<lparr>gpm_projects = [mkProject ''p1'' None [] [''a'', ''x'', ''b'']],
      gpm_chatMap = [(''a'', mkMapping ''p1''), (''b'', mkMapping ''p1''), (''x'', mkMapping ''p1'')],
      sent = 0\<rparr>"

definition sidebarABC :: "sidebarLink list" where
  "sidebarABC =
     [\<lparr>href = ''/app/a'', linkText = ''Alpha''\<rparr>, \<lparr>href = ''/app/b'', linkText = ''Beta''\<rparr>,
      \<lparr>href = ''/app/c'', linkText = ''Gamma''\<rparr>]"

text \<open>A sidebar whose only link carries no chat id.\<close>

definition sidebarNoIds :: "sidebarLink list" where
  "sidebarNoIds = [\<lparr>href = ''/app/?hl=en'', linkText = ''New chat''\<rparr>]"

text \<open>A storage with one project, one mapping and Turkish settings; nothing else.\<close>

definition sampleStorage :: chromeStorage where
  "sampleStorage =
     \<lparr>local =
        [''gpm_projects'' \<mapsto> JArr [JObj [(''id'', JStr ''p1''), (''name'', JStr ''Research'')]],
         ''gpm_chatMap'' \<mapsto> JObj [(''abc123'', JObj [(''projectId'', JStr ''p1'')])],
         ''gpm_settings'' \<mapsto> JObj [(''lang'', JStr ''tr''), (''theme'', JStr ''dark'')]],
      sentMessages = 0\<rparr>"

text \<open>
  A storage in which all four keys were written: a project, a mapping, two quick
  prompts and the settings.  And the document that \<open>exportAll\<close> makes of it.
\<close>

definition backupStorage :: chromeStorage where
  "backupStorage =
     \<lparr>local =
        [''gpm_projects'' \<mapsto> JArr [JObj [(''id'', JStr ''p1''), (''name'', JStr ''Research''),
                                         (''chatIds'', JArr [JStr ''abc123''])]],
         ''gpm_chatMap'' \<mapsto> JObj [(''abc123'', JObj [(''projectId'', JStr ''p1''),
                                                     (''alias'', JStr ''Notes''),
                                                     (''pinned'', JBool True)])],
         ''gpm_quickPrompts'' \<mapsto>
            JArr [JObj [(''id'', JStr ''q1''), (''title'', JStr ''Summary''),
                        (''content'', JStr ''Summarise this chat.''),
                        (''category'', JStr ''General'')],
                  JObj [(''id'', JStr ''q2''), (''title'', JStr ''Translate''),
                        (''content'', JStr ''Translate to English.''),
                        (''category'', JStr ''Language'')]],
         ''gpm_settings'' \<mapsto> JObj [(''lang'', JStr ''tr''), (''theme'', JStr ''dark'')]],
      sentMessages = 7\<rparr>"

definition backupDocument :: jsval where
  "backupDocument =
     JObj [(''gpm_projects'',
              JArr [JObj [(''id'', JStr ''p1''), (''name'', JStr ''Research''),
                          (''chatIds'', JArr [JStr ''abc123''])]]),
           (''gpm_chatMap'',
              JObj [(''abc123'', JObj [(''projectId'', JStr ''p1''), (''alias'', JStr ''Notes''),
                                       (''pinned'', JBool True)])]),
           (''gpm_quickPrompts'',
              JArr [JObj [(''id'', JStr ''q1''), (''title'', JStr ''Summary''),
                          (''content'', JStr ''Summarise this chat.''),
                          (''category'', JStr ''General'')],
                    JObj [(''id'', JStr ''q2''), (''title'', JStr ''Translate''),
                          (''content'', JStr ''Translate to English.''),
                          (''category'', JStr ''Language'')]]),
           (''gpm_settings'', JObj [(''lang'', JStr ''tr''), (''theme'', JStr ''dark'')])]"

text \<open>
  An import document that binds \<open>gpm_projects\<close> to \<open>null\<close> and \<open>gpm_settings\<close> to an
  object.
\<close>

definition nullProjectsBlob :: jsval where
  "nullProjectsBlob =
     JObj [(''gpm_projects'', JNull), (''gpm_settings'', JObj [(''lang'', JStr ''de'')])]"

section \<open>Mutation of the first matching element\<close>

lemma mutateFound_comp:
  "(\<And>x. P (g x) = P x) \<Longrightarrow> mutateFound P f (mutateFound P g xs) = mutateFound P (f \<circ> g) xs"
  by (induction xs) auto

lemma mutateFound_first_cong:
  "(\<And>x. find P xs = Some x \<Longrightarrow> f x = g x) \<Longrightarrow> mutateFound P f xs = mutateFound P g xs"
  by (induction xs) auto

lemma find_mutateFound_same:
  "(\<And>x. P (f x) = P x) \<Longrightarrow> find P (mutateFound P f xs) = map_option f (find P xs)"
  by (induction xs) auto

lemma find_mutateFound_other:
  "(\<And>x. P (f x) = P x) \<Longrightarrow> find P (mutateFound Q f xs) = Some x \<Longrightarrow>
     \<exists>y. find P xs = Some y \<and> (x = y \<or> x = f y)"
  by (induction xs) (auto split: if_splits)

lemma filter_neq_absent: "c \<notin> set xs \<Longrightarrow> filter (\<lambda>x. x \<noteq> c) xs = xs"
  by (induction xs) auto

section \<open>Claim C7: assignChat twice\<close>

lemma id_removeChat [simp]: "id' (removeChat c q) = id' q"
  by (simp add: removeChat_def)

lemma id_pushChat [simp]: "id' (pushChat c q) = id' q"
  by (simp add: pushChat_def)

lemma chatIds_removeChat [simp]: "chatIds (removeChat c q) = filter (\<lambda>x. x \<noteq> c) (chatIds q)"
  by (simp add: removeChat_def)

lemma push_remove_push:
  "c \<notin> set (chatIds q) \<Longrightarrow> pushChat c (removeChat c (pushChat c q)) = pushChat c q"
  by (simp add: pushChat_def removeChat_def filter_neq_absent)

lemma push_push: "pushChat c (pushChat c q) = pushChat c q"
  by (simp add: pushChat_def)

lemma gpm_projects_assignChat:
  "gpm_projects (assignChat page c p s) =
     mutateFound (\<lambda>q. id' q = p) (pushChat c)
       (case map_of (gpm_chatMap s) c of
          None \<Rightarrow> gpm_projects s
        | Some m \<Rightarrow> mutateFound (\<lambda>q. id' q = projectId m) (removeChat c) (gpm_projects s))"
  by (simp add: assignChat_def Let_def saveProjects_def saveChatMap_def)

lemma gpm_chatMap_assignChat:
  "gpm_chatMap (assignChat page c p s) =
     assignKey c \<lparr>projectId = p,
         alias' = (case map_of (gpm_chatMap s) c of
                     None \<Rightarrow> inheritedAlias page c | Some m \<Rightarrow> alias' m),
         pinned = (case map_of (gpm_chatMap s) c of
                     None \<Rightarrow> inheritedPinned page c | Some m \<Rightarrow> pinned m)\<rparr>
       (gpm_chatMap s)"
  by (simp add: assignChat_def Let_def saveProjects_def saveChatMap_def)

text \<open>
  The mapping is stored, unless the chat id is \<open>__proto__\<close> and no own property: then
  the chatMap stays as it is.
\<close>

lemma map_of_assignChat_same:
  "c \<noteq> ''__proto__'' \<or> map_of (gpm_chatMap s) c \<noteq> None \<Longrightarrow>
   map_of (gpm_chatMap (assignChat page c p s)) c =
     Some \<lparr>projectId = p,
         alias' = (case map_of (gpm_chatMap s) c of
                     None \<Rightarrow> inheritedAlias page c | Some m \<Rightarrow> alias' m),
         pinned = (case map_of (gpm_chatMap s) c of
                     None \<Rightarrow> inheritedPinned page c | Some m \<Rightarrow> pinned m)\<rparr>"
  by (auto simp: gpm_chatMap_assignChat assignKey_def update_conv')

lemma gpm_chatMap_assignChat_proto:
  "c = ''__proto__'' \<Longrightarrow> map_of (gpm_chatMap s) c = None \<Longrightarrow>
     gpm_chatMap (assignChat page c p s) = gpm_chatMap s"
  by (simp add: gpm_chatMap_assignChat assignKey_def)

lemma chatMap_assignChat_twice:
  "gpm_chatMap (assignChat page c p (assignChat page c p s)) = gpm_chatMap (assignChat page c p s)"
proof (cases "c \<noteq> ''__proto__'' \<or> map_of (gpm_chatMap s) c \<noteq> None")
  case True
  define e where "e = \<lparr>projectId = p,
         alias' = (case map_of (gpm_chatMap s) c of
                     None \<Rightarrow> inheritedAlias page c | Some m \<Rightarrow> alias' m),
         pinned = (case map_of (gpm_chatMap s) c of
                     None \<Rightarrow> inheritedPinned page c | Some m \<Rightarrow> pinned m)\<rparr>"
  have 1: "gpm_chatMap (assignChat page c p s) = AList.update c e (gpm_chatMap s)"
    using True by (auto simp: gpm_chatMap_assignChat assignKey_def e_def)
  have 2: "map_of (gpm_chatMap (assignChat page c p s)) c = Some e"
    unfolding 1 by (simp add: update_conv')
  have "gpm_chatMap (assignChat page c p (assignChat page c p s)) =
          AList.update c e (AList.update c e (gpm_chatMap s))"
    unfolding gpm_chatMap_assignChat [of page c p "assignChat page c p s"] 2
    by (simp add: assignKey_def 1 [symmetric] 2) (simp add: e_def)
  then show ?thesis unfolding 1 by simp
next
  case False
  then have c: "c = ''__proto__''" "map_of (gpm_chatMap s) c = None" by simp_all
  have 1: "gpm_chatMap (assignChat page c p s) = gpm_chatMap s"
    using c by (rule gpm_chatMap_assignChat_proto)
  have 2: "map_of (gpm_chatMap (assignChat page c p s)) c = None"
    unfolding 1 by (rule c(2))
  show ?thesis
    using c(1) 2 by (rule gpm_chatMap_assignChat_proto)
qed

text \<open>
  Before the first call pushes \<open>c\<close>, the project that \<open>p\<close> resolves to does not list
  \<open>c\<close>, provided that \<open>c\<close> was listed there only under a mapping to \<open>p\<close>.
\<close>

lemma first_target_clean:
  assumes H: "\<And>P0. find (\<lambda>q. id' q = p) (gpm_projects s) = Some P0 \<Longrightarrow> c \<in> set (chatIds P0) \<Longrightarrow>
                \<exists>m. map_of (gpm_chatMap s) c = Some m \<and> projectId m = p"
    and f: "find (\<lambda>q. id' q = p)
              (case map_of (gpm_chatMap s) c of
                 None \<Rightarrow> gpm_projects s
               | Some m \<Rightarrow> mutateFound (\<lambda>q. id' q = projectId m) (removeChat c) (gpm_projects s)) = Some x"
  shows "c \<notin> set (chatIds x)"
proof (cases "map_of (gpm_chatMap s) c")
  case None
  with f H show ?thesis by auto
next
  case (Some m)
  with f have "find (\<lambda>q. id' q = p)
      (mutateFound (\<lambda>q. id' q = projectId m) (removeChat c) (gpm_projects s)) = Some x"
    by simp
  then obtain y where y: "find (\<lambda>q. id' q = p) (gpm_projects s) = Some y" "x = y \<or> x = removeChat c y"
    using find_mutateFound_other [of "\<lambda>q. id' q = p" "removeChat c"] by force
  show ?thesis
  proof (cases "projectId m = p")
    case True
    with Some f y have "x = removeChat c y"
      by (simp add: find_mutateFound_same)
    then show ?thesis by simp
  next
    case False
    with H [OF y(1)] Some have "c \<notin> set (chatIds y)" by auto
    with y(2) show ?thesis by auto
  qed
qed

lemma projects_assignChat_twice:
  assumes H: "\<And>P0. find (\<lambda>q. id' q = p) (gpm_projects s) = Some P0 \<Longrightarrow> c \<in> set (chatIds P0) \<Longrightarrow>
                \<exists>m. map_of (gpm_chatMap s) c = Some m \<and> projectId m = p"
  shows "gpm_projects (assignChat page c p (assignChat page c p s)) =
           gpm_projects (assignChat page c p s)"
proof (cases "c \<noteq> ''__proto__'' \<or> map_of (gpm_chatMap s) c \<noteq> None")
  case True
  let ?X = "case map_of (gpm_chatMap s) c of
                 None \<Rightarrow> gpm_projects s
               | Some m \<Rightarrow> mutateFound (\<lambda>q. id' q = projectId m) (removeChat c) (gpm_projects s)"
  have "gpm_projects (assignChat page c p (assignChat page c p s)) =
        mutateFound (\<lambda>q. id' q = p) (pushChat c)
          (mutateFound (\<lambda>q. id' q = p) (removeChat c) (gpm_projects (assignChat page c p s)))"
    by (simp add: gpm_projects_assignChat [of page c p "assignChat page c p s"]
          map_of_assignChat_same [OF True])
  also have "\<dots> = mutateFound (\<lambda>q. id' q = p) (pushChat c \<circ> removeChat c \<circ> pushChat c) ?X"
    by (simp add: gpm_projects_assignChat mutateFound_comp comp_assoc)
  also have "\<dots> = mutateFound (\<lambda>q. id' q = p) (pushChat c) ?X"
    by (rule mutateFound_first_cong) (simp add: push_remove_push first_target_clean [OF H])
  finally show ?thesis by (simp add: gpm_projects_assignChat)
next
  case False
  then have c: "c = ''__proto__''" "map_of (gpm_chatMap s) c = None" by simp_all
  have "map_of (gpm_chatMap (assignChat page c p s)) c = None"
    using gpm_chatMap_assignChat_proto [OF c, where page = page and p = p] c(2) by simp
  then have "gpm_projects (assignChat page c p (assignChat page c p s)) =
        mutateFound (\<lambda>q. id' q = p) (pushChat c) (gpm_projects (assignChat page c p s))"
    by (simp add: gpm_projects_assignChat [of page c p "assignChat page c p s"])
  also have "\<dots> = mutateFound (\<lambda>q. id' q = p) (pushChat c \<circ> pushChat c) (gpm_projects s)"
    using c(2) by (simp add: gpm_projects_assignChat mutateFound_comp)
  also have "pushChat c \<circ> pushChat c = pushChat c"
    by (rule ext) (simp add: push_push)
  finally show ?thesis using c(2) by (simp add: gpm_projects_assignChat)
qed

lemma find_mutateFound_Some:
  "(\<And>x. P (f x) = P x) \<Longrightarrow> find P xs = Some y \<Longrightarrow> \<exists>z. find P (mutateFound Q f xs) = Some z"
  by (induction xs) (auto split: if_splits)

text \<open>
  After the first call the project that \<open>p\<close> resolves to lists \<open>c\<close> once, at the end.
\<close>

lemma find_after_assignChat:
  assumes ex: "find (\<lambda>q. id' q = p) (gpm_projects s) = Some P0"
    and H: "\<And>P0. find (\<lambda>q. id' q = p) (gpm_projects s) = Some P0 \<Longrightarrow> c \<in> set (chatIds P0) \<Longrightarrow>
                \<exists>m. map_of (gpm_chatMap s) c = Some m \<and> projectId m = p"
  shows "\<exists>P1 cs. find (\<lambda>q. id' q = p) (gpm_projects (assignChat page c p s)) = Some P1
                \<and> chatIds P1 = cs @ [c] \<and> c \<notin> set cs"
proof -
  let ?X = "case map_of (gpm_chatMap s) c of
                 None \<Rightarrow> gpm_projects s
               | Some m \<Rightarrow> mutateFound (\<lambda>q. id' q = projectId m) (removeChat c) (gpm_projects s)"
  have "\<exists>z. find (\<lambda>q. id' q = p) ?X = Some z"
    using ex find_mutateFound_Some [of "\<lambda>q. id' q = p" "removeChat c" "gpm_projects s" P0]
    by (cases "map_of (gpm_chatMap s) c") simp_all
  then obtain z where z: "find (\<lambda>q. id' q = p) ?X = Some z" ..
  have clean: "c \<notin> set (chatIds z)"
    using first_target_clean [OF H z] .
  have "find (\<lambda>q. id' q = p) (gpm_projects (assignChat page c p s)) = Some (pushChat c z)"
    using z by (simp add: gpm_projects_assignChat find_mutateFound_same)
  moreover have "chatIds (pushChat c z) = chatIds z @ [c]"
    using clean by (simp add: pushChat_def)
  ultimately show ?thesis using clean by blast
qed

lemma chatIds_reappend:
  "chatIds P = cs @ [c] \<Longrightarrow> c \<notin> set cs \<Longrightarrow>
     P\<lparr>chatIds := filter (\<lambda>x. x \<noteq> c) (chatIds P) @ [c]\<rparr> = P"
  by (simp add: filter_neq_absent)

lemma count_list_last: "c \<notin> set cs \<Longrightarrow> count_list (cs @ [c]) c = 1"
  by (induction cs) auto

text \<open>
  Claim C7, as amended.  Let \<open>p\<close> resolve to a project \<open>P0\<close> of the store, and let \<open>c\<close>, if
  \<open>P0\<close> lists it in \<open>chatIds\<close>, be mapped to \<open>p\<close>.  Then, in every page, \<open>assignChat(c, p)\<close>
  called twice leaves the same projects and the same chatMap as called once (both
  calls read the same page: \<open>assignChat\<close> assigns nothing to a value that it has
  looked up).  After
  the first call the project of \<open>p\<close> lists \<open>c\<close> exactly once, and its record after the
  second call is the one after the first call with \<open>c\<close> filtered out of \<open>chatIds\<close> and
  appended again.  For every chat id but \<open>__proto__\<close>, the first call leaves a mapping
  for \<open>c\<close>, and the mapping after the second call has the alias and the pinned flag of
  that one.  The first call, too, keeps the alias and the pinned flag of a mapping that
  \<open>c\<close> had; for a \<open>c\<close> without a mapping it stores what the page makes of
  \<open>undefined?.alias || ''\<close> and \<open>undefined?.pinned || false\<close> (or of the inherited value).
  For the chat id \<open>__proto__\<close> that is no own property of the chatMap, a call leaves the
  chatMap as it was: no mapping is stored for the chat.
\<close>

theorem assignChat_twice:
  assumes ex: "find (\<lambda>q. id' q = p) (gpm_projects s) = Some P0"
      and H: "c \<in> set (chatIds P0) \<longrightarrow> (\<exists>m. map_of (gpm_chatMap s) c = Some m \<and> projectId m = p)"
  shows "gpm_projects (assignChat page c p (assignChat page c p s)) =
           gpm_projects (assignChat page c p s)
       \<and> gpm_chatMap (assignChat page c p (assignChat page c p s)) =
           gpm_chatMap (assignChat page c p s)
       \<and> (\<exists>P1. find (\<lambda>q. id' q = p) (gpm_projects (assignChat page c p s)) = Some P1
             \<and> find (\<lambda>q. id' q = p) (gpm_projects (assignChat page c p (assignChat page c p s))) =
                 Some (P1\<lparr>chatIds := filter (\<lambda>x. x \<noteq> c) (chatIds P1) @ [c]\<rparr>)
             \<and> count_list (chatIds P1) c = 1)
       \<and> (c \<noteq> ''__proto__'' \<longrightarrow>
            (\<exists>m1. map_of (gpm_chatMap (assignChat page c p s)) c = Some m1
               \<and> map_of (gpm_chatMap (assignChat page c p (assignChat page c p s))) c =
                   Some \<lparr>projectId = p, alias' = alias' m1, pinned = pinned m1\<rparr>))
       \<and> (\<forall>m0. map_of (gpm_chatMap s) c = Some m0 \<longrightarrow>
            map_of (gpm_chatMap (assignChat page c p s)) c =
              Some \<lparr>projectId = p, alias' = alias' m0, pinned = pinned m0\<rparr>)
       \<and> (c \<noteq> ''__proto__'' \<and> map_of (gpm_chatMap s) c = None \<longrightarrow>
            map_of (gpm_chatMap (assignChat page c p s)) c =
              Some \<lparr>projectId = p, alias' = inheritedAlias page c,
                     pinned = inheritedPinned page c\<rparr>)
       \<and> (c = ''__proto__'' \<and> map_of (gpm_chatMap s) c = None \<longrightarrow>
            gpm_chatMap (assignChat page c p s) = gpm_chatMap s)"
proof -
  let ?s1 = "assignChat page c p s" and ?s2 = "assignChat page c p (assignChat page c p s)"
  have H': "\<And>Q. find (\<lambda>q. id' q = p) (gpm_projects s) = Some Q \<Longrightarrow> c \<in> set (chatIds Q) \<Longrightarrow>
                \<exists>m. map_of (gpm_chatMap s) c = Some m \<and> projectId m = p"
    using ex H by simp
  have ps: "gpm_projects ?s2 = gpm_projects ?s1"
    by (rule projects_assignChat_twice) (rule H')
  have cm: "gpm_chatMap ?s2 = gpm_chatMap ?s1"
    by (rule chatMap_assignChat_twice)
  have "\<exists>P1 cs. find (\<lambda>q. id' q = p) (gpm_projects ?s1) = Some P1
                \<and> chatIds P1 = cs @ [c] \<and> c \<notin> set cs"
    by (rule find_after_assignChat [OF ex]) (rule H')
  then obtain P1 cs where P1: "find (\<lambda>q. id' q = p) (gpm_projects ?s1) = Some P1"
    and cs: "chatIds P1 = cs @ [c]" "c \<notin> set cs"
    by blast
  have P2: "find (\<lambda>q. id' q = p) (gpm_projects ?s2) =
              Some (P1\<lparr>chatIds := filter (\<lambda>x. x \<noteq> c) (chatIds P1) @ [c]\<rparr>)"
    using ps P1 chatIds_reappend [OF cs] by simp
  have cnt: "count_list (chatIds P1) c = 1"
    using cs by (simp add: count_list_last)
  have third: "\<exists>P1. find (\<lambda>q. id' q = p) (gpm_projects ?s1) = Some P1
             \<and> find (\<lambda>q. id' q = p) (gpm_projects ?s2) =
                 Some (P1\<lparr>chatIds := filter (\<lambda>x. x \<noteq> c) (chatIds P1) @ [c]\<rparr>)
             \<and> count_list (chatIds P1) c = 1"
    using P1 P2 cnt by blast
  have m: "c \<noteq> ''__proto__'' \<longrightarrow>
            (\<exists>m1. map_of (gpm_chatMap ?s1) c = Some m1
               \<and> map_of (gpm_chatMap ?s2) c = Some \<lparr>projectId = p, alias' = alias' m1, pinned = pinned m1\<rparr>)"
  proof
    assume ne: "c \<noteq> ''__proto__''"
    have 1: "map_of (gpm_chatMap ?s1) c =
               Some \<lparr>projectId = p,
                 alias' = (case map_of (gpm_chatMap s) c of
                             None \<Rightarrow> inheritedAlias page c | Some m \<Rightarrow> alias' m),
                 pinned = (case map_of (gpm_chatMap s) c of
                             None \<Rightarrow> inheritedPinned page c | Some m \<Rightarrow> pinned m)\<rparr>"
      using ne by (simp add: map_of_assignChat_same)
    have 2: "map_of (gpm_chatMap ?s2) c = map_of (gpm_chatMap ?s1) c"
      using cm by simp
    show "\<exists>m1. map_of (gpm_chatMap ?s1) c = Some m1
               \<and> map_of (gpm_chatMap ?s2) c = Some \<lparr>projectId = p, alias' = alias' m1, pinned = pinned m1\<rparr>"
      unfolding 2 1 by simp
  qed
  have proto: "c = ''__proto__'' \<and> map_of (gpm_chatMap s) c = None \<longrightarrow>
            gpm_chatMap ?s1 = gpm_chatMap s"
    using gpm_chatMap_assignChat_proto [of c s page p] by blast
  have kept: "\<forall>m0. map_of (gpm_chatMap s) c = Some m0 \<longrightarrow>
            map_of (gpm_chatMap ?s1) c = Some \<lparr>projectId = p, alias' = alias' m0, pinned = pinned m0\<rparr>"
    by (simp add: map_of_assignChat_same)
  have fresh: "c \<noteq> ''__proto__'' \<and> map_of (gpm_chatMap s) c = None \<longrightarrow>
            map_of (gpm_chatMap ?s1) c =
              Some \<lparr>projectId = p, alias' = inheritedAlias page c, pinned = inheritedPinned page c\<rparr>"
    by (simp add: map_of_assignChat_same)
  from ps cm third m kept fresh proto show ?thesis by (intro conjI)
qed

theorem assignChat_twice_witness:
  "find (\<lambda>q. id' q = ''p1'') (gpm_projects twoProjects) = Some (mkProject ''p1'' None [] [''c1'', ''c2''])
   \<and> ''c1'' \<in> set (chatIds (mkProject ''p1'' None [] [''c1'', ''c2'']))
   \<and> (\<exists>m. map_of (gpm_chatMap twoProjects) ''c1'' = Some m \<and> projectId m = ''p1'')
   \<and> gpm_projects (assignChat pageRealm ''c1'' ''p1'' twoProjects) =
       [mkProject ''p1'' None [] [''c2'', ''c1''], mkProject ''p2'' None [] []]
   \<and> gpm_chatMap (assignChat pageRealm ''c1'' ''p1'' twoProjects) =
       [(''c1'', mkMapping ''p1''), (''c2'', mkMapping ''p1'')]
   \<and> gpm_projects (assignChat pageRealm ''c1'' ''p1'' (assignChat pageRealm ''c1'' ''p1'' twoProjects)) =
       [mkProject ''p1'' None [] [''c2'', ''c1''], mkProject ''p2'' None [] []]
   \<and> gpm_chatMap (assignChat pageRealm ''c1'' ''p1'' (assignChat pageRealm ''c1'' ''p1'' twoProjects)) =
       [(''c1'', mkMapping ''p1''), (''c2'', mkMapping ''p1'')]
   \<and> find (\<lambda>q. id' q = ''p2'') (gpm_projects twoProjects) = Some (mkProject ''p2'' None [] [])
   \<and> ''c9'' \<notin> set (chatIds (mkProject ''p2'' None [] []))
   \<and> gpm_projects (assignChat pageRealm ''c9'' ''p2'' (assignChat pageRealm ''c9'' ''p2'' twoProjects)) =
       [mkProject ''p1'' None [] [''c1'', ''c2''], mkProject ''p2'' None [] [''c9'']]
   \<and> gpm_chatMap (assignChat pageRealm ''c9'' ''p2'' (assignChat pageRealm ''c9'' ''p2'' twoProjects)) =
       [(''c1'', mkMapping ''p1''), (''c2'', mkMapping ''p1''),
        (''c9'', \<lparr>projectId = ''p2'', alias' = [], pinned = False\<rparr>)]
   \<and> ''__proto__'' \<notin> set (chatIds (mkProject ''p2'' None [] []))
   \<and> gpm_projects (assignChat pageRealm ''__proto__'' ''p2''
         (assignChat pageRealm ''__proto__'' ''p2'' twoProjects)) =
       [mkProject ''p1'' None [] [''c1'', ''c2''], mkProject ''p2'' None [] [''__proto__'']]
   \<and> gpm_chatMap (assignChat pageRealm ''__proto__'' ''p2''
         (assignChat pageRealm ''__proto__'' ''p2'' twoProjects)) =
       [(''c1'', mkMapping ''p1''), (''c2'', mkMapping ''p1'')]"
proof -
  have h1: "find (\<lambda>q. id' q = ''p1'') (gpm_projects twoProjects) =
              Some (mkProject ''p1'' None [] [''c1'', ''c2''])"
    by (simp add: twoProjects_def mkProject_def)
  have h2: "''c1'' \<in> set (chatIds (mkProject ''p1'' None [] [''c1'', ''c2''])) \<longrightarrow>
        (\<exists>m. map_of (gpm_chatMap twoProjects) ''c1'' = Some m \<and> projectId m = ''p1'')"
    by (simp add: twoProjects_def mkMapping_def)
  have h3: "''c1'' \<in> set (chatIds (mkProject ''p1'' None [] [''c1'', ''c2'']))"
    by (simp add: mkProject_def)
  have h4: "\<exists>m. map_of (gpm_chatMap twoProjects) ''c1'' = Some m \<and> projectId m = ''p1''"
    using h2 h3 by simp
  have once: "gpm_projects (assignChat pageRealm ''c1'' ''p1'' twoProjects) =
       [mkProject ''p1'' None [] [''c2'', ''c1''], mkProject ''p2'' None [] []]"
    "gpm_chatMap (assignChat pageRealm ''c1'' ''p1'' twoProjects) =
       [(''c1'', mkMapping ''p1''), (''c2'', mkMapping ''p1'')]"
    by (simp_all add: twoProjects_def mkProject_def mkMapping_def assignChat_def Let_def
          saveProjects_def saveChatMap_def pushChat_def removeChat_def assignKey_def)
  from assignChat_twice [OF h1 h2, of pageRealm]
  have twice: "gpm_projects (assignChat pageRealm ''c1'' ''p1'' (assignChat pageRealm ''c1'' ''p1'' twoProjects)) =
           gpm_projects (assignChat pageRealm ''c1'' ''p1'' twoProjects)"
    "gpm_chatMap (assignChat pageRealm ''c1'' ''p1'' (assignChat pageRealm ''c1'' ''p1'' twoProjects)) =
           gpm_chatMap (assignChat pageRealm ''c1'' ''p1'' twoProjects)"
    by simp_all
  have k1: "find (\<lambda>q. id' q = ''p2'') (gpm_projects twoProjects) = Some (mkProject ''p2'' None [] [])"
    by (simp add: twoProjects_def mkProject_def)
  have k2: "''c9'' \<notin> set (chatIds (mkProject ''p2'' None [] []))"
    and k3: "''__proto__'' \<notin> set (chatIds (mkProject ''p2'' None [] []))"
    by (simp_all add: mkProject_def)
  have once9: "gpm_projects (assignChat pageRealm ''c9'' ''p2'' twoProjects) =
       [mkProject ''p1'' None [] [''c1'', ''c2''], mkProject ''p2'' None [] [''c9'']]"
    "gpm_chatMap (assignChat pageRealm ''c9'' ''p2'' twoProjects) =
       [(''c1'', mkMapping ''p1''), (''c2'', mkMapping ''p1''),
        (''c9'', \<lparr>projectId = ''p2'', alias' = [], pinned = False\<rparr>)]"
    by (simp_all add: twoProjects_def mkProject_def mkMapping_def assignChat_def Let_def
          saveProjects_def saveChatMap_def pushChat_def removeChat_def assignKey_def
          pageRealm_def)
  from assignChat_twice [OF k1, of "''c9''" pageRealm] k2
  have twice9: "gpm_projects (assignChat pageRealm ''c9'' ''p2'' (assignChat pageRealm ''c9'' ''p2'' twoProjects)) =
           gpm_projects (assignChat pageRealm ''c9'' ''p2'' twoProjects)"
    "gpm_chatMap (assignChat pageRealm ''c9'' ''p2'' (assignChat pageRealm ''c9'' ''p2'' twoProjects)) =
           gpm_chatMap (assignChat pageRealm ''c9'' ''p2'' twoProjects)"
    by simp_all
  have onceP: "gpm_projects (assignChat pageRealm ''__proto__'' ''p2'' twoProjects) =
       [mkProject ''p1'' None [] [''c1'', ''c2''], mkProject ''p2'' None [] [''__proto__'']]"
    "gpm_chatMap (assignChat pageRealm ''__proto__'' ''p2'' twoProjects) =
       [(''c1'', mkMapping ''p1''), (''c2'', mkMapping ''p1'')]"
    by (simp_all add: twoProjects_def mkProject_def mkMapping_def assignChat_def Let_def
          saveProjects_def saveChatMap_def pushChat_def removeChat_def assignKey_def)
  from assignChat_twice [OF k1, of "''__proto__''" pageRealm] k3
  have twiceP: "gpm_projects (assignChat pageRealm ''__proto__'' ''p2''
                   (assignChat pageRealm ''__proto__'' ''p2'' twoProjects)) =
           gpm_projects (assignChat pageRealm ''__proto__'' ''p2'' twoProjects)"
    "gpm_chatMap (assignChat pageRealm ''__proto__'' ''p2''
                   (assignChat pageRealm ''__proto__'' ''p2'' twoProjects)) =
           gpm_chatMap (assignChat pageRealm ''__proto__'' ''p2'' twoProjects)"
    by simp_all
  from h1 h3 h4 once twice k1 k2 k3 once9 twice9 onceP twiceP show ?thesis by simp
qed

text \<open>
  Claim C7 as stated fails in a store where \<open>p1\<close> lists \<open>c1\<close> first and \<open>c1\<close> has no
  mapping: the first call keeps \<open>[c1, c2]\<close>, the second call makes it \<open>[c2, c1]\<close>.  And
  for the chat id \<open>__proto__\<close> there is no mapping whose alias and pinned flag a second
  call could preserve: the call appends the chat to the project and leaves the chatMap
  without an entry for it.
\<close>

theorem assignChat_twice_counterexample:
  "gpm_projects (assignChat pageRealm ''c1'' ''p1'' (assignChat pageRealm ''c1'' ''p1'' listedUnmapped))
     \<noteq> gpm_projects (assignChat pageRealm ''c1'' ''p1'' listedUnmapped)
   \<and> gpm_projects (assignChat pageRealm ''__proto__'' ''p2'' twoProjects) =
       [mkProject ''p1'' None [] [''c1'', ''c2''], mkProject ''p2'' None [] [''__proto__'']]
   \<and> map_of (gpm_chatMap (assignChat pageRealm ''__proto__'' ''p2'' twoProjects)) ''__proto__'' = None"
  by (simp add: listedUnmapped_def twoProjects_def mkProject_def mkMapping_def assignChat_def
        Let_def saveProjects_def saveChatMap_def pushChat_def removeChat_def assignKey_def)

section \<open>The store invariant\<close>

lemma mutateFound_distinct_map:
  "distinct (map k xs) \<Longrightarrow> mutateFound (\<lambda>q. k q = v) f xs = map (\<lambda>q. if k q = v then f q else q) xs"
proof (induction xs)
  case Nil
  then show ?case by simp
next
  case (Cons x xs)
  show ?case
  proof (cases "k x = v")
    case True
    with Cons.prems have "k x \<notin> k ` set xs" by simp
    with True have "\<forall>q\<in>set xs. k q \<noteq> v" by (metis imageI)
    then have "map (\<lambda>q. if k q = v then f q else q) xs = xs"
      by (induction xs) auto
    with True show ?thesis by simp
  next
    case False
    with Cons show ?thesis by simp
  qed
qed

lemma distinct_count_list_1: "distinct xs \<Longrightarrow> x \<in> set xs \<Longrightarrow> count_list xs x = 1"
  by (induction xs) auto

lemma delete_eq_filter: "AList.delete k al = filter (\<lambda>(k', _). k' \<noteq> k) al"
  by (induction al) auto

lemma fold_delete_filter:
  "fold (\<lambda>(c, m) cm. if projectId m \<in> D then AList.delete c cm else cm) es acc =
     filter (\<lambda>(c, _). \<not> (\<exists>m. (c, m) \<in> set es \<and> projectId m \<in> D)) acc"
proof (induction es arbitrary: acc)
  case Nil
  then show ?case by simp
next
  case (Cons e es)
  obtain c m where e: "e = (c, m)" by (cases e)
  show ?case
    by (auto simp: e Cons.IH delete_eq_filter intro!: filter_cong)
qed

lemma dropMappings_filter:
  assumes "distinct (map fst cm)"
  shows "dropMappings D cm = filter (\<lambda>(c, m). projectId m \<notin> set D) cm"
proof -
  have "\<And>c m m'. (c, m) \<in> set cm \<Longrightarrow> (c, m') \<in> set cm \<Longrightarrow> m = m'"
    using assms by (meson eq_key_imp_eq_value)
  then show ?thesis
    unfolding dropMappings_def fold_delete_filter
    by (intro filter_cong) auto
qed

text \<open>The parts of \<open>listingInvariant\<close>, one by one.\<close>

lemma listingInvariantD:
  assumes "listingInvariant s"
  shows "distinct (map id' (gpm_projects s))"
    and "distinct (map fst (gpm_chatMap s))"
    and "\<And>c m. (c, m) \<in> set (gpm_chatMap s) \<Longrightarrow>
           \<exists>P \<in> set (gpm_projects s). id' P = projectId m \<and> c \<in> set (chatIds P)"
    and "\<And>P. P \<in> set (gpm_projects s) \<Longrightarrow> distinct (chatIds P)"
    and "\<And>P c. P \<in> set (gpm_projects s) \<Longrightarrow> c \<in> set (chatIds P) \<Longrightarrow>
           (c = ''__proto__'' \<and> map_of (gpm_chatMap s) c = None)
         \<or> (\<exists>m. map_of (gpm_chatMap s) c = Some m \<and> projectId m = id' P)"
  using assms unfolding listingInvariant_def by fast+

lemma listingInvariantI:
  assumes "distinct (map id' (gpm_projects s))"
    and "distinct (map fst (gpm_chatMap s))"
    and "\<And>c m. (c, m) \<in> set (gpm_chatMap s) \<Longrightarrow>
           \<exists>P \<in> set (gpm_projects s). id' P = projectId m \<and> c \<in> set (chatIds P)"
    and "\<And>P. P \<in> set (gpm_projects s) \<Longrightarrow> distinct (chatIds P)"
    and "\<And>P c. P \<in> set (gpm_projects s) \<Longrightarrow> c \<in> set (chatIds P) \<Longrightarrow>
           (c = ''__proto__'' \<and> map_of (gpm_chatMap s) c = None)
         \<or> (\<exists>m. map_of (gpm_chatMap s) c = Some m \<and> projectId m = id' P)"
  shows "listingInvariant s"
  unfolding listingInvariant_def
proof (intro conjI ballI)
  show "distinct (map id' (gpm_projects s))" by (rule assms(1))
  show "distinct (map fst (gpm_chatMap s))" by (rule assms(2))
  show "case x of (c, m) \<Rightarrow> \<exists>P \<in> set (gpm_projects s). id' P = projectId m \<and> c \<in> set (chatIds P)"
    if x: "x \<in> set (gpm_chatMap s)" for x
  proof -
    obtain c m where eq: "x = (c, m)" by (cases x)
    with x have "(c, m) \<in> set (gpm_chatMap s)" by simp
    from assms(3) [OF this] show ?thesis unfolding eq by simp
  qed
  show "distinct (chatIds P)" if "P \<in> set (gpm_projects s)" for P
    using that by (rule assms(4))
  show "(c = ''__proto__'' \<and> map_of (gpm_chatMap s) c = None)
         \<or> (\<exists>m. map_of (gpm_chatMap s) c = Some m \<and> projectId m = id' P)"
    if "P \<in> set (gpm_projects s)" "c \<in> set (chatIds P)" for P c
    using that by (rule assms(5))
qed

text \<open>The invariant of the data model follows from it.\<close>

lemma listingInvariant_chatInvariant:
  assumes inv: "listingInvariant s"
  shows "chatInvariant s"
  unfolding chatInvariant_def
proof (intro ballI, clarify)
  fix c m
  assume cm: "(c, m) \<in> set (gpm_chatMap s)" and mo: "map_of (gpm_chatMap s) c = Some m"
  let ?ps = "gpm_projects s"
  note D = listingInvariantD [OF inv]
  from D(3) [OF cm] obtain P where P: "P \<in> set ?ps" "id' P = projectId m" "c \<in> set (chatIds P)"
    by blast
  then obtain i where i: "i < length ?ps" "?ps ! i = P" by (auto simp: in_set_conv_nth)
  have c1: "count_list (chatIds P) c = 1"
    using D(4) [OF P(1)] P(3) by (simp add: distinct_count_list_1)
  have other: "c \<notin> set (chatIds (?ps ! j))" if j: "j < length ?ps" "j \<noteq> i" for j
  proof
    assume in': "c \<in> set (chatIds (?ps ! j))"
    have "?ps ! j \<in> set ?ps" using j by simp
    from D(5) [OF this in'] mo have "id' (?ps ! j) = projectId m" by auto
    with P(2) i have "map id' ?ps ! j = map id' ?ps ! i" using j by simp
    with D(1) show False using j i(1) by (simp add: nth_eq_iff_index_eq del: nth_map)
  qed
  show "\<exists>i<length ?ps. id' (?ps ! i) = projectId m \<and> count_list (chatIds (?ps ! i)) c = 1 \<and>
          (\<forall>j<length ?ps. j \<noteq> i \<longrightarrow> c \<notin> set (chatIds (?ps ! j)))"
    using i P(2) c1 other by blast
qed

lemma storeInvariant_iff: "storeInvariant s \<longleftrightarrow> listingInvariant s"
  using listingInvariant_chatInvariant [of s] by (auto simp: storeInvariant_def)

lemma chatIds_pushChat: "set (chatIds (pushChat c q)) = insert c (set (chatIds q))"
  by (auto simp: pushChat_def)

lemma distinct_pushChat: "distinct (chatIds q) \<Longrightarrow> distinct (chatIds (pushChat c q))"
  by (auto simp: pushChat_def)

lemma set_update_distinct:
  "distinct (map fst al) \<Longrightarrow> (k', v') \<in> set (AList.update k v al) \<longleftrightarrow>
     (k' = k \<and> v' = v) \<or> (k' \<noteq> k \<and> (k', v') \<in> set al)"
proof -
  assume d: "distinct (map fst al)"
  then have "distinct (map fst (AList.update k v al))" by (rule distinct_update)
  then have "(k', v') \<in> set (AList.update k v al) \<longleftrightarrow> map_of (AList.update k v al) k' = Some v'"
    by simp
  also have "\<dots> \<longleftrightarrow> (k' = k \<and> v' = v) \<or> (k' \<noteq> k \<and> map_of al k' = Some v')"
    by (auto simp: update_conv')
  finally show ?thesis using d by simp
qed

lemma listingInvariant_assignChat:
  assumes inv: "listingInvariant s" and ex: "\<exists>P\<in>set (gpm_projects s). id' P = p"
  shows "listingInvariant (assignChat page c p s)"
proof -
  let ?ps = "gpm_projects s" and ?cm = "gpm_chatMap s"
  note D = listingInvariantD [OF inv]
  define old where "old = (case map_of ?cm c of None \<Rightarrow> None | Some m \<Rightarrow> Some (projectId m))"
  define g where "g = (\<lambda>q. let q1 = (if Some (id' q) = old then removeChat c q else q)
                          in if id' q1 = p then pushChat c q1 else q1)"
  define e where "e = \<lparr>projectId = p,
         alias' = (case map_of ?cm c of None \<Rightarrow> inheritedAlias page c | Some m \<Rightarrow> alias' m),
         pinned = (case map_of ?cm c of None \<Rightarrow> inheritedPinned page c | Some m \<Rightarrow> pinned m)\<rparr>"
  let ?X = "case map_of ?cm c of
              None \<Rightarrow> ?ps
            | Some m \<Rightarrow> mutateFound (\<lambda>q. id' q = projectId m) (removeChat c) ?ps"
  have X: "?X = map (\<lambda>q. if Some (id' q) = old then removeChat c q else q) ?ps"
    using D(1) by (cases "map_of ?cm c") (simp_all add: mutateFound_distinct_map old_def)
  have "distinct (map id' ?X)"
    unfolding X using D(1) by (simp add: comp_def if_distrib [of id'] cong: if_cong)
  then have "mutateFound (\<lambda>q. id' q = p) (pushChat c) ?X =
               map (\<lambda>q. if id' q = p then pushChat c q else q) ?X"
    by (rule mutateFound_distinct_map)
  then have ps': "gpm_projects (assignChat page c p s) = map g ?ps"
    unfolding gpm_projects_assignChat X by (simp add: g_def Let_def comp_def)
  have idg [simp]: "\<And>q. id' (g q) = id' q" by (simp add: g_def Let_def)
  have g_other: "\<And>q x. x \<noteq> c \<Longrightarrow> x \<in> set (chatIds (g q)) \<longleftrightarrow> x \<in> set (chatIds q)"
    by (auto simp: g_def Let_def chatIds_pushChat)
  have g_push: "\<And>q. id' q = p \<Longrightarrow> c \<in> set (chatIds (g q))"
    by (auto simp: g_def Let_def chatIds_pushChat)
  have g_d: "\<And>q. q \<in> set ?ps \<Longrightarrow> distinct (chatIds (g q))"
    using D(4) by (auto simp: g_def Let_def intro!: distinct_pushChat)
  have 1: "distinct (map id' (map g ?ps))" using D(1) by (simp add: comp_def)
  from ex obtain P0 where P0: "P0 \<in> set ?ps" "id' P0 = p" by blast
  show ?thesis
  proof (cases "c = ''__proto__'' \<and> map_of ?cm c = None")
    case True
    have cm': "gpm_chatMap (assignChat page c p s) = ?cm"
      using True gpm_chatMap_assignChat_proto [of c s page p] by blast
    have notkey: "c' \<noteq> c" if "(c', m') \<in> set ?cm" for c' m'
      using that True D(2) by (auto dest: map_of_is_SomeI)
    show ?thesis
    proof (rule listingInvariantI)
      show "distinct (map id' (gpm_projects (assignChat page c p s)))"
        unfolding ps' by (rule 1)
      show "distinct (map fst (gpm_chatMap (assignChat page c p s)))"
        unfolding cm' by (rule D(2))
      show "\<exists>P \<in> set (gpm_projects (assignChat page c p s)). id' P = projectId m' \<and> c' \<in> set (chatIds P)"
        if "(c', m') \<in> set (gpm_chatMap (assignChat page c p s))" for c' m'
      proof -
        from that have in': "(c', m') \<in> set ?cm" unfolding cm' .
        from D(3) [OF in'] obtain P where "P \<in> set ?ps" "id' P = projectId m'" "c' \<in> set (chatIds P)"
          by blast
        with g_other [OF notkey [OF in'], of P] show ?thesis unfolding ps' by auto
      qed
      show "distinct (chatIds P')" if "P' \<in> set (gpm_projects (assignChat page c p s))" for P'
        using that g_d unfolding ps' by auto
      show "(c' = ''__proto__'' \<and> map_of (gpm_chatMap (assignChat page c p s)) c' = None)
          \<or> (\<exists>m. map_of (gpm_chatMap (assignChat page c p s)) c' = Some m \<and> projectId m = id' P')"
        if P': "P' \<in> set (gpm_projects (assignChat page c p s))" and c': "c' \<in> set (chatIds P')"
        for P' c'
      proof (cases "c' = c")
        case eq: True
        with True show ?thesis unfolding cm' by blast
      next
        case False
        from P' obtain q where q: "q \<in> set ?ps" "P' = g q" unfolding ps' by auto
        with c' g_other [OF False, of q] have "c' \<in> set (chatIds q)" by simp
        from D(5) [OF q(1) this] q(2) show ?thesis unfolding cm' by simp
      qed
    qed
  next
    case False
    then have stored: "c \<noteq> ''__proto__'' \<or> map_of ?cm c \<noteq> None"
      by (simp only: de_Morgan_conj)
    have cm': "gpm_chatMap (assignChat page c p s) = AList.update c e ?cm"
      using stored by (auto simp: gpm_chatMap_assignChat assignKey_def e_def)
    have g_c: "c \<in> set (chatIds (g q)) \<longleftrightarrow> id' q = p" if q: "q \<in> set ?ps" for q
    proof (cases "c \<in> set (chatIds q)")
      case True
      from D(5) [OF q True] stored have "old = Some (id' q)" by (auto simp: old_def)
      then show ?thesis by (auto simp: g_def Let_def chatIds_pushChat)
    next
      case False
      then show ?thesis by (auto simp: g_def Let_def chatIds_pushChat)
    qed
    show ?thesis
    proof (rule listingInvariantI)
      show "distinct (map id' (gpm_projects (assignChat page c p s)))"
        unfolding ps' by (rule 1)
      show "distinct (map fst (gpm_chatMap (assignChat page c p s)))"
        unfolding cm' using D(2) by (rule distinct_update)
      show "\<exists>P \<in> set (gpm_projects (assignChat page c p s)). id' P = projectId m' \<and> c' \<in> set (chatIds P)"
        if "(c', m') \<in> set (gpm_chatMap (assignChat page c p s))" for c' m'
      proof -
        from that D(2) consider "c' = c" "m' = e" | "c' \<noteq> c" "(c', m') \<in> set ?cm"
          unfolding cm' by (auto simp: set_update_distinct)
        then show ?thesis
        proof cases
          case 1
          with g_push [of P0] P0 show ?thesis unfolding ps' by (auto simp: e_def)
        next
          case 2
          from D(3) [OF 2(2)] obtain P where "P \<in> set ?ps" "id' P = projectId m'" "c' \<in> set (chatIds P)"
            by blast
          with g_other [OF 2(1), of P] show ?thesis unfolding ps' by auto
        qed
      qed
      show "distinct (chatIds P')" if "P' \<in> set (gpm_projects (assignChat page c p s))" for P'
        using that g_d unfolding ps' by auto
      show "(c' = ''__proto__'' \<and> map_of (gpm_chatMap (assignChat page c p s)) c' = None)
          \<or> (\<exists>m. map_of (gpm_chatMap (assignChat page c p s)) c' = Some m \<and> projectId m = id' P')"
        if P': "P' \<in> set (gpm_projects (assignChat page c p s))" and c': "c' \<in> set (chatIds P')"
        for P' c'
      proof -
        from P' obtain q where q: "q \<in> set ?ps" "P' = g q" unfolding ps' by auto
        show ?thesis
        proof (cases "c' = c")
          case True
          with c' q g_c [OF q(1)] show ?thesis unfolding cm' by (simp add: update_conv' e_def)
        next
          case False
          with c' q g_other [OF False, of q] have "c' \<in> set (chatIds q)" by simp
          from D(5) [OF q(1) this] False q(2) show ?thesis
            unfolding cm' by (simp add: update_conv')
        qed
      qed
    qed
  qed
qed

lemma set_delete_distinct:
  "(k', v') \<in> set (AList.delete k al) \<longleftrightarrow> k' \<noteq> k \<and> (k', v') \<in> set al"
  by (auto simp: delete_eq_filter)

lemma listingInvariant_cong:
  "gpm_projects s' = gpm_projects s \<Longrightarrow> gpm_chatMap s' = gpm_chatMap s \<Longrightarrow>
     listingInvariant s' = listingInvariant s"
  by (simp add: listingInvariant_def)

lemma listingInvariant_unassignChat:
  assumes inv: "listingInvariant s"
  shows "listingInvariant (unassignChat c s)"
proof (cases "map_of (gpm_chatMap s) c")
  case None
  then have "listingInvariant (unassignChat c s) = listingInvariant s"
    by (intro listingInvariant_cong)
       (simp_all add: unassignChat_def Let_def saveChatMap_def saveProjects_def)
  with inv show ?thesis by simp
next
  case (Some m)
  let ?ps = "gpm_projects s" and ?cm = "gpm_chatMap s"
  note D = listingInvariantD [OF inv]
  define g where "g = (\<lambda>q. if id' q = projectId m then removeChat c q else q)"
  have ps': "gpm_projects (unassignChat c s) = map g ?ps"
    using D(1) Some
    by (simp add: unassignChat_def Let_def saveChatMap_def saveProjects_def
          mutateFound_distinct_map g_def)
  have cm': "gpm_chatMap (unassignChat c s) = AList.delete c ?cm"
    using Some by (simp add: unassignChat_def Let_def saveChatMap_def saveProjects_def)
  have idg [simp]: "\<And>q. id' (g q) = id' q" by (simp add: g_def)
  have g_other: "\<And>q x. x \<noteq> c \<Longrightarrow> x \<in> set (chatIds (g q)) \<longleftrightarrow> x \<in> set (chatIds q)"
    by (auto simp: g_def)
  have g_c: "c \<notin> set (chatIds (g q))" if q: "q \<in> set ?ps" for q
  proof (cases "c \<in> set (chatIds q)")
    case True
    from D(5) [OF q True] Some have "id' q = projectId m" by auto
    then show ?thesis by (simp add: g_def)
  next
    case False
    then show ?thesis by (auto simp: g_def)
  qed
  have g_d: "\<And>q. q \<in> set ?ps \<Longrightarrow> distinct (chatIds (g q))"
    using D(4) by (auto simp: g_def)
  show ?thesis
  proof (rule listingInvariantI)
    show "distinct (map id' (gpm_projects (unassignChat c s)))"
      unfolding ps' using D(1) by (simp add: comp_def)
    show "distinct (map fst (gpm_chatMap (unassignChat c s)))"
      unfolding cm' using D(2) by (rule distinct_delete)
    show "\<exists>P \<in> set (gpm_projects (unassignChat c s)). id' P = projectId m' \<and> c' \<in> set (chatIds P)"
      if "(c', m') \<in> set (gpm_chatMap (unassignChat c s))" for c' m'
    proof -
      from that have c': "c' \<noteq> c" "(c', m') \<in> set ?cm"
        unfolding cm' by (simp_all add: set_delete_distinct)
      from D(3) [OF c'(2)] obtain P where "P \<in> set ?ps" "id' P = projectId m'" "c' \<in> set (chatIds P)"
        by blast
      with g_other [OF c'(1), of P] show ?thesis unfolding ps' by auto
    qed
    show "distinct (chatIds P')" if "P' \<in> set (gpm_projects (unassignChat c s))" for P'
      using that g_d unfolding ps' by auto
    show "(c' = ''__proto__'' \<and> map_of (gpm_chatMap (unassignChat c s)) c' = None)
        \<or> (\<exists>m. map_of (gpm_chatMap (unassignChat c s)) c' = Some m \<and> projectId m = id' P')"
      if P': "P' \<in> set (gpm_projects (unassignChat c s))" and c': "c' \<in> set (chatIds P')"
      for P' c'
    proof -
      from P' obtain q where q: "q \<in> set ?ps" "P' = g q" unfolding ps' by auto
      from c' q g_c [OF q(1)] have ne: "c' \<noteq> c" by auto
      with c' q g_other [OF ne, of q] have "c' \<in> set (chatIds q)" by simp
      from D(5) [OF q(1) this] ne q(2) show ?thesis
        unfolding cm' by (simp add: delete_conv')
    qed
  qed
qed

text \<open>Replacing a mapping by one with the same \<open>projectId\<close> keeps the invariant.\<close>

lemma listingInvariant_update_same_project:
  assumes inv: "listingInvariant s" and m: "map_of (gpm_chatMap s) c = Some m"
    and e: "projectId e = projectId m"
  shows "listingInvariant (saveChatMap (AList.update c e (gpm_chatMap s)) s)"
proof -
  let ?ps = "gpm_projects s" and ?cm = "gpm_chatMap s"
  let ?s' = "saveChatMap (AList.update c e ?cm) s"
  note D = listingInvariantD [OF inv]
  have ps': "gpm_projects ?s' = ?ps" and cm': "gpm_chatMap ?s' = AList.update c e ?cm"
    by (simp_all add: saveChatMap_def)
  have in_cm: "(c, m) \<in> set ?cm" using m by (rule map_of_SomeD)
  show ?thesis
  proof (rule listingInvariantI)
    show "distinct (map id' (gpm_projects ?s'))" unfolding ps' by (rule D(1))
    show "distinct (map fst (gpm_chatMap ?s'))" unfolding cm' using D(2) by (rule distinct_update)
    show "\<exists>P \<in> set (gpm_projects ?s'). id' P = projectId m' \<and> c' \<in> set (chatIds P)"
      if "(c', m') \<in> set (gpm_chatMap ?s')" for c' m'
    proof -
      from that D(2) consider "c' = c" "m' = e" | "(c', m') \<in> set ?cm"
        unfolding cm' by (auto simp: set_update_distinct)
      then show ?thesis
      proof cases
        case 1
        with D(3) [OF in_cm] e show ?thesis unfolding ps' by simp
      next
        case 2
        from D(3) [OF 2] show ?thesis unfolding ps' .
      qed
    qed
    show "distinct (chatIds P)" if "P \<in> set (gpm_projects ?s')" for P
      using that D(4) unfolding ps' by simp
    show "(c' = ''__proto__'' \<and> map_of (gpm_chatMap ?s') c' = None)
        \<or> (\<exists>m. map_of (gpm_chatMap ?s') c' = Some m \<and> projectId m = id' P)"
      if "P \<in> set (gpm_projects ?s')" "c' \<in> set (chatIds P)" for P c'
    proof -
      from that have "P \<in> set ?ps" unfolding ps' by simp
      from D(5) [OF this that(2)] m e show ?thesis
        unfolding cm' by (cases "c' = c") (auto simp: update_conv')
    qed
  qed
qed

lemma listingInvariant_saveChatMap_same:
  "listingInvariant (saveChatMap (gpm_chatMap s) s) = listingInvariant s"
  by (rule listingInvariant_cong) (simp_all add: saveChatMap_def)

lemma listingInvariant_setChatAlias:
  "listingInvariant s \<Longrightarrow> listingInvariant (setChatAlias page c a s)"
  by (auto simp: setChatAlias_def listingInvariant_saveChatMap_same split: option.splits
      intro: listingInvariant_update_same_project)

lemma listingInvariant_togglePinChat:
  "listingInvariant s \<Longrightarrow> listingInvariant (snd (togglePinChat page c s))"
  by (auto simp: togglePinChat_def listingInvariant_saveChatMap_same split: option.splits
      intro: listingInvariant_update_same_project)

lemma id_pushChild [simp]: "id' (pushChild c q) = id' q"
  by (simp add: pushChild_def)

lemma chatIds_pushChild [simp]: "chatIds (pushChild c q) = chatIds q"
  by (simp add: pushChild_def)

lemma id_removeChild [simp]: "id' (removeChild c q) = id' q"
  by (simp add: removeChild_def)

lemma chatIds_removeChild [simp]: "chatIds (removeChild c q) = chatIds q"
  by (simp add: removeChild_def)

lemma map_id_mutateFound:
  "(\<And>x. id' (f x) = id' x) \<Longrightarrow> map id' (mutateFound P f xs) = map id' xs"
  by (induction xs) auto

lemma map_chatIds_mutateFound:
  "(\<And>x. chatIds (f x) = chatIds x) \<Longrightarrow> map chatIds (mutateFound P f xs) = map chatIds xs"
  by (induction xs) auto

text \<open>
  The invariant only reads the \<open>id\<close> and the \<open>chatIds\<close> of the projects, in the order
  of the array.
\<close>

lemma map_mutateFound_invariant:
  "(\<And>x. h (f x) = h x) \<Longrightarrow> map h (mutateFound P f xs) = map h xs"
  by (induction xs) auto

lemma listingInvariant_reads:
  assumes "map (\<lambda>q. (id' q, chatIds q)) (gpm_projects s') = map (\<lambda>q. (id' q, chatIds q)) (gpm_projects s)"
    and "gpm_chatMap s' = gpm_chatMap s"
  shows "listingInvariant s' = listingInvariant s"
proof -
  let ?f = "\<lambda>q. (id' q, chatIds q)"
  have ids: "map id' (gpm_projects s') = map id' (gpm_projects s)"
    using arg_cong [OF assms(1), of "map fst"] by (simp add: comp_def)
  have sets: "?f ` set (gpm_projects s') = ?f ` set (gpm_projects s)"
    using arg_cong [OF assms(1), of set] by simp
  have mem: "(i, cs) \<in> ?f ` set ps \<longleftrightarrow> (\<exists>P \<in> set ps. id' P = i \<and> chatIds P = cs)" for i cs ps
    by auto
  have key: "(\<exists>P \<in> set (gpm_projects s'). id' P = i \<and> chatIds P = cs) \<longleftrightarrow>
             (\<exists>P \<in> set (gpm_projects s). id' P = i \<and> chatIds P = cs)" for i cs
    using mem [of i cs "gpm_projects s'"] mem [of i cs "gpm_projects s"] sets by simp
  have a: "(\<exists>P \<in> set (gpm_projects s'). id' P = i \<and> c \<in> set (chatIds P)) \<longleftrightarrow>
           (\<exists>P \<in> set (gpm_projects s). id' P = i \<and> c \<in> set (chatIds P))" for i c
    using key by metis
  have b: "(\<forall>P \<in> set (gpm_projects s'). R (id' P) (chatIds P)) \<longleftrightarrow>
           (\<forall>P \<in> set (gpm_projects s). R (id' P) (chatIds P))" for R
    using key by metis
  show ?thesis
    unfolding listingInvariant_def ids assms(2) a
    using b [of "\<lambda>i cs. distinct cs \<and> (\<forall>c\<in>set cs.
                   (c = ''__proto__'' \<and> map_of (gpm_chatMap s) c = None)
                 \<or> (\<exists>m. map_of (gpm_chatMap s) c = Some m \<and> projectId m = i))"]
    by simp
qed

lemma listingInvariant_createProject:
  assumes inv: "listingInvariant s" and fresh: "newId \<notin> id' ` set (gpm_projects s)"
  shows "listingInvariant (snd (createProject newId nm ic col par s))"
proof -
  let ?new = "newProject newId nm ic col par"
  let ?s1 = "s\<lparr>gpm_projects := gpm_projects s @ [?new]\<rparr>"
  have "listingInvariant (snd (createProject newId nm ic col par s)) = listingInvariant ?s1"
    by (rule listingInvariant_reads)
       (simp_all add: createProject_def Let_def saveProjects_def map_mutateFound_invariant)
  also have "\<dots>"
  proof (rule listingInvariantI)
    note D = listingInvariantD [OF inv]
    have ps': "gpm_projects ?s1 = gpm_projects s @ [?new]" and cm': "gpm_chatMap ?s1 = gpm_chatMap s"
      by simp_all
    have new: "id' ?new = newId" "chatIds ?new = []" by (simp_all add: newProject_def)
    show "distinct (map id' (gpm_projects ?s1))"
      unfolding ps' using D(1) fresh by (simp add: new)
    show "distinct (map fst (gpm_chatMap ?s1))" unfolding cm' by (rule D(2))
    show "\<exists>P \<in> set (gpm_projects ?s1). id' P = projectId m \<and> c \<in> set (chatIds P)"
      if "(c, m) \<in> set (gpm_chatMap ?s1)" for c m
      using that D(3) [of c m] unfolding ps' cm' by auto
    show "distinct (chatIds P)" if "P \<in> set (gpm_projects ?s1)" for P
      using that D(4) [of P] unfolding ps' by (auto simp: new)
    show "(c = ''__proto__'' \<and> map_of (gpm_chatMap ?s1) c = None)
        \<or> (\<exists>m. map_of (gpm_chatMap ?s1) c = Some m \<and> projectId m = id' P)"
      if "P \<in> set (gpm_projects ?s1)" "c \<in> set (chatIds P)" for P c
      using that D(5) [of P c] unfolding ps' cm' by (auto simp: new)
  qed
  finally show ?thesis .
qed

lemma map_detachFromParent:
  "map (\<lambda>q. (id' q, chatIds q)) (detachFromParent pid ps) = map (\<lambda>q. (id' q, chatIds q)) ps"
  by (simp add: detachFromParent_def map_mutateFound_invariant split: option.splits)

lemma listingInvariant_filter:
  assumes inv: "listingInvariant s"
  shows "listingInvariant (s\<lparr>gpm_projects := filter (\<lambda>p. id' p \<notin> D) (gpm_projects s),
                             gpm_chatMap := filter (\<lambda>(c, m). projectId m \<notin> D) (gpm_chatMap s)\<rparr>)"
    (is "listingInvariant ?s'")
proof -
  let ?ps = "gpm_projects s" and ?cm = "gpm_chatMap s"
  let ?cm' = "filter (\<lambda>(c, m). projectId m \<notin> D) ?cm"
  note I = listingInvariantD [OF inv]
  have ps': "gpm_projects ?s' = filter (\<lambda>p. id' p \<notin> D) ?ps" and cm': "gpm_chatMap ?s' = ?cm'"
    by simp_all
  have dcm': "distinct (map fst ?cm')" using I(2) by (rule distinct_map_filter)
  show ?thesis
  proof (rule listingInvariantI)
    show "distinct (map id' (gpm_projects ?s'))"
      unfolding ps' using I(1) by (rule distinct_map_filter)
    show "distinct (map fst (gpm_chatMap ?s'))" unfolding cm' by (rule dcm')
    show "\<exists>P \<in> set (gpm_projects ?s'). id' P = projectId m \<and> c \<in> set (chatIds P)"
      if "(c, m) \<in> set (gpm_chatMap ?s')" for c m
      using that I(3) [of c m] unfolding ps' cm' by auto
    show "distinct (chatIds P)" if "P \<in> set (gpm_projects ?s')" for P
      using that I(4) unfolding ps' by simp
    show "(c = ''__proto__'' \<and> map_of (gpm_chatMap ?s') c = None)
        \<or> (\<exists>m. map_of (gpm_chatMap ?s') c = Some m \<and> projectId m = id' P)"
      if P: "P \<in> set (gpm_projects ?s')" and c: "c \<in> set (chatIds P)" for P c
    proof -
      from P have P': "P \<in> set ?ps" "id' P \<notin> D" unfolding ps' by simp_all
      from I(5) [OF P'(1) c] show ?thesis
      proof
        assume "c = ''__proto__'' \<and> map_of ?cm c = None"
        then have proto: "c = ''__proto__''" and none: "map_of ?cm c = None" by blast+
        from none have "c \<notin> fst ` set ?cm" by (simp add: map_of_eq_None_iff)
        then have "c \<notin> fst ` set ?cm'" by auto
        then have "map_of ?cm' c = None" by (simp add: map_of_eq_None_iff)
        with proto show ?thesis unfolding cm' by blast
      next
        assume "\<exists>m. map_of ?cm c = Some m \<and> projectId m = id' P"
        then obtain m where m: "map_of ?cm c = Some m" "projectId m = id' P" by blast
        then have "(c, m) \<in> set ?cm'" using P'(2) by (auto dest: map_of_SomeD)
        with dcm' have "map_of ?cm' c = Some m" by simp
        with m(2) show ?thesis unfolding cm' by blast
      qed
    qed
  qed
qed

lemma listingInvariant_deleteProject:
  assumes inv: "listingInvariant s" and del: "deleteProject k pid s = Some s'"
  shows "listingInvariant s'"
proof -
  from del obtain D where D: "collectDescendants k (gpm_projects s) pid = Some D"
    and s': "s' = saveChatMap (dropMappings D (gpm_chatMap s))
                  (saveProjects
                     (filter (\<lambda>p. id' p \<notin> set D) (detachFromParent pid (gpm_projects s))) s)"
    by (auto simp: deleteProject_def split: option.splits)
  have dcm: "distinct (map fst (gpm_chatMap s))"
    using inv by (simp add: listingInvariant_def)
  let ?t = "s\<lparr>gpm_projects := filter (\<lambda>p. id' p \<notin> set D) (gpm_projects s),
               gpm_chatMap := filter (\<lambda>(c, m). projectId m \<notin> set D) (gpm_chatMap s)\<rparr>"
  have "map (\<lambda>q. (id' q, chatIds q)) (filter (\<lambda>p. id' p \<notin> set D) (detachFromParent pid (gpm_projects s)))
        = filter (\<lambda>x. fst x \<notin> set D) (map (\<lambda>q. (id' q, chatIds q)) (detachFromParent pid (gpm_projects s)))"
    by (simp add: filter_map comp_def)
  also have "\<dots> = map (\<lambda>q. (id' q, chatIds q)) (filter (\<lambda>p. id' p \<notin> set D) (gpm_projects s))"
    by (simp add: map_detachFromParent filter_map comp_def)
  finally have "listingInvariant s' = listingInvariant ?t"
    by (intro listingInvariant_reads)
       (simp_all add: s' saveChatMap_def saveProjects_def dropMappings_filter [OF dcm])
  with listingInvariant_filter [OF inv] show ?thesis by simp
qed

text \<open>
  \<open>updateProject\<close> with updates that leave \<open>id\<close> and \<open>chatIds\<close> alone.
\<close>

lemma objectAssign_reads:
  "set_id u = None \<Longrightarrow> set_chatIds u = None \<Longrightarrow>
     id' (objectAssign u q) = id' q \<and> chatIds (objectAssign u q) = chatIds q"
  by (simp add: objectAssign_def)

lemma listingInvariant_updateProject:
  assumes inv: "listingInvariant s" and u: "set_id u = None" "set_chatIds u = None"
  shows "listingInvariant (snd (updateProject d u s))"
proof (cases "find (\<lambda>p. id' p = d) (gpm_projects s)")
  case None
  with inv show ?thesis by (simp add: updateProject_def)
next
  case (Some target)
  have "listingInvariant (snd (updateProject d u s)) = listingInvariant s"
    by (rule listingInvariant_reads)
       (simp_all add: Some updateProject_def saveProjects_def map_mutateFound_invariant
          objectAssign_reads [OF u])
  with inv show ?thesis by simp
qed

text \<open>
  The quick prompts and the settings are other keys of the storage; \<open>clearAll\<close> empties
  both collections; \<open>importAll\<close> writes the collections that the document binds.
\<close>

lemma listingInvariant_quickPrompts:
  "listingInvariant (saveQuickPrompt newId ttl cnt cat s) = listingInvariant s"
  "listingInvariant (deleteQuickPrompt d s) = listingInvariant s"
  "listingInvariant (updateQuickPrompt d pu s) = listingInvariant s"
  "listingInvariant (saveSettings v s) = listingInvariant s"
  by (rule listingInvariant_cong;
      simp add: saveQuickPrompt_def deleteQuickPrompt_def updateQuickPrompt_def
        setQuickPrompts_def saveSettings_def)+

lemma listingInvariant_clearAllTyped: "listingInvariant (clearAllTyped s)"
  by (simp add: listingInvariant_def clearAllTyped_def)

lemma listingInvariant_importAllTyped:
  "doc_projects data = None \<Longrightarrow> doc_chatMap data = None \<Longrightarrow>
     listingInvariant (importAllTyped data s) = listingInvariant s"
  by (rule listingInvariant_cong;
      simp add: importAllTyped_def Let_def setQuickPrompts_def saveSettings_def
        split: option.splits)

section \<open>Claim C1: the invariant under the store operations\<close>

text \<open>
  Claim C1, as amended.  Take a store that satisfies \<open>storeInvariant\<close>: the invariant of
  the data model (every chatMap entry references an existing project whose \<open>chatIds\<close>
  contain the chat exactly once, and no other project lists the chat) together with
  \<open>listingInvariant\<close>.  Then, in every page, the store still satisfies it after
  \<^item> \<open>assignChat(c, p)\<close>, for every chat id \<open>c\<close> and every \<open>p\<close> that is the id of an existing
    project;
  \<^item> \<open>unassignChat\<close>, \<open>setChatAlias\<close> and \<open>togglePinChat\<close>;
  \<^item> \<open>createProject\<close>, when \<open>uid()\<close> returns an id that no project has;
  \<^item> \<open>updateProject\<close>, when the updates have no \<open>id\<close> and no \<open>chatIds\<close>;
  \<^item> \<open>deleteProject\<close> (which leaves the store as it is when it overflows the stack);
  \<^item> \<open>saveQuickPrompt\<close>, \<open>deleteQuickPrompt\<close>, \<open>updateQuickPrompt\<close> and \<open>saveSettings\<close>;
  \<^item> \<open>clearAll\<close>;
  \<^item> \<open>importAll\<close> of a document that binds neither \<open>gpm_projects\<close> nor \<open>gpm_chatMap\<close>, or
    that binds both to collections that satisfy the invariant.
\<close>

theorem store_invariant_preserved:
  fixes s :: "'a fullStore_scheme"
  assumes inv: "storeInvariant s"
  shows "((\<exists>P\<in>set (gpm_projects s). id' P = p) \<longrightarrow> storeInvariant (assignChat page c p s))
       \<and> storeInvariant (unassignChat c s)
       \<and> storeInvariant (setChatAlias page c a s)
       \<and> storeInvariant (snd (togglePinChat page c s))
       \<and> (newId \<notin> id' ` set (gpm_projects s) \<longrightarrow>
            storeInvariant (snd (createProject newId nm ic col par s)))
       \<and> (set_id u = None \<and> set_chatIds u = None \<longrightarrow> storeInvariant (snd (updateProject d u s)))
       \<and> storeInvariant (case deleteProject k d s of None \<Rightarrow> s | Some s' \<Rightarrow> s')
       \<and> storeInvariant (saveQuickPrompt qid ttl cnt cat s)
       \<and> storeInvariant (deleteQuickPrompt qid s)
       \<and> storeInvariant (updateQuickPrompt qid pu s)
       \<and> storeInvariant (saveSettings v s)
       \<and> storeInvariant (clearAllTyped s)
       \<and> (doc_projects data = None \<and> doc_chatMap data = None \<longrightarrow>
            storeInvariant (importAllTyped data s))
       \<and> (doc_projects data = Some ps \<and> doc_chatMap data = Some cm
            \<and> storeInvariant (s\<lparr>gpm_projects := ps, gpm_chatMap := cm\<rparr>) \<longrightarrow>
            storeInvariant (importAllTyped data s))"
proof -
  have li: "listingInvariant s" using inv by (simp add: storeInvariant_iff)
  have "(\<exists>P\<in>set (gpm_projects s). id' P = p) \<longrightarrow> storeInvariant (assignChat page c p s)"
    using listingInvariant_assignChat [OF li] by (simp add: storeInvariant_iff)
  moreover have "storeInvariant (unassignChat c s)"
    using li by (simp add: storeInvariant_iff listingInvariant_unassignChat)
  moreover have "storeInvariant (setChatAlias page c a s)"
    using li by (simp add: storeInvariant_iff listingInvariant_setChatAlias)
  moreover have "storeInvariant (snd (togglePinChat page c s))"
    using li by (simp add: storeInvariant_iff listingInvariant_togglePinChat)
  moreover have "newId \<notin> id' ` set (gpm_projects s) \<longrightarrow>
            storeInvariant (snd (createProject newId nm ic col par s))"
    using listingInvariant_createProject [OF li] by (simp add: storeInvariant_iff)
  moreover have "set_id u = None \<and> set_chatIds u = None \<longrightarrow>
            storeInvariant (snd (updateProject d u s))"
    using listingInvariant_updateProject [OF li] by (simp add: storeInvariant_iff)
  moreover have "storeInvariant (case deleteProject k d s of None \<Rightarrow> s | Some s' \<Rightarrow> s')"
    using li listingInvariant_deleteProject [OF li]
    by (cases "deleteProject k d s") (simp_all add: storeInvariant_iff)
  moreover have "storeInvariant (saveQuickPrompt qid ttl cnt cat s)"
    and "storeInvariant (deleteQuickPrompt qid s)"
    and "storeInvariant (updateQuickPrompt qid pu s)"
    and "storeInvariant (saveSettings v s)"
    using li by (simp_all add: storeInvariant_iff listingInvariant_quickPrompts)
  moreover have "storeInvariant (clearAllTyped s)"
    by (simp add: storeInvariant_iff listingInvariant_clearAllTyped)
  moreover have "doc_projects data = None \<and> doc_chatMap data = None \<longrightarrow>
            storeInvariant (importAllTyped data s)"
    using li by (simp add: storeInvariant_iff listingInvariant_importAllTyped)
  moreover have "doc_projects data = Some ps \<and> doc_chatMap data = Some cm
            \<and> storeInvariant (s\<lparr>gpm_projects := ps, gpm_chatMap := cm\<rparr>) \<longrightarrow>
            storeInvariant (importAllTyped data s)"
  proof (intro impI, elim conjE)
    assume d: "doc_projects data = Some ps" "doc_chatMap data = Some cm"
      and i: "storeInvariant (s\<lparr>gpm_projects := ps, gpm_chatMap := cm\<rparr>)"
    have "listingInvariant (importAllTyped data s) =
            listingInvariant (s\<lparr>gpm_projects := ps, gpm_chatMap := cm\<rparr>)"
      by (rule listingInvariant_cong;
          simp add: d importAllTyped_def Let_def setQuickPrompts_def saveSettings_def
            saveProjects_def saveChatMap_def split: option.splits)
    with i show "storeInvariant (importAllTyped data s)" by (simp add: storeInvariant_iff)
  qed
  ultimately show ?thesis by (intro conjI)
qed

theorem store_invariant_preserved_witness:
  "storeInvariant library
   \<and> (\<exists>P\<in>set (gpm_projects library). id' P = ''p2'')
   \<and> gpm_projects (assignChat pageRealm ''c1'' ''p2'' library) =
       [mkProject ''p1'' None [] [''c2''], mkProject ''p2'' None [] [''c1'']]
   \<and> gpm_chatMap (assignChat pageRealm ''c1'' ''p2'' library) =
       [(''c1'', mkMapping ''p2''), (''c2'', mkMapping ''p1'')]
   \<and> storeInvariant (assignChat pageRealm ''c1'' ''p2'' library)
   \<and> chatInvariant (assignChat pageRealm ''c1'' ''p2'' library)
   \<and> gpm_projects (assignChat pageRealm ''__proto__'' ''p2'' library) =
       [mkProject ''p1'' None [] [''c1'', ''c2''], mkProject ''p2'' None [] [''__proto__'']]
   \<and> gpm_chatMap (assignChat pageRealm ''__proto__'' ''p2'' library) =
       [(''c1'', mkMapping ''p1''), (''c2'', mkMapping ''p1'')]
   \<and> storeInvariant (assignChat pageRealm ''__proto__'' ''p2'' library)
   \<and> ''p3'' \<notin> id' ` set (gpm_projects library)
   \<and> storeInvariant (snd (createProject ''p3'' ''Drafts'' None None (Some ''p2'') library))
   \<and> set_id collapse = None \<and> set_chatIds collapse = None
   \<and> storeInvariant (snd (updateProject ''p2'' collapse library))
   \<and> storeInvariant (the (deleteProject 1 ''p1'' library))
   \<and> doc_projects settingsDocument = None \<and> doc_chatMap settingsDocument = None
   \<and> storeInvariant (importAllTyped settingsDocument library)
   \<and> storeInvariant
        (library\<lparr>gpm_projects := [mkProject ''p5'' None [] [''c5'']],
                 gpm_chatMap := [(''c5'', mkMapping ''p5'')]\<rparr>)
   \<and> storeInvariant (importAllTyped restoreDocument library)"
proof -
  have "listingInvariant library"
    by (simp add: listingInvariant_def library_def mkProject_def mkMapping_def)
  then have h1: "storeInvariant library" by (simp add: storeInvariant_iff)
  have h2: "\<exists>P\<in>set (gpm_projects library). id' P = ''p2''"
    by (simp add: library_def mkProject_def)
  have r: "gpm_projects (assignChat pageRealm ''c1'' ''p2'' library) =
       [mkProject ''p1'' None [] [''c2''], mkProject ''p2'' None [] [''c1'']]"
    "gpm_chatMap (assignChat pageRealm ''c1'' ''p2'' library) =
       [(''c1'', mkMapping ''p2''), (''c2'', mkMapping ''p1'')]"
    by (simp_all add: library_def mkProject_def mkMapping_def assignChat_def Let_def
          saveProjects_def saveChatMap_def pushChat_def removeChat_def assignKey_def)
  from store_invariant_preserved [OF h1, of "''p2''" pageRealm "''c1''"] h2
  have s: "storeInvariant (assignChat pageRealm ''c1'' ''p2'' library)" by blast
  then have c: "chatInvariant (assignChat pageRealm ''c1'' ''p2'' library)"
    by (simp add: storeInvariant_def)
  have r': "gpm_projects (assignChat pageRealm ''__proto__'' ''p2'' library) =
       [mkProject ''p1'' None [] [''c1'', ''c2''], mkProject ''p2'' None [] [''__proto__'']]"
    "gpm_chatMap (assignChat pageRealm ''__proto__'' ''p2'' library) =
       [(''c1'', mkMapping ''p1''), (''c2'', mkMapping ''p1'')]"
    by (simp_all add: library_def mkProject_def mkMapping_def assignChat_def Let_def
          saveProjects_def saveChatMap_def pushChat_def removeChat_def assignKey_def)
  from store_invariant_preserved [OF h1, of "''p2''" pageRealm "''__proto__''"] h2
  have s': "storeInvariant (assignChat pageRealm ''__proto__'' ''p2'' library)" by blast
  have h3: "''p3'' \<notin> id' ` set (gpm_projects library)"
    by (simp add: library_def mkProject_def)
  from store_invariant_preserved [OF h1, where newId = "''p3''" and nm = "''Drafts''"
      and ic = None and col = None and par = "Some ''p2''"] h3
  have s3: "storeInvariant (snd (createProject ''p3'' ''Drafts'' None None (Some ''p2'') library))"
    by blast
  have h4: "set_id collapse = None" "set_chatIds collapse = None"
    by (simp_all add: collapse_def)
  from store_invariant_preserved [OF h1, where u = collapse and d = "''p2''"] h4
  have s4: "storeInvariant (snd (updateProject ''p2'' collapse library))"
    by blast
  have "deleteProject 1 ''p1'' library \<noteq> None"
    by (simp add: library_def mkProject_def deleteProject_def)
  then obtain t where t: "deleteProject 1 ''p1'' library = Some t" by blast
  from store_invariant_preserved [OF h1, where k = 1 and d = "''p1''"] t
  have s5: "storeInvariant (the (deleteProject 1 ''p1'' library))"
    by simp
  have h6: "doc_projects settingsDocument = None" "doc_chatMap settingsDocument = None"
    by (simp_all add: settingsDocument_def)
  from store_invariant_preserved [OF h1, where data = settingsDocument] h6
  have s6: "storeInvariant (importAllTyped settingsDocument library)"
    by blast
  have "listingInvariant
        (library\<lparr>gpm_projects := [mkProject ''p5'' None [] [''c5'']],
                 gpm_chatMap := [(''c5'', mkMapping ''p5'')]\<rparr>)"
    by (simp add: listingInvariant_def library_def mkProject_def mkMapping_def)
  then have h7: "storeInvariant
        (library\<lparr>gpm_projects := [mkProject ''p5'' None [] [''c5'']],
                 gpm_chatMap := [(''c5'', mkMapping ''p5'')]\<rparr>)"
    by (simp add: storeInvariant_iff)
  have h8: "doc_projects restoreDocument = Some [mkProject ''p5'' None [] [''c5'']]"
    "doc_chatMap restoreDocument = Some [(''c5'', mkMapping ''p5'')]"
    by (simp_all add: restoreDocument_def)
  from store_invariant_preserved [OF h1, where data = restoreDocument
      and ps = "[mkProject ''p5'' None [] [''c5'']]" and cm = "[(''c5'', mkMapping ''p5'')]"] h7 h8
  have s7: "storeInvariant (importAllTyped restoreDocument library)"
    by blast
  from h1 h2 r s c r' s' h3 s3 h4 s4 s5 h6 s6 h7 s7 show ?thesis by (intro conjI)
qed

text \<open>
  Claim C1 as stated fails for a project id that matches no project: in the empty
  store the invariant holds, and \<open>assignChat\<close> writes a mapping whose \<open>projectId\<close>
  references nothing.  The invariant of the data model alone is not preserved for an
  existing project either, since it says nothing about a chat that a project lists
  without a mapping: when \<open>p1\<close> lists the unmapped \<open>c1\<close>, both \<open>p1\<close> and \<open>p2\<close> list it after
  \<open>assignChat(c1, p2)\<close>.  And the operations that store what they are given store
  anything: \<open>updateProject\<close> with the updates \<open>{ chatIds: [] }\<close> takes the mapped chats out
  of \<open>p1\<close>, with the updates \<open>{ id: 'p9' }\<close> it leaves them mapped to a project that is
  gone, \<open>importAll\<close> and \<open>saveChatMap\<close> store a mapping to a project that does not exist,
  \<open>saveProjects\<close> stores an array without the project of a mapping.
  Last, when two projects have the same id, \<open>assignChat\<close> finds the first of them: the
  chat that the second lists is then listed by both.
\<close>

theorem assignChat_dangling_counterexample:
  "chatInvariant emptyStore
   \<and> \<not> chatInvariant (assignChat pageRealm ''c1'' ''ghost'' emptyStore)
   \<and> chatInvariant listedUnmappedTwo
   \<and> \<not> chatInvariant (assignChat pageRealm ''c1'' ''p2'' listedUnmappedTwo)
   \<and> chatInvariant library
   \<and> \<not> chatInvariant (snd (updateProject ''p1'' clearChatIds library))
   \<and> \<not> chatInvariant (snd (updateProject ''p1'' renameProject library))
   \<and> chatInvariant emptyFullStore
   \<and> \<not> chatInvariant (importAllTyped danglingDocument emptyFullStore)
   \<and> \<not> chatInvariant (saveChatMap [(''c1'', mkMapping ''ghost'')] emptyStore)
   \<and> \<not> chatInvariant (saveProjects [] library)
   \<and> chatInvariant sameIdTwice
   \<and> \<not> chatInvariant (assignChat pageRealm ''c1'' ''p1'' sameIdTwice)"
proof -
  have 1: "chatInvariant emptyStore"
    and 2: "\<not> chatInvariant (assignChat pageRealm ''c1'' ''ghost'' emptyStore)"
    by (simp_all add: chatInvariant_def emptyStore_def assignChat_def Let_def saveProjects_def
          saveChatMap_def assignKey_def)
  have 3: "chatInvariant listedUnmappedTwo"
    by (simp add: chatInvariant_def listedUnmappedTwo_def)
  have 4: "\<not> chatInvariant (assignChat pageRealm ''c1'' ''p2'' listedUnmappedTwo)"
    by (simp add: chatInvariant_def listedUnmappedTwo_def mkProject_def assignChat_def Let_def
          saveProjects_def saveChatMap_def pushChat_def assignKey_def nth_Cons' less_Suc_eq
          all_conj_distrib ex_disj_distrib)
  have "listingInvariant library"
    by (simp add: listingInvariant_def library_def mkProject_def mkMapping_def)
  then have 5: "chatInvariant library" by (rule listingInvariant_chatInvariant)
  have 6: "\<not> chatInvariant (snd (updateProject ''p1'' clearChatIds library))"
    by (simp add: chatInvariant_def library_def mkProject_def mkMapping_def updateProject_def
          objectAssign_def clearChatIds_def saveProjects_def nth_Cons' less_Suc_eq
          all_conj_distrib ex_disj_distrib)
  have 7: "chatInvariant emptyFullStore"
    by (simp add: chatInvariant_def emptyFullStore_def)
  have 8: "\<not> chatInvariant (importAllTyped danglingDocument emptyFullStore)"
    by (simp add: chatInvariant_def emptyFullStore_def danglingDocument_def importAllTyped_def
          Let_def saveChatMap_def)
  have 9: "\<not> chatInvariant (saveChatMap [(''c1'', mkMapping ''ghost'')] emptyStore)"
    by (simp add: chatInvariant_def emptyStore_def saveChatMap_def)
  have 10: "\<not> chatInvariant (snd (updateProject ''p1'' renameProject library))"
    by (simp add: chatInvariant_def library_def mkProject_def mkMapping_def updateProject_def
          objectAssign_def renameProject_def saveProjects_def nth_Cons' less_Suc_eq
          all_conj_distrib ex_disj_distrib)
  have 11: "chatInvariant sameIdTwice"
    by (simp add: chatInvariant_def sameIdTwice_def mkProject_def mkMapping_def nth_Cons'
          less_Suc_eq all_conj_distrib ex_disj_distrib)
  have 12: "\<not> chatInvariant (assignChat pageRealm ''c1'' ''p1'' sameIdTwice)"
    by (simp add: chatInvariant_def sameIdTwice_def mkProject_def mkMapping_def assignChat_def
          Let_def saveProjects_def saveChatMap_def pushChat_def removeChat_def assignKey_def
          nth_Cons' less_Suc_eq all_conj_distrib ex_disj_distrib)
  have 13: "\<not> chatInvariant (saveProjects [] library)"
    by (simp add: chatInvariant_def library_def saveProjects_def)
  from 1 2 3 4 5 6 10 7 8 9 13 11 12 show ?thesis by (intro conjI)
qed

text \<open>
  What the operations on the chatMap do to the store \<open>library\<close>, in the page as the
  browser creates it.  \<open>constructor\<close> and \<open>__proto__\<close> are no keys of its chatMap, but a
  plain object inherits them: \<open>setChatAlias\<close> and \<open>togglePinChat\<close> write to what they
  find there and save the chatMap as it was; for a chat id that reads as \<open>undefined\<close>
  they do nothing.
\<close>

lemma chat_operations_at_library:
  "gpm_projects (unassignChat ''c1'' library) =
     [mkProject ''p1'' None [] [''c2''], mkProject ''p2'' None [] []]"
  "gpm_chatMap (unassignChat ''c1'' library) = [(''c2'', mkMapping ''p1'')]"
  "gpm_chatMap (setChatAlias pageRealm ''c1'' ''Ideas'' library) =
     [(''c1'', \<lparr>projectId = ''p1'', alias' = ''Ideas'', pinned = True\<rparr>), (''c2'', mkMapping ''p1'')]"
  "fst (togglePinChat pageRealm ''c1'' library) = Some False"
  "gpm_chatMap (snd (togglePinChat pageRealm ''c1'' library)) =
     [(''c1'', \<lparr>projectId = ''p1'', alias' = ''Notes'', pinned = False\<rparr>), (''c2'', mkMapping ''p1'')]"
  "setChatAlias pageRealm ''constructor'' ''Ideas'' library = library\<lparr>sent := 1\<rparr>"
  "togglePinChat pageRealm ''__proto__'' library = (Some True, library\<lparr>sent := 1\<rparr>)"
  "setChatAlias pageRealm ''c9'' ''Ideas'' library = library"
  "togglePinChat pageRealm ''c9'' library = (Some False, library)"
  "gpm_chatMap (assignChat pageRealm ''constructor'' ''p2'' library) =
     [(''c1'', mkMapping ''p1''), (''c2'', mkMapping ''p1''),
      (''constructor'', \<lparr>projectId = ''p2'', alias' = [], pinned = False\<rparr>)]"
  by (simp_all add: library_def mkProject_def mkMapping_def unassignChat_def setChatAlias_def
        togglePinChat_def assignChat_def assignKey_def Let_def saveProjects_def saveChatMap_def
        removeChat_def pushChat_def pageRealm_def objectPrototypeNames_def)

text \<open>The other operations, on the same store.\<close>

lemma project_operations_at_library:
  "gpm_projects (snd (createProject ''p3'' ''Drafts'' None None (Some ''p2'') library)) =
     [mkProject ''p1'' None [] [''c1'', ''c2''], mkProject ''p2'' None [''p3''] [],
      \<lparr>id' = ''p3'', name = ''Drafts'', icon = defaultIcon, color = ''#8ab4f8'',
       parentId = Some ''p2'', children = [], chatIds = [], collapsed = False, order = None\<rparr>]"
  "gpm_projects (snd (updateProject ''p2'' collapse library)) =
     [mkProject ''p1'' None [] [''c1'', ''c2''], (mkProject ''p2'' None [] [])\<lparr>collapsed := True\<rparr>]"
  "fst (updateProject ''p7'' collapse library) = None"
  "snd (updateProject ''p7'' collapse library) = library"
  "map_option gpm_projects (deleteProject 1 ''p1'' library) = Some [mkProject ''p2'' None [] []]"
  "map_option gpm_chatMap (deleteProject 1 ''p1'' library) = Some []"
  "deleteProject 0 ''p1'' library = None"
  by (simp_all add: library_def mkProject_def mkMapping_def createProject_def newProject_def
        pushChild_def updateProject_def objectAssign_def collapse_def deleteProject_def
        dropMappings_def detachFromParent_def Let_def saveProjects_def saveChatMap_def)

lemma other_operations_at_library:
  "gpm_quickPrompts (saveQuickPrompt ''q2'' ''Translate'' ''Translate to English.'' None library) =
     [\<lparr>promptId = ''q1'', title = ''Summary'', content = ''Summarise this chat.'',
       category = ''General''\<rparr>,
      \<lparr>promptId = ''q2'', title = ''Translate'', content = ''Translate to English.'',
       category = ''General''\<rparr>]"
  "gpm_quickPrompts (deleteQuickPrompt ''q1'' library) = []"
  "gpm_settings (saveSettings \<lparr>lang = ''tr'', theme = ''dark''\<rparr> library) =
     \<lparr>lang = ''tr'', theme = ''dark''\<rparr>"
  "clearAllTyped library = emptyFullStore"
  "importAllTyped danglingDocument library =
     library\<lparr>gpm_chatMap := [(''c1'', mkMapping ''ghost'')], sent := 1\<rparr>"
  by (simp_all add: library_def emptyFullStore_def saveQuickPrompt_def deleteQuickPrompt_def
        setQuickPrompts_def saveSettings_def clearAllTyped_def importAllTyped_def
        danglingDocument_def Let_def saveChatMap_def)

section \<open>Claim C2: deleteProject on a tree\<close>

lemma distinct_id_eq:
  "distinct (map id' ps) \<Longrightarrow> p \<in> set ps \<Longrightarrow> q \<in> set ps \<Longrightarrow> id' p = id' q \<Longrightarrow> p = q"
  by (auto simp: distinct_map dest: inj_onD)

lemma find_distinct_id:
  "distinct (map id' ps) \<Longrightarrow> find (\<lambda>p. id' p = x) ps = Some node \<longleftrightarrow> node \<in> set ps \<and> id' node = x"
  by (induction ps) (auto simp: image_iff)

lemma find_None_id: "find (\<lambda>p. id' p = x) ps = None \<longleftrightarrow> x \<notin> id' ` set ps"
  by (induction ps) auto

lemma descendants_unfold:
  "descendants ps pid = insert pid (\<Union>c \<in> {c. (c, pid) \<in> childRel ps}. descendants ps c)"
proof -
  have "(d, pid) \<in> (childRel ps)\<^sup>* \<longleftrightarrow> d = pid \<or> (\<exists>c. (c, pid) \<in> childRel ps \<and> (d, c) \<in> (childRel ps)\<^sup>*)" for d
    by (metis rtrancl.cases rtrancl.rtrancl_into_rtrancl rtrancl.rtrancl_refl)
  then show ?thesis unfolding descendants_def by auto
qed

lemma childRel_found:
  assumes "distinct (map id' ps)" "find (\<lambda>p. id' p = pid) ps = Some node"
  shows "{c. (c, pid) \<in> childRel ps} = set (children node)"
  using assms
  by (auto simp: childRel_def find_distinct_id dest: distinct_id_eq)

lemma childRel_not_found:
  assumes "find (\<lambda>p. id' p = pid) ps = None"
  shows "{c. (c, pid) \<in> childRel ps} = {}"
  using assms by (auto simp: childRel_def find_None_id)

lemma collectChildren_correct:
  assumes "\<forall>c \<in> set cs. \<exists>D. collectDescendants k ps c = Some D \<and> set D = descendants ps c"
  shows "\<exists>D. collectChildren k ps cs acc = Some D
              \<and> set D = set acc \<union> (\<Union>c \<in> set cs. descendants ps c)"
  using assms
proof (induction cs arbitrary: acc)
  case Nil
  then show ?case by simp
next
  case (Cons c cs)
  then obtain D where D: "collectDescendants k ps c = Some D" "set D = descendants ps c"
    by auto
  from Cons.prems have "\<forall>c \<in> set cs. \<exists>D. collectDescendants k ps c = Some D \<and> set D = descendants ps c"
    by simp
  from Cons.IH [OF this, of "acc @ D"] D show ?case by auto
qed

text \<open>
  With more stack frames than the height of the project, the traversal returns, and
  it returns the descendant closure.
\<close>

lemma collectDescendants_correct:
  assumes d: "distinct (map id' ps)"
    and h: "\<forall>p \<in> set ps. \<forall>c \<in> set (children p). height c < height (id' p)"
  shows "height pid < k \<Longrightarrow>
           \<exists>D. collectDescendants k ps pid = Some D \<and> set D = descendants ps pid"
proof (induction k arbitrary: pid)
  case 0
  then show ?case by simp
next
  case (Suc k)
  show ?case
  proof (cases "find (\<lambda>p. id' p = pid) ps")
    case None
    then show ?thesis
      using descendants_unfold [of ps pid] by (simp add: childRel_not_found)
  next
    case (Some node)
    with d have node: "node \<in> set ps" "id' node = pid"
      by (simp_all add: find_distinct_id)
    have "\<forall>c \<in> set (children node). height c < k"
      using h node Suc.prems by fastforce
    then have "\<forall>c \<in> set (children node).
                 \<exists>D. collectDescendants k ps c = Some D \<and> set D = descendants ps c"
      using Suc.IH by blast
    from collectChildren_correct [OF this, of "[pid]"]
    obtain D where D: "collectChildren k ps (children node) [pid] = Some D"
      "set D = set [pid] \<union> (\<Union>c \<in> set (children node). descendants ps c)"
      by blast
    have "descendants ps pid = insert pid (\<Union>c \<in> set (children node). descendants ps c)"
      using descendants_unfold [of ps pid] childRel_found [OF d Some] by simp
    with D Some show ?thesis by simp
  qed
qed

lemma detachFromParent_distinct:
  assumes d: "distinct (map id' ps)" and T: "T \<in> set ps" "id' T = pid"
  shows "detachFromParent pid ps =
           (if truthyStr (parentId T)
            then map (\<lambda>q. if Some (id' q) = parentId T then removeChild pid q else q) ps
            else ps)"
proof -
  have "find (\<lambda>p. id' p = pid) ps = Some T"
    using d T by (simp add: find_distinct_id)
  then show ?thesis
    using d by (cases "parentId T") (auto simp: detachFromParent_def mutateFound_distinct_map)
qed


lemma store_eq:
  "gpm_projects s = ps \<Longrightarrow> gpm_chatMap s = cm \<Longrightarrow> sent s = n \<Longrightarrow>
     (s::store) = \<lparr>gpm_projects = ps, gpm_chatMap = cm, sent = n\<rparr>"
  by (cases s) simp

text \<open>
  Claim C2.  Let the projects of the store form a tree, let \<open>pid\<close> be the id of a
  project \<open>T\<close> of it, and let the stack be deeper than the height of \<open>pid\<close>.  Then
  \<open>deleteProject(pid)\<close> returns, and the set \<open>D\<close> that it deletes is exactly \<open>pid\<close> and
  its transitive descendants.  In the store that it leaves,
  \<^item> the projects are those whose id is not in the descendant closure, in their order;
    each is the record that it was, except the parent of \<open>T\<close>, whose \<open>children\<close> are
    its former \<open>children\<close> without \<open>pid\<close>;
  \<^item> the chatMap is that of the mappings whose \<open>projectId\<close> is not in the descendant
    closure, each as it was;
  \<^item> two messages were sent;
  \<^item> no project lists \<open>pid\<close> as a child.
\<close>

theorem deleteProject_tree:
  assumes tree: "treeShaped height (gpm_projects s)"
    and keys: "distinct (map fst (gpm_chatMap s))"
    and T: "T \<in> set (gpm_projects s)" "id' T = pid"
    and stack: "height pid < k"
  shows "\<exists>D s'. collectDescendants k (gpm_projects s) pid = Some D
           \<and> set D = descendants (gpm_projects s) pid
           \<and> deleteProject k pid s = Some s'
           \<and> s' = \<lparr>gpm_projects =
                      map (\<lambda>q. if Some (id' q) = parentId T
                                then q\<lparr>children := filter (\<lambda>c. c \<noteq> pid) (children q)\<rparr> else q)
                        (filter (\<lambda>q. id' q \<notin> descendants (gpm_projects s) pid) (gpm_projects s)),
                    gpm_chatMap =
                      filter (\<lambda>(c, m). projectId m \<notin> descendants (gpm_projects s) pid)
                        (gpm_chatMap s),
                    sent = sent s + 2\<rparr>
           \<and> (\<forall>q \<in> set (gpm_projects s'). pid \<notin> set (children q))"
proof -
  let ?ps = "gpm_projects s"
  let ?detach = "\<lambda>q. if Some (id' q) = parentId T
                      then q\<lparr>children := filter (\<lambda>c. c \<noteq> pid) (children q)\<rparr> else q"
  have d: "distinct (map id' ?ps)"
    and ne: "\<forall>p \<in> set ?ps. id' p \<noteq> []"
    and kids: "\<forall>p \<in> set ?ps. \<forall>c \<in> set (children p). \<exists>q \<in> set ?ps. id' q = c \<and> parentId q = Some (id' p)"
    and h: "\<forall>p \<in> set ?ps. \<forall>c \<in> set (children p). height c < height (id' p)"
    using tree by (simp_all add: treeShaped_def)
  from collectDescendants_correct [OF d h stack]
  obtain D where D: "collectDescendants k ?ps pid = Some D" "set D = descendants ?ps pid"
    by blast
  let ?ps' = "map ?detach (filter (\<lambda>q. id' q \<notin> set D) ?ps)"
  let ?s' = "\<lparr>gpm_projects = ?ps',
              gpm_chatMap = filter (\<lambda>(c, m). projectId m \<notin> set D) (gpm_chatMap s),
              sent = sent s + 2\<rparr>"
  have detach: "filter (\<lambda>p. id' p \<notin> set D) (detachFromParent pid ?ps) = ?ps'"
  proof (cases "truthyStr (parentId T)")
    case True
    then show ?thesis
      by (simp add: detachFromParent_distinct [OF d T] filter_map comp_def if_distrib [of id']
            removeChild_def cong: if_cong)
  next
    case False
    have "?detach q = q" if "q \<in> set ?ps" for q
      using False ne that by (cases "parentId T") auto
    then have "?ps' = filter (\<lambda>q. id' q \<notin> set D) ?ps"
      by (intro map_idI) simp
    with False show ?thesis
      by (simp add: detachFromParent_distinct [OF d T])
  qed
  have del: "deleteProject k pid s = Some ?s'"
    using D(1) detach
    by (simp add: deleteProject_def dropMappings_filter [OF keys] saveChatMap_def
          saveProjects_def store_eq)
  have gone: "pid \<notin> set (children q')" if q': "q' \<in> set ?ps'" for q'
  proof
    assume in': "pid \<in> set (children q')"
    from q' obtain q where q: "q \<in> set ?ps" "q' = ?detach q" by auto
    from in' q have "pid \<in> set (children q)"
      by (auto split: if_splits)
    with kids q(1) obtain T' where "T' \<in> set ?ps" "id' T' = pid" "parentId T' = Some (id' q)"
      by blast
    with distinct_id_eq [OF d, of T' T] T have "parentId T = Some (id' q)" by auto
    with q(2) in' show False by simp
  qed
  from D del gone show ?thesis unfolding D(2) [symmetric] by auto
qed

theorem deleteProject_tree_witness:
  "treeShaped nestedHeight (gpm_projects nested)
   \<and> distinct (map fst (gpm_chatMap nested))
   \<and> mkProject ''child'' (Some ''root'') [''grandchild''] [''b''] \<in> set (gpm_projects nested)
   \<and> nestedHeight ''child'' < 2
   \<and> descendants (gpm_projects nested) ''child'' = {''child'', ''grandchild''}
   \<and> deleteProject 2 ''child'' nested =
       Some \<lparr>gpm_projects =
               [mkProject ''root'' None [''sibling''] [''a''],
                mkProject ''sibling'' (Some ''root'') [] [''s''],
                mkProject ''other'' None [] [''d'']],
             gpm_chatMap =
               [(''a'', mkMapping ''root''), (''d'', mkMapping ''other''),
                (''s'', mkMapping ''sibling'')],
             sent = 2\<rparr>"
proof -
  let ?T = "mkProject ''child'' (Some ''root'') [''grandchild''] [''b'']"
  have h1: "treeShaped nestedHeight (gpm_projects nested)"
    by (simp add: treeShaped_def nested_def mkProject_def nestedHeight_def)
  have h2: "distinct (map fst (gpm_chatMap nested))"
    by (simp add: nested_def)
  have h3: "?T \<in> set (gpm_projects nested)"
    by (simp add: nested_def)
  have h4: "id' ?T = ''child''"
    by (simp add: mkProject_def)
  have h5: "nestedHeight ''child'' < 2"
    by (simp add: nestedHeight_def)
  have c: "collectDescendants 2 (gpm_projects nested) ''child'' = Some [''child'', ''grandchild'']"
    by (simp add: nested_def mkProject_def numeral_2_eq_2)
  from deleteProject_tree [OF h1 h2 h3 h4 h5]
  obtain D s' where D: "collectDescendants 2 (gpm_projects nested) ''child'' = Some D"
    and desc: "set D = descendants (gpm_projects nested) ''child''"
    and del: "deleteProject 2 ''child'' nested = Some s'"
    and s': "s' = \<lparr>gpm_projects =
                      map (\<lambda>q. if Some (id' q) = parentId ?T
                                then q\<lparr>children := filter (\<lambda>c. c \<noteq> ''child'') (children q)\<rparr> else q)
                        (filter (\<lambda>q. id' q \<notin> descendants (gpm_projects nested) ''child'')
                           (gpm_projects nested)),
                    gpm_chatMap =
                      filter (\<lambda>(c, m). projectId m \<notin> descendants (gpm_projects nested) ''child'')
                        (gpm_chatMap nested),
                    sent = sent nested + 2\<rparr>"
    by blast
  from D c have D': "D = [''child'', ''grandchild'']" by simp
  have r1: "descendants (gpm_projects nested) ''child'' = {''child'', ''grandchild''}"
    using desc unfolding D' by simp
  have "s' = \<lparr>gpm_projects =
               [mkProject ''root'' None [''sibling''] [''a''],
                mkProject ''sibling'' (Some ''root'') [] [''s''],
                mkProject ''other'' None [] [''d'']],
             gpm_chatMap =
               [(''a'', mkMapping ''root''), (''d'', mkMapping ''other''),
                (''s'', mkMapping ''sibling'')],
             sent = 2\<rparr>"
    unfolding s' r1 by (simp add: nested_def mkProject_def mkMapping_def)
  with del have r2: "deleteProject 2 ''child'' nested =
       Some \<lparr>gpm_projects =
               [mkProject ''root'' None [''sibling''] [''a''],
                mkProject ''sibling'' (Some ''root'') [] [''s''],
                mkProject ''other'' None [] [''d'']],
             gpm_chatMap =
               [(''a'', mkMapping ''root''), (''d'', mkMapping ''other''),
                (''s'', mkMapping ''sibling'')],
             sent = 2\<rparr>"
    by simp
  from h1 h2 h3 h5 r1 r2 show ?thesis by (intro conjI)
qed

section \<open>Claim C9: createProject with an unresolved parent\<close>

lemma mutateFound_none: "\<forall>x \<in> set xs. \<not> P x \<Longrightarrow> mutateFound P f xs = xs"
  by (induction xs) auto

lemma rendered_parent:
  assumes "p \<in> rendered ps"
  shows "\<not> truthyStr (parentId p) \<or> (\<exists>q \<in> set ps. parentId p = Some (id' q))"
  using assms
proof cases
  case root
  then show ?thesis by (simp add: getRootProjects_def)
next
  case (child q)
  have "q \<in> set ps" using child(1)
    by cases (simp_all add: getRootProjects_def getChildren_def)
  with child(2) show ?thesis by (auto simp: getChildren_def)
qed

text \<open>
  Claim C9, as amended.  Let \<open>par\<close> be a non-empty string that is the id of no project
  of the store, and different from the id that \<open>uid()\<close> generates.  Then
  \<open>createProject\<close> appends the new record, with \<open>parentId = par\<close>, and leaves every
  existing project as it is; the new record is not among the root projects, is no
  child of any project, and gets no row in the rendered tree.
\<close>

theorem createProject_unresolved_parent:
  assumes truthy: "par \<noteq> []"
    and unresolved: "\<forall>q \<in> set (gpm_projects s). id' q \<noteq> par"
    and fresh: "newId \<noteq> par"
  shows "\<exists>p s'. createProject newId nm ic col (Some par) s = (p, s')
           \<and> p = newProject newId nm ic col (Some par)
           \<and> parentId p = Some par
           \<and> gpm_projects s' = gpm_projects s @ [p]
           \<and> p \<notin> set (getRootProjects (gpm_projects s'))
           \<and> (\<forall>q \<in> set (gpm_projects s'). p \<notin> set (getChildren (gpm_projects s') (Some (id' q))))
           \<and> p \<notin> rendered (gpm_projects s')"
proof -
  let ?p = "newProject newId nm ic col (Some par)"
  let ?ps' = "gpm_projects s @ [?p]"
  have none: "\<forall>x \<in> set ?ps'. \<not> id' x = par"
    using unresolved fresh by (auto simp: newProject_def)
  have cp: "createProject newId nm ic col (Some par) s = (?p, saveProjects ?ps' s)"
    using truthy by (simp add: createProject_def Let_def mutateFound_none [OF none])
  have par: "parentId ?p = Some par" by (simp add: newProject_def)
  have noroot: "?p \<notin> set (getRootProjects ?ps')"
    using truthy by (simp add: getRootProjects_def par)
  have nochild: "?p \<notin> set (getChildren ?ps' (Some (id' q)))" if "q \<in> set ?ps'" for q
    using none that by (auto simp: getChildren_def par)
  have norow: "?p \<notin> rendered ?ps'"
    using rendered_parent [of ?p ?ps'] truthy none by (auto simp: par)
  from cp par noroot nochild norow show ?thesis
    by (simp add: saveProjects_def)
qed

theorem createProject_unresolved_parent_witness:
  "''ghost'' \<noteq> []
   \<and> id' (mkProject ''p1'' None [] [''c1'', ''c2'']) \<noteq> ''ghost''
   \<and> ''n1'' \<noteq> ''ghost''
   \<and> gpm_projects (snd (createProject ''n1'' ''Papers'' None None (Some ''ghost'') listedUnmapped)) =
       [mkProject ''p1'' None [] [''c1'', ''c2''], newProject ''n1'' ''Papers'' None None (Some ''ghost'')]
   \<and> newProject ''n1'' ''Papers'' None None (Some ''ghost'')
        \<notin> rendered (gpm_projects (snd (createProject ''n1'' ''Papers'' None None (Some ''ghost'') listedUnmapped)))"
proof -
  have h1: "''ghost'' \<noteq> []" by simp
  have h2: "\<forall>q \<in> set (gpm_projects listedUnmapped). id' q \<noteq> ''ghost''"
    by (simp add: listedUnmapped_def mkProject_def)
  have h3: "''n1'' \<noteq> ''ghost''" by simp
  from createProject_unresolved_parent [OF h1 h2 h3, of "''Papers''" None None]
  obtain p s' where c: "createProject ''n1'' ''Papers'' None None (Some ''ghost'') listedUnmapped = (p, s')"
    and p: "p = newProject ''n1'' ''Papers'' None None (Some ''ghost'')"
    and ps: "gpm_projects s' = gpm_projects listedUnmapped @ [p]"
    and r: "p \<notin> rendered (gpm_projects s')"
    by blast
  have "id' (mkProject ''p1'' None [] [''c1'', ''c2'']) \<noteq> ''ghost''"
    by (simp add: mkProject_def)
  moreover have "gpm_projects (snd (createProject ''n1'' ''Papers'' None None (Some ''ghost'') listedUnmapped)) =
       [mkProject ''p1'' None [] [''c1'', ''c2''], newProject ''n1'' ''Papers'' None None (Some ''ghost'')]"
    using c p ps by (simp add: listedUnmapped_def)
  moreover have "newProject ''n1'' ''Papers'' None None (Some ''ghost'')
        \<notin> rendered (gpm_projects (snd (createProject ''n1'' ''Papers'' None None (Some ''ghost'') listedUnmapped)))"
    using c p r by simp
  ultimately show ?thesis using h1 h3 by (intro conjI)
qed

text \<open>
  Claim C9 as stated fails for the empty string, which is not \<open>null\<close> and is the id
  of no project, but is falsy: the record that carries it is a root project.
\<close>

theorem createProject_empty_parent_counterexample:
  "parentId (fst (createProject ''n1'' ''Papers'' None None (Some []) emptyStore)) \<noteq> None
   \<and> fst (createProject ''n1'' ''Papers'' None None (Some []) emptyStore)
       \<in> set (getRootProjects
                 (gpm_projects (snd (createProject ''n1'' ''Papers'' None None (Some []) emptyStore))))"
  by (simp add: createProject_def Let_def emptyStore_def newProject_def saveProjects_def
        getRootProjects_def)

section \<open>Claim C3: the center drop of a project\<close>

text \<open>A drop that is rejected, or that overflows the stack, writes nothing.\<close>

lemma dropProjectCenter_Nested_only:
  "dropProjectCenter k project allProjects d s = Nested s' row \<Longrightarrow>
     isDescendant k allProjects d (id' project) = Some False"
  by (auto simp: dropProjectCenter_def Let_def split: if_splits option.splits bool.splits)

text \<open>
  No \<open>children\<close> list of the store gains an element by a center drop: each is what
  it was, or what it was without the dropped id.
\<close>

lemma children_mutateFound_removeChild:
  "map children (mutateFound P (removeChild d) ps) ! i = children (ps ! i)
   \<or> map children (mutateFound P (removeChild d) ps) ! i = filter (\<lambda>c. c \<noteq> d) (children (ps ! i))"
  if "i < length ps"
  using that
proof (induction ps arbitrary: i)
  case Nil
  then show ?case by simp
next
  case (Cons x xs)
  then show ?case by (cases i) (auto simp: removeChild_def)
qed

lemma length_mutateFound [simp]: "length (mutateFound P f xs) = length xs"
  by (induction xs) auto

lemma dropProjectCenter_children:
  assumes "dropProjectCenter k project allProjects d s = Nested s' row" and "i < length (gpm_projects s)"
  shows "length (gpm_projects s') = length (gpm_projects s)
       \<and> (children (gpm_projects s' ! i) = children (gpm_projects s ! i)
          \<or> children (gpm_projects s' ! i) = filter (\<lambda>c. c \<noteq> d) (children (gpm_projects s ! i)))"
proof -
  let ?ps = "gpm_projects s"
  from assms(1) obtain dp where dp: "find (\<lambda>p. id' p = d) ?ps = Some dp"
    and s': "gpm_projects s' = mutateFound (\<lambda>p. id' p = d) (\<lambda>p. p\<lparr>parentId := Some (id' project)\<rparr>)
               (if truthyStr (parentId dp)
                then mutateFound (\<lambda>p. id' p = the (parentId dp)) (removeChild d) ?ps else ?ps)"
    by (auto simp: dropProjectCenter_def Let_def saveProjects_def
          split: if_splits option.splits bool.splits)
  have "map children (mutateFound P (\<lambda>p. p\<lparr>parentId := x\<rparr>) xs) = map children xs" for P x and xs :: "project list"
    by (rule map_mutateFound_invariant) simp
  then have c: "map children (gpm_projects s') =
      map children (if truthyStr (parentId dp)
                then mutateFound (\<lambda>p. id' p = the (parentId dp)) (removeChild d) ?ps else ?ps)"
    unfolding s' by simp
  have len: "length (gpm_projects s') = length ?ps"
    unfolding s' by simp
  have "children (gpm_projects s' ! i) = map children (gpm_projects s') ! i"
    using assms(2) len by simp
  also have "\<dots> = children (?ps ! i) \<or> \<dots> = filter (\<lambda>c. c \<noteq> d) (children (?ps ! i))"
    unfolding c using children_mutateFound_removeChild [OF assms(2)] assms(2) by auto
  finally show ?thesis using len by simp
qed

subsection \<open>Rejection and acyclicity\<close>

lemma parentRel_found:
  assumes d: "distinct (map id' ps)" and f: "find (\<lambda>p. id' p = c) ps = Some p"
  shows "(c, x) \<in> parentRel ps \<longleftrightarrow> parentId p = Some x \<and> x \<noteq> []"
proof
  from d f have p: "p \<in> set ps" "id' p = c" by (simp_all add: find_distinct_id)
  {
    assume "(c, x) \<in> parentRel ps"
    then obtain q where q: "q \<in> set ps" "id' q = c" "parentId q = Some x" "x \<noteq> []"
      unfolding parentRel_def by blast
    from distinct_id_eq [OF d q(1) p(1)] q(2) p(2) have "q = p" by simp
    with q show "parentId p = Some x \<and> x \<noteq> []" by simp
  }
  {
    assume "parentId p = Some x \<and> x \<noteq> []"
    with p show "(c, x) \<in> parentRel ps" unfolding parentRel_def by blast
  }
qed

lemma parentRel_not_found:
  assumes "find (\<lambda>p. id' p = c) ps = None"
  shows "(c, x) \<notin> parentRel ps"
proof
  assume "(c, x) \<in> parentRel ps"
  then obtain q where "q \<in> set ps" "id' q = c" unfolding parentRel_def by blast
  with assms show False by (auto simp: find_None_id)
qed

text \<open>The walk answers \<open>false\<close> only when the dragged project is no ancestor.\<close>

lemma isDescendant_False:
  assumes d: "distinct (map id' ps)" and P: "P \<noteq> []"
  shows "isDescendant k ps P c = Some False \<Longrightarrow> (c, P) \<notin> (parentRel ps)\<^sup>+"
proof (induction k arbitrary: c)
  case 0
  then show ?case by simp
next
  case (Suc k)
  show ?case
  proof (cases "find (\<lambda>p. id' p = c) ps")
    case None
    then have "\<And>x. (c, x) \<notin> parentRel ps" by (rule parentRel_not_found)
    then show ?thesis by (auto dest: tranclD)
  next
    case (Some p)
    show ?thesis
    proof
      assume "(c, P) \<in> (parentRel ps)\<^sup>+"
      then obtain x where x: "(c, x) \<in> parentRel ps" "(x, P) \<in> (parentRel ps)\<^sup>*"
        by (auto dest: tranclD)
      from x(1) have px: "parentId p = Some x" "x \<noteq> []"
        using parentRel_found [OF d Some] by simp_all
      with Suc.prems Some have ne: "x \<noteq> P" and rec: "isDescendant k ps P x = Some False"
        by (auto split: if_splits)
      from Suc.IH [OF rec] have "(x, P) \<notin> (parentRel ps)\<^sup>+" .
      with x(2) ne show False by (auto dest: rtranclD)
    qed
  qed
qed

lemma isDescendant_True:
  assumes P: "P \<noteq> []"
  shows "isDescendant k ps P c = Some True \<Longrightarrow> (c, P) \<in> (parentRel ps)\<^sup>+"
proof (induction k arbitrary: c)
  case 0
  then show ?case by simp
next
  case (Suc k)
  from Suc.prems obtain p where p: "find (\<lambda>p. id' p = c) ps = Some p"
    by (auto split: option.splits)
  then have pin: "p \<in> set ps" "id' p = c"
    by (auto simp: find_Some_iff in_set_conv_nth)
  show ?case
  proof (cases "parentId p = Some P")
    case True
    with pin P have "(c, P) \<in> parentRel ps" by (auto simp: parentRel_def)
    then show ?thesis by blast
  next
    case False
    with Suc.prems p obtain x where x: "parentId p = Some x" "x \<noteq> []"
      "isDescendant k ps P x = Some True"
      by (cases "parentId p") (auto split: if_splits)
    with pin have "(c, x) \<in> parentRel ps" by (auto simp: parentRel_def)
    from this Suc.IH [OF x(3)] show ?thesis by (rule trancl_into_trancl2)
  qed
qed


lemma parentRel_reads:
  assumes "map (\<lambda>q. (id' q, parentId q)) ps' = map (\<lambda>q. (id' q, parentId q)) ps"
  shows "parentRel ps' = parentRel ps"
proof -
  let ?f = "\<lambda>q. (id' q, parentId q)"
  have "parentRel xs = {(i, x). (i, Some x) \<in> ?f ` set xs \<and> x \<noteq> []}" for xs
    unfolding parentRel_def by (auto simp: image_iff)
  moreover have "?f ` set ps' = ?f ` set ps"
    using arg_cong [OF assms, of set] by simp
  ultimately show ?thesis by simp
qed

lemma set_mutateFound: "set (mutateFound P f xs) \<subseteq> set xs \<union> f ` {x \<in> set xs. P x}"
  by (induction xs) auto

lemma parentRel_reparent:
  "parentRel (mutateFound (\<lambda>p. id' p = P) (\<lambda>p. p\<lparr>parentId := Some Q\<rparr>) xs)
     \<subseteq> insert (P, Q) (parentRel xs)"
proof
  fix e
  assume "e \<in> parentRel (mutateFound (\<lambda>p. id' p = P) (\<lambda>p. p\<lparr>parentId := Some Q\<rparr>) xs)"
  then obtain q x where e: "e = (id' q, x)" "parentId q = Some x" "x \<noteq> []"
    and q: "q \<in> set (mutateFound (\<lambda>p. id' p = P) (\<lambda>p. p\<lparr>parentId := Some Q\<rparr>) xs)"
    unfolding parentRel_def by blast
  from q set_mutateFound [of "\<lambda>p. id' p = P" "\<lambda>p. p\<lparr>parentId := Some Q\<rparr>" xs]
  consider "q \<in> set xs" | y where "y \<in> set xs" "id' y = P" "q = y\<lparr>parentId := Some Q\<rparr>"
    by blast
  then show "e \<in> insert (P, Q) (parentRel xs)"
  proof cases
    case 1
    with e show ?thesis unfolding parentRel_def by blast
  next
    case 2
    with e show ?thesis by simp
  qed
qed

text \<open>
  When the row was rendered from the store as it is now, an accepted center drop
  keeps the \<open>parentId\<close> links free of cycles.
\<close>

lemma dropProjectCenter_acyclic:
  assumes d: "distinct (map id' (gpm_projects s))"
    and ac: "acyclic (parentRel (gpm_projects s))"
    and out: "dropProjectCenter k project (gpm_projects s) P s = Nested s' row"
  shows "acyclic (parentRel (gpm_projects s'))"
proof -
  let ?ps = "gpm_projects s" and ?Q = "id' project"
  from out have P: "P \<noteq> []" "P \<noteq> ?Q"
    by (auto simp: dropProjectCenter_def split: if_splits)
  from out have nd: "isDescendant k ?ps P ?Q = Some False"
    by (rule dropProjectCenter_Nested_only)
  from out obtain dp where dp: "find (\<lambda>p. id' p = P) ?ps = Some dp" and
    s': "gpm_projects s' = mutateFound (\<lambda>p. id' p = P) (\<lambda>p. p\<lparr>parentId := Some ?Q\<rparr>)
               (if truthyStr (parentId dp)
                then mutateFound (\<lambda>p. id' p = the (parentId dp)) (removeChild P) ?ps else ?ps)"
    by (auto simp: dropProjectCenter_def Let_def saveProjects_def
          split: if_splits option.splits bool.splits)
  let ?X = "if truthyStr (parentId dp)
            then mutateFound (\<lambda>p. id' p = the (parentId dp)) (removeChild P) ?ps else ?ps"
  have "map (\<lambda>q. (id' q, parentId q)) ?X = map (\<lambda>q. (id' q, parentId q)) ?ps"
    by (simp add: map_mutateFound_invariant removeChild_def)
  then have X: "parentRel ?X = parentRel ?ps" by (rule parentRel_reads)
  have sub: "parentRel (gpm_projects s') \<subseteq> insert (P, ?Q) (parentRel ?ps)"
    unfolding s' using parentRel_reparent [of P ?Q ?X] X by simp
  have "(?Q, P) \<notin> (parentRel ?ps)\<^sup>+"
    using isDescendant_False [OF d P(1) nd] .
  with P(2) have "(?Q, P) \<notin> (parentRel ?ps)\<^sup>*"
    by (auto dest: rtranclD)
  with ac have "acyclic (insert (P, ?Q) (parentRel ?ps))"
    by (simp add: acyclic_insert)
  from this sub show ?thesis by (rule acyclic_subset)
qed

text \<open>
  A drop onto a descendant of the dragged project is rejected, and a rejected drop
  carries no store: nothing is written.
\<close>

lemma dropProjectCenter_rejects_descendant:
  assumes "P \<noteq> []" "P \<noteq> id' project" "isDescendant k allProjects P (id' project) = Some True"
  shows "dropProjectCenter k project allProjects P s = Rejected"
  using assms by (simp add: dropProjectCenter_def)

subsection \<open>The lost child\<close>

text \<open>
  Claim C3 at two root projects \<open>p1\<close> and \<open>p2\<close>: \<open>p1\<close> is dropped on the center of
  the row of \<open>p2\<close>.  The saved \<open>p1\<close> has \<open>parentId = p2\<close>, but the saved \<open>p2\<close> still
  has no children: \<open>p1\<close> was pushed to the \<open>children\<close> of the row's own object.
\<close>

theorem dropProjectCenter_loses_child:
  "dropProjectCenter 5 (mkProject ''p2'' None [] []) (gpm_projects twoProjects) ''p1'' twoProjects =
     Nested
       \<lparr>gpm_projects = [mkProject ''p1'' (Some ''p2'') [] [''c1'', ''c2''],
                        mkProject ''p2'' None [] []],
        gpm_chatMap = gpm_chatMap twoProjects,
        sent = 1\<rparr>
       (mkProject ''p2'' None [''p1''] [])"
  by (simp add: dropProjectCenter_def twoProjects_def mkProject_def Let_def saveProjects_def
        pushChild_def numeral_eq_Suc)

text \<open>
  The consequence for the cascade: after that drop, \<open>deleteProject(p2)\<close> follows the
  \<open>children\<close> of \<open>p2\<close>, finds none, and leaves \<open>p1\<close> and its chat mappings in the
  store, with a \<open>parentId\<close> that references nothing.
\<close>

lemma nested_project_survives_delete:
  "deleteProject 5 ''p2''
     \<lparr>gpm_projects = [mkProject ''p1'' (Some ''p2'') [] [''c1'', ''c2''],
                      mkProject ''p2'' None [] []],
      gpm_chatMap = gpm_chatMap twoProjects,
      sent = 1\<rparr>
   = Some \<lparr>gpm_projects = [mkProject ''p1'' (Some ''p2'') [] [''c1'', ''c2'']],
            gpm_chatMap = gpm_chatMap twoProjects,
            sent = 3\<rparr>"
  by (simp add: deleteProject_def twoProjects_def mkProject_def mkMapping_def dropMappings_def
        detachFromParent_def saveProjects_def saveChatMap_def numeral_eq_Suc)

section \<open>Claim C8: a render pass with no visible chat id\<close>

lemma insert_not_Nil [simp]: "List.insert x xs \<noteq> []"
  by (auto simp: List.insert_def)

lemma backfillLink_active:
  "fst (snd (backfillLink link (cm, act, upd))) = []
     \<Longrightarrow> backfillLink link (cm, act, upd) = (cm, act, upd)"
  by (auto simp: backfillLink_def Let_def split: option.splits if_splits)

lemma backfillLink_grows:
  "act \<noteq> [] \<Longrightarrow> fst (snd (backfillLink link (cm, act, upd))) \<noteq> []"
  by (auto simp: backfillLink_def Let_def split: option.splits if_splits)

lemma fold_backfill_grows:
  "act \<noteq> [] \<Longrightarrow> fst (snd (fold backfillLink links (cm, act, upd))) \<noteq> []"
proof (induction links arbitrary: cm act upd)
  case Nil
  then show ?case by simp
next
  case (Cons l ls)
  obtain cm1 act1 upd1 where st: "backfillLink l (cm, act, upd) = (cm1, act1, upd1)"
    by (cases "backfillLink l (cm, act, upd)")
  with backfillLink_grows [OF Cons.prems, of l cm upd] have "act1 \<noteq> []" by simp
  from Cons.IH [OF this] st show ?case by simp
qed

lemma fold_backfill_empty:
  "fst (snd (fold backfillLink links (cm, [], upd))) = []
     \<Longrightarrow> fold backfillLink links (cm, [], upd) = (cm, [], upd)"
proof (induction links)
  case Nil
  then show ?case by simp
next
  case (Cons l ls)
  obtain cm1 act1 upd1 where st: "backfillLink l (cm, [], upd) = (cm1, act1, upd1)"
    by (cases "backfillLink l (cm, [], upd)")
  have "act1 = []"
  proof (rule ccontr)
    assume "act1 \<noteq> []"
    from fold_backfill_grows [OF this, of ls cm1 upd1] Cons.prems st show False by simp
  qed
  with st backfillLink_active [of l cm "[]" upd] have "backfillLink l (cm, [], upd) = (cm, [], upd)"
    by simp
  with Cons show ?case by simp
qed

text \<open>
  Claim C8.  When no link of the sidebar carries a chat id (\<open>activeChatIds\<close> is
  empty), a render pass leaves the store as it is: no mapping is removed, no
  \<open>chatIds\<close> is changed, and nothing is written.
\<close>

theorem render_without_visible_chats:
  assumes "activeChatIdsOf sidebarLinks s = []"
  shows "gpmRenderTree container sidebarLinks s = s"
proof -
  from assms have "aliasBackfill sidebarLinks (gpm_chatMap s) = (gpm_chatMap s, [], False)"
    unfolding activeChatIdsOf_def aliasBackfill_def by (rule fold_backfill_empty)
  then show ?thesis by (simp add: gpmRenderTree_def)
qed

theorem render_without_visible_chats_witness:
  "activeChatIdsOf sidebarNoIds abx = [] \<and> gpmRenderTree True sidebarNoIds abx = abx
   \<and> gpm_chatMap (gpmRenderTree True sidebarNoIds abx) =
       [(''a'', mkMapping ''p1''), (''b'', mkMapping ''p1''), (''x'', mkMapping ''p1'')]"
proof -
  have h: "activeChatIdsOf sidebarNoIds abx = []"
    by (simp add: activeChatIdsOf_def aliasBackfill_def backfillLink_def sidebarNoIds_def
          matchAppId_def isIdChar_def)
  from render_without_visible_chats [OF h, of True]
  have r: "gpmRenderTree True sidebarNoIds abx = abx" .
  then have "gpm_chatMap (gpmRenderTree True sidebarNoIds abx) =
       [(''a'', mkMapping ''p1''), (''b'', mkMapping ''p1''), (''x'', mkMapping ''p1'')]"
    by (simp add: abx_def)
  with h r show ?thesis by (intro conjI)
qed

text \<open>
  With the chats \<open>a\<close>, \<open>b\<close> and \<open>c\<close> visible, the same store loses the mapping of \<open>x\<close>.
\<close>

lemma render_collects_orphan:
  "gpmRenderTree True sidebarABC abx =
     \<lparr>gpm_projects = [mkProject ''p1'' None [] [''a'', ''b'']],
      gpm_chatMap = [(''a'', mkMapping ''p1''), (''b'', mkMapping ''p1'')],
      sent = 2\<rparr>"
  by (simp add: gpmRenderTree_def aliasBackfill_def backfillLink_def sidebarABC_def abx_def
        matchAppId_def isIdChar_def orphanCleanup_def cleanupEntry_def mkMapping_def
        mkProject_def removeChat_def saveProjects_def saveChatMap_def Let_def)

section \<open>Claim C4: expiry of the pending assignment\<close>

lemma run_without_pending:
  assumes "gpmPendingChatAssignment obs = None" "\<forall>e \<in> set evs. \<not> isNewChatInProject e"
  shows "gpmPendingChatAssignment (fst (run evs obs)) = None
       \<and> (\<forall>eff \<in> set (snd (run evs obs)). \<not> isAssignChat eff)"
  using assms
proof (induction evs arbitrary: obs)
  case Nil
  then show ?case by simp
next
  case (Cons e es)
  obtain obs1 effs where h: "handle e obs = (obs1, effs)" by (cases "handle e obs")
  have 1: "gpmPendingChatAssignment obs1 = None \<and> (\<forall>eff \<in> set effs. \<not> isAssignChat eff)"
    using h Cons.prems
    by (cases e) (auto simp: pollTick_def sweepTick_def split: if_splits)
  from Cons.prems have "\<forall>e \<in> set es. \<not> isNewChatInProject e" by simp
  from Cons.IH [OF _ this, of obs1] 1 h show ?case
    by (auto split: prod.splits)
qed

text \<open>
  Claim C4, as amended.  Let a pending assignment for \<open>p1\<close> be recorded at time \<open>T\<close>
  (not zero).  A sweep at a time \<open>now\<close> with \<open>now - T > 120000\<close> clears it, and from
  then on, as long as no other pending assignment is recorded, no chat id that a
  poll observes is assigned.  A sweep with \<open>now - T \<le> 120000\<close> keeps it, and as long
  as it is kept, a poll that observes a new chat id assigns that id to \<open>p1\<close>,
  whatever the time.
\<close>

theorem pending_assignment_expiry:
  assumes pending: "gpmPendingChatAssignment obs = Some (p1, T)" and nz: "T \<noteq> 0"
  shows "(now - T > 120000 \<longrightarrow>
            gpmPendingChatAssignment (sweepTick now obs) = None
          \<and> (\<forall>evs. (\<forall>e \<in> set evs. \<not> isNewChatInProject e) \<longrightarrow>
                (\<forall>eff \<in> set (snd (run evs (sweepTick now obs))). \<not> isAssignChat eff)))
       \<and> (now - T \<le> 120000 \<longrightarrow> sweepTick now obs = obs)
       \<and> (truthyStr cid \<and> cid \<noteq> lastChatId obs \<longrightarrow>
            snd (pollTick cid obs) = [AssignChat (the cid) p1])"
proof -
  have a: "gpmPendingChatAssignment (sweepTick now obs) = None" if "now - T > 120000"
    using that pending nz by (simp add: sweepTick_def)
  have b: "\<forall>eff \<in> set (snd (run evs (sweepTick now obs))). \<not> isAssignChat eff"
    if "now - T > 120000" "\<forall>e \<in> set evs. \<not> isNewChatInProject e" for evs
    using run_without_pending [OF a [OF that(1)] that(2)] by simp
  have c: "sweepTick now obs = obs" if "now - T \<le> 120000"
    using that pending by (simp add: sweepTick_def)
  have d: "snd (pollTick cid obs) = [AssignChat (the cid) p1]"
    if "truthyStr cid" "cid \<noteq> lastChatId obs"
    using that pending by (simp add: pollTick_def)
  from a b c d show ?thesis by blast
qed

theorem pending_assignment_expiry_witness:
  "gpmPendingChatAssignment (newChatInProject ''p1'' 1000 initialObserver) = Some (''p1'', 1000)
   \<and> (1000::int) \<noteq> 0
   \<and> (125500::int) - 1000 > 120000
   \<and> gpmPendingChatAssignment (sweepTick 125500 (newChatInProject ''p1'' 1000 initialObserver)) = None
   \<and> snd (run [Poll 126000 (Some ''c9'')] (sweepTick 125500 (newChatInProject ''p1'' 1000 initialObserver)))
       = [Render]"
proof -
  have h1: "gpmPendingChatAssignment (newChatInProject ''p1'' 1000 initialObserver) = Some (''p1'', 1000)"
    by (simp add: newChatInProject_def)
  have h2: "(1000::int) \<noteq> 0" by simp
  have h3: "(125500::int) - 1000 > 120000" by simp
  from pending_assignment_expiry [OF h1 h2, of 125500] h3
  have "gpmPendingChatAssignment (sweepTick 125500 (newChatInProject ''p1'' 1000 initialObserver)) = None"
    by blast
  then have "snd (run [Poll 126000 (Some ''c9'')] (sweepTick 125500 (newChatInProject ''p1'' 1000 initialObserver)))
       = [Render]"
    by (simp add: pollTick_def sweepTick_def newChatInProject_def initialObserver_def)
  with h1 h2 h3 \<open>gpmPendingChatAssignment (sweepTick 125500 (newChatInProject ''p1'' 1000 initialObserver)) = None\<close>
  show ?thesis by (intro conjI)
qed

text \<open>
  Claim C4 as stated fails between the deadline and the next sweep.  The pending
  assignment is recorded at 1000; the sweeps of the 5000 ms interval fall on
  120500 and 125500; no chat id is observed up to 121000.  At 121500 the
  assignment is still pending, and the chat id observed then is assigned to \<open>p1\<close>.
\<close>

theorem pending_assignment_late_counterexample:
  "(1000::int) + 120000 < 121500
   \<and> run [NewChatInProject ''p1'' 1000, Poll 1500 None, Sweep 120500, Poll 121000 None,
           Poll 121500 (Some ''c9''), Sweep 125500] initialObserver
       = (\<lparr>lastChatId = Some ''c9'', gpmPendingChatAssignment = None\<rparr>, [AssignChat ''c9'' ''p1''])"
  by (simp add: initialObserver_def newChatInProject_def pollTick_def sweepTick_def)

section \<open>Claims C5, C6 and C10: notification, export and import\<close>

lemma truthy_orElse [simp]: "truthy (Some b) \<Longrightarrow> truthy (Some (orElse a b))"
  by (cases a) (auto simp: orElse_def)

lemma truthy_getters [simp]:
  "truthy (Some (getProjects st))" "truthy (Some (getChatMap st))"
  "truthy (Some (getQuickPrompts st))" "truthy (Some (getSettings st))"
  by (simp_all add: getProjects_def getChatMap_def getQuickPrompts_def getSettings_def
        defaultSettings_def)

lemma orElse_truthy: "truthy (Some v) \<Longrightarrow> orElse (Some v) b = v"
  by (simp add: orElse_def)

lemma importKey_local:
  "local (importKey data key st) k =
     (if k = key \<and> truthy (getProp data key) then getProp data key else local st k)"
  by (cases "getProp data key") (auto simp: importKey_def storageSet_def)

lemma orElse_stored:
  "Some (orElse a b) = (if truthy a then a else Some b)"
  by (cases a) (simp_all add: orElse_def)

text \<open>What \<open>importAll\<close> leaves under one of the four keys, for the exported document.\<close>

lemma import_export_local:
  assumes "parse (stringify (exportObject st)) = Some (exportObject st)"
  shows "\<exists>t'. importAll parse (exportAll stringify st) t = Inr t'
           \<and> local t' ''gpm_projects'' = Some (getProjects st)
           \<and> local t' ''gpm_chatMap'' = Some (getChatMap st)
           \<and> local t' ''gpm_quickPrompts'' = Some (getQuickPrompts st)
           \<and> local t' ''gpm_settings'' = Some (getSettings st)"
  using assms
  by (simp add: importAll_def exportAll_def exportObject_def importKey_local)

text \<open>
  Claim C6.  Let \<open>JSON.parse\<close> read back the document that \<open>JSON.stringify\<close> wrote for
  the export of the storage \<open>st\<close>.  Then importing the exported string into any
  storage \<open>t\<close>, the empty one included, succeeds.  Afterwards each of the four keys
  holds what it holds in \<open>st\<close>, when that is truthy, and otherwise the empty
  collection (the default settings) that the getter of \<open>st\<close> reads; so each of the
  four collections reads exactly as it reads in \<open>st\<close>.
\<close>

theorem export_import_roundtrip:
  assumes "parse (stringify (exportObject st)) = Some (exportObject st)"
  shows "\<exists>t'. importAll parse (exportAll stringify st) t = Inr t'
           \<and> local t' ''gpm_projects'' =
               (if truthy (local st ''gpm_projects'') then local st ''gpm_projects''
                else Some (JArr []))
           \<and> local t' ''gpm_chatMap'' =
               (if truthy (local st ''gpm_chatMap'') then local st ''gpm_chatMap''
                else Some (JObj []))
           \<and> local t' ''gpm_quickPrompts'' =
               (if truthy (local st ''gpm_quickPrompts'') then local st ''gpm_quickPrompts''
                else Some (JArr []))
           \<and> local t' ''gpm_settings'' =
               (if truthy (local st ''gpm_settings'') then local st ''gpm_settings''
                else Some (JObj [(''lang'', JStr ''en''), (''theme'', JStr ''auto'')]))
           \<and> getProjects t' = getProjects st
           \<and> getChatMap t' = getChatMap st
           \<and> getQuickPrompts t' = getQuickPrompts st
           \<and> getSettings t' = getSettings st"
proof -
  from import_export_local [of parse stringify st t, OF assms]
  obtain t' where t': "importAll parse (exportAll stringify st) t = Inr t'"
    and l: "local t' ''gpm_projects'' = Some (getProjects st)"
      "local t' ''gpm_chatMap'' = Some (getChatMap st)"
      "local t' ''gpm_quickPrompts'' = Some (getQuickPrompts st)"
      "local t' ''gpm_settings'' = Some (getSettings st)"
    by blast
  have 1: "local t' ''gpm_projects'' =
             (if truthy (local st ''gpm_projects'') then local st ''gpm_projects''
              else Some (JArr []))"
    unfolding l by (simp only: getProjects_def storageGet_def orElse_stored)
  have 2: "local t' ''gpm_chatMap'' =
             (if truthy (local st ''gpm_chatMap'') then local st ''gpm_chatMap''
              else Some (JObj []))"
    unfolding l by (simp only: getChatMap_def storageGet_def orElse_stored)
  have 3: "local t' ''gpm_quickPrompts'' =
             (if truthy (local st ''gpm_quickPrompts'') then local st ''gpm_quickPrompts''
              else Some (JArr []))"
    unfolding l by (simp only: getQuickPrompts_def storageGet_def orElse_stored)
  have 4: "local t' ''gpm_settings'' =
             (if truthy (local st ''gpm_settings'') then local st ''gpm_settings''
              else Some (JObj [(''lang'', JStr ''en''), (''theme'', JStr ''auto'')]))"
    unfolding l by (simp only: getSettings_def storageGet_def orElse_stored defaultSettings_def)
  have 5: "getProjects t' = getProjects st"
    by (simp add: getProjects_def [of t'] storageGet_def l orElse_truthy)
  have 6: "getChatMap t' = getChatMap st"
    by (simp add: getChatMap_def [of t'] storageGet_def l orElse_truthy)
  have 7: "getQuickPrompts t' = getQuickPrompts st"
    by (simp add: getQuickPrompts_def [of t'] storageGet_def l orElse_truthy)
  have 8: "getSettings t' = getSettings st"
    by (simp add: getSettings_def [of t'] storageGet_def l orElse_truthy)
  from t' 1 2 3 4 5 6 7 8 show ?thesis by blast
qed

theorem export_import_roundtrip_witness:
  "(\<lambda>s. Some backupDocument) ((\<lambda>v. ''exported'') (exportObject backupStorage))
     = Some (exportObject backupStorage)
   \<and> (\<exists>t'. importAll (\<lambda>s. Some backupDocument)
              (exportAll (\<lambda>v. ''exported'') backupStorage) emptyStorage = Inr t'
         \<and> local t' ''gpm_projects'' =
             Some (JArr [JObj [(''id'', JStr ''p1''), (''name'', JStr ''Research''),
                               (''chatIds'', JArr [JStr ''abc123''])]])
         \<and> local t' ''gpm_chatMap'' =
             Some (JObj [(''abc123'', JObj [(''projectId'', JStr ''p1''), (''alias'', JStr ''Notes''),
                                            (''pinned'', JBool True)])])
         \<and> local t' ''gpm_quickPrompts'' =
             Some (JArr [JObj [(''id'', JStr ''q1''), (''title'', JStr ''Summary''),
                               (''content'', JStr ''Summarise this chat.''),
                               (''category'', JStr ''General'')],
                         JObj [(''id'', JStr ''q2''), (''title'', JStr ''Translate''),
                               (''content'', JStr ''Translate to English.''),
                               (''category'', JStr ''Language'')]])
         \<and> local t' ''gpm_settings'' =
             Some (JObj [(''lang'', JStr ''tr''), (''theme'', JStr ''dark'')]))"
proof -
  have e: "exportObject backupStorage = backupDocument"
    by (simp add: exportObject_def backupDocument_def getProjects_def getChatMap_def
          getQuickPrompts_def getSettings_def backupStorage_def storageGet_def orElse_def)
  have h: "(\<lambda>s. Some backupDocument) ((\<lambda>v. ''exported'') (exportObject backupStorage))
     = Some (exportObject backupStorage)"
    by (simp add: e)
  have l: "local backupStorage ''gpm_projects'' =
             Some (JArr [JObj [(''id'', JStr ''p1''), (''name'', JStr ''Research''),
                               (''chatIds'', JArr [JStr ''abc123''])]])"
    "local backupStorage ''gpm_chatMap'' =
             Some (JObj [(''abc123'', JObj [(''projectId'', JStr ''p1''), (''alias'', JStr ''Notes''),
                                            (''pinned'', JBool True)])])"
    "local backupStorage ''gpm_quickPrompts'' =
             Some (JArr [JObj [(''id'', JStr ''q1''), (''title'', JStr ''Summary''),
                               (''content'', JStr ''Summarise this chat.''),
                               (''category'', JStr ''General'')],
                         JObj [(''id'', JStr ''q2''), (''title'', JStr ''Translate''),
                               (''content'', JStr ''Translate to English.''),
                               (''category'', JStr ''Language'')]])"
    "local backupStorage ''gpm_settings'' =
             Some (JObj [(''lang'', JStr ''tr''), (''theme'', JStr ''dark'')])"
    by (simp_all add: backupStorage_def)
  from export_import_roundtrip [of "\<lambda>s. Some backupDocument" "\<lambda>v. ''exported''" backupStorage,
      OF h, of emptyStorage]
  obtain t' where t': "importAll (\<lambda>s. Some backupDocument)
              (exportAll (\<lambda>v. ''exported'') backupStorage) emptyStorage = Inr t'"
    and r: "local t' ''gpm_projects'' =
               (if truthy (local backupStorage ''gpm_projects'')
                then local backupStorage ''gpm_projects'' else Some (JArr []))"
      "local t' ''gpm_chatMap'' =
               (if truthy (local backupStorage ''gpm_chatMap'')
                then local backupStorage ''gpm_chatMap'' else Some (JObj []))"
      "local t' ''gpm_quickPrompts'' =
               (if truthy (local backupStorage ''gpm_quickPrompts'')
                then local backupStorage ''gpm_quickPrompts'' else Some (JArr []))"
      "local t' ''gpm_settings'' =
               (if truthy (local backupStorage ''gpm_settings'')
                then local backupStorage ''gpm_settings''
                else Some (JObj [(''lang'', JStr ''en''), (''theme'', JStr ''auto'')]))"
    by blast
  have "local t' ''gpm_projects'' =
             Some (JArr [JObj [(''id'', JStr ''p1''), (''name'', JStr ''Research''),
                               (''chatIds'', JArr [JStr ''abc123''])]])"
    using r(1) unfolding l by simp
  moreover have "local t' ''gpm_chatMap'' =
             Some (JObj [(''abc123'', JObj [(''projectId'', JStr ''p1''), (''alias'', JStr ''Notes''),
                                            (''pinned'', JBool True)])])"
    using r(2) unfolding l by simp
  moreover have "local t' ''gpm_quickPrompts'' =
             Some (JArr [JObj [(''id'', JStr ''q1''), (''title'', JStr ''Summary''),
                               (''content'', JStr ''Summarise this chat.''),
                               (''category'', JStr ''General'')],
                         JObj [(''id'', JStr ''q2''), (''title'', JStr ''Translate''),
                               (''content'', JStr ''Translate to English.''),
                               (''category'', JStr ''Language'')]])"
    using r(3) unfolding l by simp
  moreover have "local t' ''gpm_settings'' =
             Some (JObj [(''lang'', JStr ''tr''), (''theme'', JStr ''dark'')])"
    using r(4) unfolding l by simp
  ultimately show ?thesis using t' h by blast
qed

lemma importKey_falsy: "\<not> truthy (getProp data key) \<Longrightarrow> importKey data key st = st"
  by (simp add: importKey_def)

lemma importAll_object:
  "parse jsonString = Some (JObj kvs) \<Longrightarrow>
     importAll parse jsonString st =
       Inr (importKey (JObj kvs) ''gpm_settings''
             (importKey (JObj kvs) ''gpm_quickPrompts''
               (importKey (JObj kvs) ''gpm_chatMap''
                 (importKey (JObj kvs) ''gpm_projects'' st))))"
  by (simp add: importAll_def)

lemma importKey_delete:
  assumes "map_of kvs k = Some v" "\<not> truthy (Some v)"
  shows "importKey (JObj (AList.delete k kvs)) key st = importKey (JObj kvs) key st"
proof (cases "key = k")
  case True
  with assms show ?thesis by (simp add: importKey_def delete_conv')
next
  case False
  then show ?thesis by (simp add: importKey_def delete_conv')
qed

text \<open>
  Claim C10.  Let the import document be a JSON object that binds one of the four
  keys, \<open>k\<close>, to a falsy value \<open>v\<close>.  Then \<open>importAll\<close> succeeds and leaves the value
  stored under \<open>k\<close> as it was; the resulting storage is the one that the same
  document without \<open>k\<close> gives; and a key is written exactly if it is one of the four
  and the document binds it to a truthy value, which is then what is stored.
\<close>

theorem importAll_falsy_key:
  assumes doc: "parse jsonString = Some (JObj kvs)"
    and key: "k \<in> set importKeys"
    and bound: "map_of kvs k = Some v"
    and falsy: "\<not> truthy (Some v)"
  shows "\<exists>t'. importAll parse jsonString t = Inr t'
           \<and> local t' k = local t k
           \<and> (\<forall>without. parse without = Some (JObj (AList.delete k kvs)) \<longrightarrow>
                 importAll parse without t = Inr t')
           \<and> (\<forall>k'. local t' k' =
                 (if k' \<in> set importKeys \<and> truthy (map_of kvs k') then map_of kvs k' else local t k'))"
proof -
  let ?t' = "importKey (JObj kvs) ''gpm_settings''
             (importKey (JObj kvs) ''gpm_quickPrompts''
               (importKey (JObj kvs) ''gpm_chatMap''
                 (importKey (JObj kvs) ''gpm_projects'' t)))"
  have r: "importAll parse jsonString t = Inr ?t'"
    using doc by (rule importAll_object)
  have all: "local ?t' k' =
      (if k' \<in> set importKeys \<and> truthy (map_of kvs k') then map_of kvs k' else local t k')" for k'
    by (auto simp: importKey_local importKeys_def)
  have same: "local ?t' k = local t k"
    using all [of k] bound falsy by simp
  have absent: "importAll parse without t = Inr ?t'"
    if "parse without = Some (JObj (AList.delete k kvs))" for without
    using importAll_object [of parse without "AList.delete k kvs" t] that
    by (simp add: importKey_delete [OF bound falsy])
  from r all same absent show ?thesis by blast
qed

theorem importAll_falsy_key_witness:
  "(\<lambda>s. Some nullProjectsBlob) ''blob'' =
      Some (JObj [(''gpm_projects'', JNull), (''gpm_settings'', JObj [(''lang'', JStr ''de'')])])
   \<and> ''gpm_projects'' \<in> set importKeys
   \<and> map_of [(''gpm_projects'', JNull), (''gpm_settings'', JObj [(''lang'', JStr ''de'')])] ''gpm_projects''
       = Some JNull
   \<and> \<not> truthy (Some JNull)
   \<and> (\<exists>t'. importAll (\<lambda>s. Some nullProjectsBlob) ''blob'' sampleStorage = Inr t'
         \<and> local t' ''gpm_projects'' =
             Some (JArr [JObj [(''id'', JStr ''p1''), (''name'', JStr ''Research'')]])
         \<and> local t' ''gpm_settings'' = Some (JObj [(''lang'', JStr ''de'')]))"
proof -
  let ?kvs = "[(''gpm_projects'', JNull), (''gpm_settings'', JObj [(''lang'', JStr ''de'')])]"
  have h1: "(\<lambda>s. Some nullProjectsBlob) ''blob'' = Some (JObj ?kvs)"
    by (simp add: nullProjectsBlob_def)
  have h2: "''gpm_projects'' \<in> set importKeys" by (simp add: importKeys_def)
  have h3: "map_of ?kvs ''gpm_projects'' = Some JNull" by simp
  have h4: "\<not> truthy (Some JNull)" by simp
  from importAll_falsy_key [of "\<lambda>s. Some nullProjectsBlob" "''blob''", OF h1 h2 h3 h4, of sampleStorage]
  obtain t' where t': "importAll (\<lambda>s. Some nullProjectsBlob) ''blob'' sampleStorage = Inr t'"
    and same: "local t' ''gpm_projects'' = local sampleStorage ''gpm_projects''"
    and all: "\<And>k'. local t' k' =
                 (if k' \<in> set importKeys \<and> truthy (map_of ?kvs k') then map_of ?kvs k'
                  else local sampleStorage k')"
    by blast
  have "local t' ''gpm_projects'' = Some (JArr [JObj [(''id'', JStr ''p1''), (''name'', JStr ''Research'')]])"
    using same by (simp add: sampleStorage_def)
  moreover have "local t' ''gpm_settings'' = Some (JObj [(''lang'', JStr ''de'')])"
    using all [of "''gpm_settings''"] by (simp add: importKeys_def)
  ultimately show ?thesis using t' h1 h2 h3 h4 by blast
qed

text \<open>
  Every write of the store operations goes through \<open>_set\<close> and sends its message.
\<close>

lemma store_operations_notify:
  "sent (assignChat page c p s) = sent s + 2"
  "sent (unassignChat c s) = sent s + 2"
  "map_of (gpm_chatMap s) c \<noteq> None \<Longrightarrow> sent (setChatAlias page c a s) = sent s + 1"
  "map_of (gpm_chatMap s) c \<noteq> None \<Longrightarrow> sent (snd (togglePinChat page c s)) = sent s + 1"
  "sent (snd (createProject newId nm ic col par s)) = sent s + 1"
  "deleteProject k d s = Some s' \<Longrightarrow> sent s' = sent s + 2"
  by (auto simp: assignChat_def unassignChat_def setChatAlias_def togglePinChat_def
        createProject_def deleteProject_def saveProjects_def saveChatMap_def Let_def
        split: option.splits)

lemma store_operations_notify_more:
  "find (\<lambda>q. id' q = d) (gpm_projects s) \<noteq> None \<Longrightarrow> sent (snd (updateProject d u s)) = sent s + 1"
  "sent (saveQuickPrompt qid ttl cnt cat t) = sent t + 1"
  "sent (deleteQuickPrompt qid t) = sent t + 1"
  "sent (updateQuickPrompt qid pu t) = sent t + 1"
  "sent (saveSettings v t) = sent t + 1"
  "sent (clearAllTyped t) = sent t"
  by (auto simp: updateProject_def saveProjects_def saveQuickPrompt_def deleteQuickPrompt_def
        updateQuickPrompt_def setQuickPrompts_def saveSettings_def clearAllTyped_def
        split: option.splits)

text \<open>
  Claim C5 at \<open>clearAll\<close>: it writes the five keys with \<open>chrome.storage.local.set\<close>
  itself and sends no message, whereas every write through \<open>_set\<close> sends one.
\<close>

theorem clearAll_sends_no_message:
  "sentMessages (clearAll st) = sentMessages st
   \<and> getProjects (clearAll st) = JArr []
   \<and> sentMessages (storageSet key v st) = Suc (sentMessages st)"
  by (simp add: clearAll_def storageSet_def getProjects_def storageGet_def orElse_def)

text \<open>
  \<open>importAllTyped\<close> and \<open>clearAllTyped\<close> are \<open>importAll\<close> and \<open>clearAll\<close> on the storage
  that holds the typed store: for a document that encodes typed collections, what
  \<open>importAll\<close> leaves in the storage is what \<open>importAllTyped\<close> leaves in the store, and
  likewise for \<open>clearAll\<close>.
\<close>

lemma getters_importKey:
  "getProjects (importKey data key st) =
     (if key = ''gpm_projects'' \<and> truthy (getProp data key) then the (getProp data key)
      else getProjects st)"
  "getChatMap (importKey data key st) =
     (if key = ''gpm_chatMap'' \<and> truthy (getProp data key) then the (getProp data key)
      else getChatMap st)"
  "getQuickPrompts (importKey data key st) =
     (if key = ''gpm_quickPrompts'' \<and> truthy (getProp data key) then the (getProp data key)
      else getQuickPrompts st)"
  "getSettings (importKey data key st) =
     (if key = ''gpm_settings'' \<and> truthy (getProp data key) then the (getProp data key)
      else getSettings st)"
  "sentMessages (importKey data key st) =
     (if truthy (getProp data key) then Suc (sentMessages st) else sentMessages st)"
  by (cases "getProp data key";
      simp add: importKey_def storageSet_def getProjects_def getChatMap_def
        getQuickPrompts_def getSettings_def storageGet_def orElse_def)+

lemma truthy_enc:
  "truthy (Some (encProjects ps))" "truthy (Some (encChatMap cm))"
  "truthy (Some (encPrompts qs))" "truthy (Some (encSettings v))"
  by (simp_all add: encProjects_def encChatMap_def encPrompts_def encSettings_def)

lemma getProp_encDocument:
  "getProp (encDocument data) ''gpm_projects'' = map_option encProjects (doc_projects data)"
  "getProp (encDocument data) ''gpm_chatMap'' = map_option encChatMap (doc_chatMap data)"
  "getProp (encDocument data) ''gpm_quickPrompts'' = map_option encPrompts (doc_quickPrompts data)"
  "getProp (encDocument data) ''gpm_settings'' = map_option encSettings (doc_settings data)"
  by (simp_all add: encDocument_def split: option.splits)

lemma holds_empty: "holds emptyStorage emptyFullStore"
  by (simp add: holds_def emptyStorage_def emptyFullStore_def getProjects_def getChatMap_def
        getQuickPrompts_def getSettings_def storageGet_def orElse_def encProjects_def
        encChatMap_def encPrompts_def encSettings_def defaultSettings_def)

lemma clearAll_typed: "holds st s \<Longrightarrow> holds (clearAll st) (clearAllTyped s)"
  by (simp add: holds_def clearAll_def clearAllTyped_def getProjects_def getChatMap_def
        getQuickPrompts_def getSettings_def storageGet_def orElse_def encProjects_def
        encChatMap_def encPrompts_def encSettings_def defaultSettings_def)

lemma importAll_typed:
  assumes h: "holds st s" and p: "parse jsonString = Some (encDocument data)"
  shows "\<exists>st'. importAll parse jsonString st = Inr st' \<and> holds st' (importAllTyped data s)"
proof -
  have 1: "importAll parse jsonString st =
       Inr (importKey (encDocument data) ''gpm_settings''
             (importKey (encDocument data) ''gpm_quickPrompts''
               (importKey (encDocument data) ''gpm_chatMap''
                 (importKey (encDocument data) ''gpm_projects'' st))))"
    using p by (simp add: importAll_def encDocument_def)
  show ?thesis
    unfolding 1 using h
    by (cases "doc_projects data"; cases "doc_chatMap data"; cases "doc_quickPrompts data";
        cases "doc_settings data")
       (simp_all add: holds_def getters_importKey getProp_encDocument truthy_enc
          importAllTyped_def Let_def saveProjects_def saveChatMap_def setQuickPrompts_def
          saveSettings_def)
qed

end
